(* ===== verification/Prelude.thy ===== *)
theory Prelude
  imports Main "HOL-Library.Word" "HOL-Library.Multiset"
begin

unbundle bit_operations_syntax

text \<open>
  What every component of the development shares: the C integer types as words,
  pointers as numbers, the kernel's error numbers, faults (an oops, a failed
  \<^verbatim>\<open>BUG_ON\<close>, a read outside a buffer) as the left summand of a result type,
  network byte order on byte lists, per-CPU arrays and the wrapping comparison of
  \<^verbatim>\<open>jiffies\<close>. The collections \<open>wf_intros\<close> and \<open>frame_simps\<close> are filled by the
  components: the first holds the rules that re-establish an invariant, the second
  the equations saying which fields an operation leaves alone.
\<close>

named_theorems wf_intros
named_theorems frame_simps

section \<open>Integers and pointers\<close>

type_synonym u8 = "8 word"
type_synonym u16 = "16 word"
type_synonym u32 = "32 word"
type_synonym u64 = "64 word"
type_synonym ptr = nat

text \<open>The error numbers of \<^verbatim>\<open>asm-generic/errno.h\<close> that the modules return, negated.\<close>

abbreviation (input) EPERM :: int where "EPERM \<equiv> 1"
abbreviation (input) ENOENT :: int where "ENOENT \<equiv> 2"
abbreviation (input) EIO :: int where "EIO \<equiv> 5"
abbreviation (input) ENXIO :: int where "ENXIO \<equiv> 6"
abbreviation (input) EBADF :: int where "EBADF \<equiv> 9"
abbreviation (input) EAGAIN :: int where "EAGAIN \<equiv> 11"
abbreviation (input) ENOMEM :: int where "ENOMEM \<equiv> 12"
abbreviation (input) EFAULT :: int where "EFAULT \<equiv> 14"
abbreviation (input) EBUSY :: int where "EBUSY \<equiv> 16"
abbreviation (input) EEXIST :: int where "EEXIST \<equiv> 17"
abbreviation (input) ENODEV :: int where "ENODEV \<equiv> 19"
abbreviation (input) EINVAL :: int where "EINVAL \<equiv> 22"
abbreviation (input) ENOSYS :: int where "ENOSYS \<equiv> 38"
abbreviation (input) EBADR :: int where "EBADR \<equiv> 53"
abbreviation (input) ENOPROTOOPT :: int where "ENOPROTOOPT \<equiv> 92"
abbreviation (input) EMSGSIZE :: int where "EMSGSIZE \<equiv> 90"
abbreviation (input) EDESTADDRREQ :: int where "EDESTADDRREQ \<equiv> 89"
abbreviation (input) EPROTONOSUPPORT :: int where "EPROTONOSUPPORT \<equiv> 93"
abbreviation (input) EOPNOTSUPP :: int where "EOPNOTSUPP \<equiv> 95"
abbreviation (input) EAFNOSUPPORT :: int where "EAFNOSUPPORT \<equiv> 97"
abbreviation (input) EADDRINUSE :: int where "EADDRINUSE \<equiv> 98"
abbreviation (input) EADDRNOTAVAIL :: int where "EADDRNOTAVAIL \<equiv> 99"
abbreviation (input) ENOBUFS :: int where "ENOBUFS \<equiv> 105"
abbreviation (input) ENOTCONN :: int where "ENOTCONN \<equiv> 107"
abbreviation (input) EALREADY :: int where "EALREADY \<equiv> 114"
abbreviation (input) EHOSTUNREACH :: int where "EHOSTUNREACH \<equiv> 113"

section \<open>Faults\<close>

text \<open>
  What stops the kernel rather than returning an error: a NULL pointer dereferenced, an
  object used after it was freed, a failed \<^verbatim>\<open>BUG_ON\<close>, a read or a write outside the
  buffer it is meant for.
\<close>

datatype fault = NullDeref | UseAfterFree | BugOn | OutOfBounds

type_synonym 'a kres = "fault + 'a"

definition bind_res :: "'a kres \<Rightarrow> ('a \<Rightarrow> 'b kres) \<Rightarrow> 'b kres" where
  "bind_res m f = (case m of Inl e \<Rightarrow> Inl e | Inr x \<Rightarrow> f x)"

lemma bind_res_simps [simp]:
  "bind_res (Inl e) f = Inl e"
  "bind_res (Inr x) f = f x"
  by (simp_all add: bind_res_def)

lemma bind_res_cong [fundef_cong]:
  "m = m' \<Longrightarrow> (\<And>x. m' = Inr x \<Longrightarrow> f x = f' x) \<Longrightarrow> bind_res m f = bind_res m' f'"
  by (auto simp: bind_res_def split: sum.splits)

lemma bind_res_Inr_iff:
  "bind_res m f = Inr y \<longleftrightarrow> (\<exists>x. m = Inr x \<and> f x = Inr y)"
  by (cases m) auto

lemma bind_res_Inl_iff:
  "bind_res m f = Inl e \<longleftrightarrow> m = Inl e \<or> (\<exists>x. m = Inr x \<and> f x = Inl e)"
  by (cases m) auto

lemma bind_res_split:
  "P (bind_res m f) \<longleftrightarrow> (\<forall>e. m = Inl e \<longrightarrow> P (Inl e)) \<and> (\<forall>x. m = Inr x \<longrightarrow> P (f x))"
  by (cases m) auto

lemma bind_res_assoc: "bind_res (bind_res m f) g = bind_res m (\<lambda>x. bind_res (f x) g)"
  by (cases m) simp_all

definition require :: "fault \<Rightarrow> bool \<Rightarrow> unit kres" where
  "require e b = (if b then Inr () else Inl e)"

lemma require_simps [simp]:
  "require e True = Inr ()"
  "require e False = Inl e"
  "require e b = Inr u \<longleftrightarrow> b"
  by (auto simp: require_def)

definition deref_ptr :: "(ptr \<Rightarrow> 'a option) \<Rightarrow> ptr option \<Rightarrow> (ptr \<times> 'a) kres" where
  "deref_ptr h p = (case p of None \<Rightarrow> Inl NullDeref
     | Some a \<Rightarrow> (case h a of None \<Rightarrow> Inl UseAfterFree | Some x \<Rightarrow> Inr (a, x)))"

lemma deref_ptr_simps [simp]:
  "deref_ptr h None = Inl NullDeref"
  "h a = None \<Longrightarrow> deref_ptr h (Some a) = Inl UseAfterFree"
  "h a = Some x \<Longrightarrow> deref_ptr h (Some a) = Inr (a, x)"
  by (simp_all add: deref_ptr_def)

lemma deref_ptr_Inr_iff: "deref_ptr h p = Inr (a, x) \<longleftrightarrow> p = Some a \<and> h a = Some x"
  by (auto simp: deref_ptr_def split: option.splits)

section \<open>Network byte order\<close>

definition put_be16 :: "u16 \<Rightarrow> u8 list" where
  "put_be16 w = [ucast (drop_bit 8 w), ucast w]"

definition put_be32 :: "u32 \<Rightarrow> u8 list" where
  "put_be32 w = [ucast (drop_bit 24 w), ucast (drop_bit 16 w), ucast (drop_bit 8 w), ucast w]"

definition be16 :: "u8 \<Rightarrow> u8 \<Rightarrow> u16" where
  "be16 a b = push_bit 8 (ucast a) OR ucast b"

definition be32 :: "u8 \<Rightarrow> u8 \<Rightarrow> u8 \<Rightarrow> u8 \<Rightarrow> u32" where
  "be32 a b c d = push_bit 24 (ucast a) OR push_bit 16 (ucast b) OR push_bit 8 (ucast c) OR ucast d"

text \<open>
  The dereference of a \<^verbatim>\<open>__be16 *\<close> or \<^verbatim>\<open>__be32 *\<close> at an offset of a buffer; the buffer
  is the list of the bytes that may be read.
\<close>

definition get_be16 :: "u8 list \<Rightarrow> nat \<Rightarrow> u16 kres" where
  "get_be16 bs i = (if i + 2 \<le> length bs then Inr (be16 (bs ! i) (bs ! Suc i)) else Inl OutOfBounds)"

definition get_be32 :: "u8 list \<Rightarrow> nat \<Rightarrow> u32 kres" where
  "get_be32 bs i = (if i + 4 \<le> length bs
     then Inr (be32 (bs ! i) (bs ! (i + 1)) (bs ! (i + 2)) (bs ! (i + 3))) else Inl OutOfBounds)"

definition get_bytes :: "u8 list \<Rightarrow> nat \<Rightarrow> nat \<Rightarrow> u8 list kres" where
  "get_bytes bs i n = (if i + n \<le> length bs then Inr (take n (drop i bs)) else Inl OutOfBounds)"

lemma length_put_be [simp]: "length (put_be16 w) = 2" "length (put_be32 v) = 4"
  by (simp_all add: put_be16_def put_be32_def)

lemma be16_put: "be16 (ucast (drop_bit 8 w)) (ucast w) = w"
  by (rule bit_word_eqI) (auto simp: be16_def bit_simps)

lemma be32_put:
  "be32 (ucast (drop_bit 24 w)) (ucast (drop_bit 16 w)) (ucast (drop_bit 8 w)) (ucast w) = w"
proof (rule bit_word_eqI)
  fix n assume "n < LENGTH(32)"
  then consider "n < 8" | "8 \<le> n" "n < 16" | "16 \<le> n" "n < 24" | "24 \<le> n" "n < 32"
    by fastforce
  then show "bit (be32 (ucast (drop_bit 24 w)) (ucast (drop_bit 16 w)) (ucast (drop_bit 8 w)) (ucast w)) n
      = bit w n"
    by cases (simp_all add: be32_def bit_simps less_diff_conv2)
qed

lemma get_be16_put: "get_be16 (pre @ put_be16 w @ suf) (length pre) = Inr w"
  by (simp add: get_be16_def put_be16_def nth_append be16_put)

lemma get_be32_put: "get_be32 (pre @ put_be32 w @ suf) (length pre) = Inr w"
  by (simp add: get_be32_def put_be32_def nth_append be32_put)

lemma get_bytes_middle: "get_bytes (pre @ xs @ suf) (length pre) (length xs) = Inr xs"
  by (simp add: get_bytes_def)

section \<open>Per-CPU arrays\<close>

text \<open>
  A per-CPU object is the list of its instances; \<^verbatim>\<open>this_cpu_ptr\<close> selects the running
  CPU's. \<open>pcpu_sum\<close> is the loop over \<^verbatim>\<open>for_each_possible_cpu\<close> that reads a counter.
\<close>

definition upd_cpu :: "nat \<Rightarrow> ('a \<Rightarrow> 'a) \<Rightarrow> 'a list \<Rightarrow> 'a list" where
  "upd_cpu c f xs = xs[c := f (xs ! c)]"

definition pcpu_sum :: "('a \<Rightarrow> u64) \<Rightarrow> 'a list \<Rightarrow> u64" where
  "pcpu_sum f xs = sum_list (map f xs)"

lemma length_upd_cpu [simp]: "length (upd_cpu c f xs) = length xs"
  by (simp add: upd_cpu_def)

lemma upd_cpu_same: "c < length xs \<Longrightarrow> f (xs ! c) = xs ! c \<Longrightarrow> upd_cpu c f xs = xs"
  by (simp add: upd_cpu_def list_update_same_conv)

lemma upd_cpu_upd_cpu: "c < length xs \<Longrightarrow> upd_cpu c g (upd_cpu c f xs) = upd_cpu c (g \<circ> f) xs"
  by (simp add: upd_cpu_def)

lemma pcpu_sum_upd:
  assumes "c < length xs" and "\<And>x. f (g x) = f x + d"
  shows "pcpu_sum f (upd_cpu c g xs) = pcpu_sum f xs + d"
  using assms
proof (induction xs arbitrary: c)
  case Nil
  then show ?case by simp
next
  case (Cons x xs)
  then show ?case
    by (cases c) (simp_all add: pcpu_sum_def upd_cpu_def add_ac)
qed

lemma pcpu_sum_upd_same: "(\<And>x. f (g x) = f x) \<Longrightarrow> pcpu_sum f (upd_cpu c g xs) = pcpu_sum f xs"
  using pcpu_sum_upd [of c xs f g 0]
  by (cases "c < length xs") (auto simp: upd_cpu_def list_update_beyond)

section \<open>Time\<close>

text \<open>\<^verbatim>\<open>time_after(a, b)\<close> of \<^verbatim>\<open>linux/jiffies.h\<close>: \<^verbatim>\<open>(long)(b - a) < 0\<close>.\<close>

definition time_after :: "u64 \<Rightarrow> u64 \<Rightarrow> bool" where
  "time_after a b \<longleftrightarrow> sint (b - a) < 0"

lemma time_after_irrefl [simp]: "\<not> time_after a a"
  by (simp add: time_after_def)

lemma time_after_later:
  assumes "d < 2 ^ 63"
  shows "\<not> time_after a (a + of_nat d)"
proof -
  have "sint (of_nat d :: u64) = int d"
    using assms by (simp add: signed_of_nat signed_take_bit_int_eq_self)
  then show ?thesis by (simp add: time_after_def)
qed

section \<open>Lists\<close>

lemma sorted_wrt_insert_middle:
  "sorted_wrt R (xs @ x # ys) \<longleftrightarrow>
     sorted_wrt R (xs @ ys) \<and> (\<forall>a \<in> set xs. R a x) \<and> (\<forall>b \<in> set ys. R x b)"
  by (auto simp: sorted_wrt_append)

end
