(* ===== verification/L2tp_Types.thy ===== *)
theory L2tp_Types
  imports Prelude
begin

text \<open>
  The data of the L2TP modules: packet buffers with the L2TP control block, the
  statistics, session, tunnel and per-namespace structures of
  \<^verbatim>\<open>l2tp_core.h\<close> and \<^verbatim>\<open>l2tp_core.c\<close>, the fields of sockets and network devices the
  modules read or write, and \<open>kenv\<close>, the parameter that stands for the rest of the
  kernel: one field per function the modules call whose result they act on.

  A structure field keeps its C name; where two structures share a name the field of
  the tunnel is prefixed \<open>t_\<close>, that of the session \<open>s_\<close>, that of the packet's control
  block \<open>cb_\<close> and that of a configuration \<open>cfg_\<close>. A function pointer is a value of a
  datatype with one constructor per function the modules store there.
\<close>

section \<open>Packet buffers\<close>

text \<open>\<^verbatim>\<open>struct l2tp_skb_cb\<close>; \<open>has_seq\<close> is only ever 0 or 1.\<close>

record l2tp_skb_cb =
  cb_ns :: u32
  cb_has_seq :: bool
  cb_length :: u16
  cb_expires :: u64

datatype csum_state = CHECKSUM_NONE | CHECKSUM_UNNECESSARY | CHECKSUM_COMPLETE | CHECKSUM_PARTIAL

text \<open>
  A packet buffer: the bytes in front of \<^verbatim>\<open>skb->data\<close>, the bytes from \<^verbatim>\<open>skb->data\<close> on
  (\<^verbatim>\<open>skb->len\<close> of them), and how many of the latter are in the linear area, where they
  can be read through a pointer.
\<close>

record sk_buff =
  skb_head :: "u8 list"
  skb_data :: "u8 list"
  skb_headlen :: nat
  skb_cb :: l2tp_skb_cb
  ip_summed :: csum_state
  skb_csum :: u32
  skb_sk :: "ptr option"
  skb_dst :: "ptr option"

abbreviation skb_len :: "sk_buff \<Rightarrow> nat" where
  "skb_len skb \<equiv> length (skb_data skb)"

abbreviation linear :: "sk_buff \<Rightarrow> u8 list" where
  "linear skb \<equiv> take (skb_headlen skb) (skb_data skb)"

section \<open>Statistics\<close>

record l2tp_stats =
  tx_packets :: u64
  tx_bytes :: u64
  tx_errors :: u64
  rx_packets :: u64
  rx_bytes :: u64
  rx_seq_discards :: u64
  rx_oos_packets :: u64
  rx_errors :: u64
  rx_cookie_discards :: u64

definition zero_stats :: l2tp_stats where
  "zero_stats = \<lparr>tx_packets = 0, tx_bytes = 0, tx_errors = 0, rx_packets = 0, rx_bytes = 0,
     rx_seq_discards = 0, rx_oos_packets = 0, rx_errors = 0, rx_cookie_discards = 0\<rparr>"

section \<open>Sessions and tunnels\<close>

abbreviation (input) L2TP_TUNNEL_MAGIC :: u32 where "L2TP_TUNNEL_MAGIC \<equiv> 0x42114DDA"
abbreviation (input) L2TP_SESSION_MAGIC :: u32 where "L2TP_SESSION_MAGIC \<equiv> 0x0C04EB7D"

text \<open>The pseudowire and encapsulation types of \<^verbatim>\<open>linux/l2tp.h\<close>.\<close>

abbreviation (input) L2TP_PWTYPE_NONE :: u16 where "L2TP_PWTYPE_NONE \<equiv> 0"
abbreviation (input) L2TP_PWTYPE_ETH_VLAN :: u16 where "L2TP_PWTYPE_ETH_VLAN \<equiv> 4"
abbreviation (input) L2TP_PWTYPE_ETH :: u16 where "L2TP_PWTYPE_ETH \<equiv> 5"
abbreviation (input) L2TP_PWTYPE_PPP :: u16 where "L2TP_PWTYPE_PPP \<equiv> 7"
abbreviation (input) L2TP_PWTYPE_PPP_AC :: u16 where "L2TP_PWTYPE_PPP_AC \<equiv> 8"
abbreviation (input) L2TP_PWTYPE_IP :: u16 where "L2TP_PWTYPE_IP \<equiv> 11"
abbreviation (input) L2TP_PWTYPE_MAX :: u16 where "L2TP_PWTYPE_MAX \<equiv> 12"

abbreviation (input) L2TP_ENCAPTYPE_UDP :: u16 where "L2TP_ENCAPTYPE_UDP \<equiv> 0"
abbreviation (input) L2TP_ENCAPTYPE_IP :: u16 where "L2TP_ENCAPTYPE_IP \<equiv> 1"

abbreviation (input) L2TP_L2SPECTYPE_NONE :: u16 where "L2TP_L2SPECTYPE_NONE \<equiv> 0"
abbreviation (input) L2TP_L2SPECTYPE_DEFAULT :: u16 where "L2TP_L2SPECTYPE_DEFAULT \<equiv> 1"

abbreviation (input) L2TP_MSG_DATA :: u32 where "L2TP_MSG_DATA \<equiv> 8"

record l2tp_session_cfg =
  cfg_pw_type :: u16
  cfg_data_seq :: "2 word"
  cfg_recv_seq :: "1 word"
  cfg_send_seq :: "1 word"
  cfg_lns_mode :: "1 word"
  cfg_debug :: u32
  cfg_vlan_id :: u16
  cfg_offset :: u16
  cfg_l2specific_len :: u16
  cfg_l2specific_type :: u16
  cfg_cookie :: "u8 list"
  cfg_cookie_len :: nat
  cfg_peer_cookie :: "u8 list"
  cfg_peer_cookie_len :: nat
  cfg_reorder_timeout :: int
  cfg_mtu :: int
  cfg_mru :: int
  cfg_ifname :: "string option"

text \<open>The values a session's function pointers take.\<close>

datatype pw_recv = L2tp_eth_dev_recv | Pppol2tp_recv
datatype pw_close = L2tp_eth_delete | Pppol2tp_session_close
datatype header_builder = L2tp_build_l2tpv2_header | L2tp_build_l2tpv3_header

text \<open>
  The private area at the end of a session: \<^verbatim>\<open>struct l2tp_eth_sess\<close> or
  \<^verbatim>\<open>struct pppol2tp_session\<close>.
\<close>

record pppol2tp_session =
  ps_owner :: int
  ps_sock :: "ptr option"
  ps_tunnel_sock :: "ptr option"
  ps_flags :: int

datatype session_priv = PrivNone | PrivEth "ptr option" | PrivPpp pppol2tp_session

record l2tp_session =
  s_magic :: u32
  s_tunnel :: "ptr option"
  session_id :: u32
  peer_session_id :: u32
  cookie :: "u8 list"
  cookie_len :: nat
  peer_cookie :: "u8 list"
  peer_cookie_len :: nat
  s_offset :: u16
  l2specific_len :: u16
  l2specific_type :: u16
  hdr_len :: u16
  nr :: u32
  ns :: u32
  reorder_q :: "sk_buff list"
  nr_max :: u32
  nr_window_size :: u32
  nr_oos :: u32
  nr_oos_count :: int
  nr_oos_count_max :: int
  s_ref_count :: int
  ifname :: string
  data_seq :: "2 word"
  recv_seq :: "1 word"
  send_seq :: "1 word"
  lns_mode :: "1 word"
  s_debug :: u32
  reorder_timeout :: int
  reorder_skip :: bool
  s_mtu :: int
  s_mru :: int
  pwtype :: u16
  s_stats :: "l2tp_stats list"
  build_header :: header_builder
  recv_skb :: "pw_recv option"
  session_close :: "pw_close option"
  s_ref :: bool
  s_deref :: bool
  priv :: session_priv

record l2tp_tunnel_cfg =
  tcfg_debug :: u32
  tcfg_encap :: u16
  local_ip :: u32
  peer_ip :: u32
  local_ip6 :: "128 word option"
  peer_ip6 :: "128 word option"
  local_udp_port :: u16
  peer_udp_port :: u16
  use_udp_checksums :: bool

datatype payload_hook = Pppol2tp_recv_payload_hook

text \<open>
  The destructors a tunnel or session socket can carry; \<open>Sock_destruct\<close> is the one the
  socket had before the tunnel hooked it.
\<close>

datatype sk_destruct_fn = Sock_destruct | L2tp_tunnel_destruct | Pppol2tp_session_destruct

record l2tp_tunnel =
  t_magic :: u32
  session_hlist :: "ptr list list"
  tunnel_id :: u32
  peer_tunnel_id :: u32
  version :: int
  t_debug :: u32
  encap :: u16
  t_stats :: "l2tp_stats list"
  l2tp_net :: nat
  t_ref_count :: int
  recv_payload_hook :: "payload_hook option"
  old_sk_destruct :: "sk_destruct_fn option"
  t_sock :: "ptr option"
  t_fd :: int
  v4mapped :: bool

text \<open>The \<^verbatim>\<open>struct l2tp_nl_cmd_ops\<close> that the pseudowire modules register with the netlink module.\<close>

datatype nl_cmd_ops = L2tp_eth_nl_cmd_ops | Pppol2tp_nl_cmd_ops

text \<open>\<^verbatim>\<open>struct l2tp_net\<close>: the tunnels of a namespace and its L2TPv3 sessions by hash.\<close>

record l2tp_pernet =
  l2tp_tunnel_list :: "ptr list"
  l2tp_session_hlist :: "ptr list list"

end
