(* ===== verification/Kernel.thy ===== *)
theory Kernel
  imports L2tp_Types
begin

text \<open>
  What the modules see of the kernel around them. \<open>sock\<close> and \<open>l2tp_eth\<close> hold the
  fields of sockets and of L2TP Ethernet devices that the modules touch; \<open>world\<close> is
  the store of both. \<open>kenv\<close> is the parameter for the functions of other subsystems:
  each field is what one such function returns, so a theorem that leaves the
  environment free holds whatever those functions do. Buffer and reference-count
  primitives (\<^verbatim>\<open>__skb_pull\<close>, \<^verbatim>\<open>sock_hold\<close>, ...) are the library the modules are written
  against and are defined here.
\<close>

section \<open>Sockets and devices\<close>

abbreviation (input) AF_INET :: nat where "AF_INET \<equiv> 2"
abbreviation (input) AF_INET6 :: nat where "AF_INET6 \<equiv> 10"
abbreviation (input) IPPROTO_UDP :: nat where "IPPROTO_UDP \<equiv> 17"
abbreviation (input) IPPROTO_L2TP :: nat where "IPPROTO_L2TP \<equiv> 115"
abbreviation (input) UDP_CSUM_NOXMIT :: nat where "UDP_CSUM_NOXMIT \<equiv> 1"
abbreviation (input) UDP_ENCAP_L2TPINUDP :: nat where "UDP_ENCAP_L2TPINUDP \<equiv> 3"

text \<open>
  \<open>sk_socket\<close> says that the socket still has its \<^verbatim>\<open>struct socket\<close>, \<open>sk_file\<close> that this
  one has a file; \<open>file_refs\<close> counts the file references taken by \<^verbatim>\<open>sockfd_lookup\<close>.
  The last three fields are the PPP channel of a \<^verbatim>\<open>struct pppox_sock\<close>.
\<close>

record sock =
  sk_refcnt :: int
  sk_family :: nat
  sk_protocol :: nat
  sk_state :: nat
  sk_user_data :: "ptr option"
  sk_destruct :: "sk_destruct_fn option"
  sk_no_check :: nat
  sk_bound_dev_if :: int
  sk_net :: nat
  sk_socket :: bool
  sk_file :: bool
  file_refs :: int
  sk_shutdown :: bool
  sk_dead :: bool
  sk_zapped :: bool
  inet_saddr :: u32
  inet_rcv_saddr :: u32
  inet_daddr :: u32
  inet_sport :: u16
  inet_dport :: u16
  inet_num :: nat
  freebind :: bool
  force_daddr_on_connect :: bool
  np_saddr :: "128 word"
  sk_v6_daddr :: "128 word"
  sk_v6_rcv_saddr :: "128 word"
  encap_type :: nat
  encap_rcv :: bool
  encap_destroy :: bool
  sk_receive_queue :: "sk_buff list"
  sk_write_queue :: "sk_buff list"
  conn_id :: u32
  peer_conn_id :: u32
  chan_hdrlen :: nat
  chan_mtu :: int
  chan_registered :: bool

text \<open>The counters of \<^verbatim>\<open>struct l2tp_pcpu_stats\<close> and an Ethernet pseudowire's device.\<close>

record l2tp_pcpu_stats =
  d_tx_packets :: u64
  d_tx_bytes :: u64
  d_rx_packets :: u64
  d_rx_bytes :: u64
  d_tx_dropped :: u64
  d_rx_errors :: u64

definition zero_pcpu_stats :: l2tp_pcpu_stats where
  "zero_pcpu_stats = \<lparr>d_tx_packets = 0, d_tx_bytes = 0, d_rx_packets = 0, d_rx_bytes = 0,
     d_tx_dropped = 0, d_rx_errors = 0\<rparr>"

record l2tp_eth =
  dev_name :: string
  dev_net :: nat
  dev_mtu :: int
  needed_headroom :: nat
  dev_refcnt :: int
  dstats :: "l2tp_pcpu_stats list"
  tunnel_sock :: "ptr option"
  eth_session :: ptr

record world =
  socks :: "ptr \<Rightarrow> sock option"
  devs :: "ptr \<Rightarrow> l2tp_eth option"
  eth_dev_list :: "nat \<Rightarrow> ptr list"

section \<open>The environment\<close>

text \<open>The places where the modules allocate memory, and the socket addresses they pass on.\<close>

datatype alloc_site = Alloc_tunnel | Alloc_tunnel_stats | Alloc_session | Alloc_session_stats
  | Alloc_netdev | Alloc_dstats | Alloc_sock | Alloc_skb

datatype sockaddr = Sockaddr_in u32 u16 | Sockaddr_in6 "128 word" u16
  | Sockaddr_l2tpip u32 u32 | Sockaddr_l2tpip6 "128 word" u32

record kenv =
  cpu :: nat
  possible_cpus :: nat
  jiffies :: u64
  HZ :: nat
  pull_tail :: "sk_buff \<Rightarrow> nat \<Rightarrow> bool"
  dev_forward_skb :: "ptr \<Rightarrow> sk_buff \<Rightarrow> bool"
  sock_queue_rcv_skb :: "ptr \<Rightarrow> sk_buff \<Rightarrow> int"
  skb_csum_unnecessary :: "sk_buff \<Rightarrow> bool"
  skb_checksum_complete :: "sk_buff \<Rightarrow> bool"
  ipv6_saddr :: "sk_buff \<Rightarrow> 128 word"
  ipv6_daddr :: "sk_buff \<Rightarrow> 128 word"
  csum_ipv6_magic :: "128 word \<Rightarrow> 128 word \<Rightarrow> nat \<Rightarrow> u32 \<Rightarrow> u16"
  csum_tcpudp_nofold :: "u32 \<Rightarrow> u32 \<Rightarrow> nat \<Rightarrow> u32"
  csum_tcpudp_magic :: "u32 \<Rightarrow> u32 \<Rightarrow> nat \<Rightarrow> u32 \<Rightarrow> u16"
  csum_fold :: "u32 \<Rightarrow> u16"
  csum_add :: "u32 \<Rightarrow> u32 \<Rightarrow> u32"
  skb_checksum :: "sk_buff \<Rightarrow> nat \<Rightarrow> u32"
  skb_cow_head :: "sk_buff \<Rightarrow> nat \<Rightarrow> sk_buff option"
  sock_owned_by_user :: "ptr \<Rightarrow> bool"
  sk_dst_check :: "ptr \<Rightarrow> ptr option"
  dst_dev_csum :: "ptr \<Rightarrow> bool option"
  ip_queue_xmit :: "sk_buff \<Rightarrow> int"
  inet6_csk_xmit :: "sk_buff \<Rightarrow> int"
  hash_32 :: "u32 \<Rightarrow> nat \<Rightarrow> nat"
  kzalloc_ok :: "alloc_site \<Rightarrow> bool"
  sockfd_lookup :: "int \<Rightarrow> ptr option"
  sock_create_kern :: "nat \<Rightarrow> nat \<Rightarrow> int + sock"
  kernel_bind :: "sockaddr \<Rightarrow> sock \<Rightarrow> int \<times> sock"
  kernel_connect :: "sockaddr \<Rightarrow> sock \<Rightarrow> sock"
  register_netdev :: "l2tp_eth \<Rightarrow> int + string"
  dev_name_taken :: "nat \<Rightarrow> string \<Rightarrow> bool"
  dst_pmtu :: "ptr \<Rightarrow> nat option"
  ppp_register_net_channel :: "ptr \<Rightarrow> int"
  current_pid :: int
  msecs_to_jiffies :: "u32 \<Rightarrow> int"
  jiffies_to_msecs :: "int \<Rightarrow> u32"
  NET_SKB_PAD :: nat
  xfrm_policy_check :: "ptr \<Rightarrow> sk_buff \<Rightarrow> bool"
  sk_receive_skb :: "ptr \<Rightarrow> sk_buff \<Rightarrow> int"
  inet_addr_type :: "nat \<Rightarrow> u32 \<Rightarrow> nat"
  ipv6_addr_type :: "128 word \<Rightarrow> nat"
  ipv6_chk_addr :: "nat \<Rightarrow> 128 word \<Rightarrow> int \<Rightarrow> bool"
  datagram_connect :: "sockaddr \<Rightarrow> sock \<Rightarrow> int \<times> sock"
  udp_disconnect :: "sock \<Rightarrow> int \<times> sock"
  inet_srr_faddr :: "ptr \<Rightarrow> u32 option"
  ip_route_output_ports :: "u32 \<Rightarrow> sock \<Rightarrow> ptr option"
  skb_copy_to_user :: "u8 list \<Rightarrow> int"
  genlmsg_unicast :: "nat \<Rightarrow> int"
  xfrm_policies :: "ptr \<Rightarrow> bool"
  ppp_dev_name :: "ptr \<Rightarrow> string"
  recv_datagram_err :: "ptr \<Rightarrow> int"

text \<open>
  What the modules rely on of the environment: the running CPU is one of the possible
  ones, and \<^verbatim>\<open>hash_32(x, n)\<close> of \<^verbatim>\<open>linux/hash.h\<close> keeps \<open>n\<close> bits.
\<close>

definition wf_env :: "kenv \<Rightarrow> bool" where
  "wf_env E \<longleftrightarrow> cpu E < possible_cpus E \<and> (\<forall>x n. hash_32 E x n < 2 ^ n)"

section \<open>Buffer primitives\<close>

text \<open>
  \<^verbatim>\<open>pskb_may_pull(skb, n)\<close>: makes the first \<open>n\<close> bytes linear; false when the packet is
  shorter, or when bytes have to be moved and the allocation for that fails.
\<close>

definition pskb_may_pull :: "kenv \<Rightarrow> sk_buff \<Rightarrow> nat \<Rightarrow> bool \<times> sk_buff" where
  "pskb_may_pull E skb n =
     (if n \<le> skb_headlen skb then (True, skb)
      else if skb_len skb < n then (False, skb)
      else if pull_tail E skb n then (True, skb\<lparr>skb_headlen := n\<rparr>)
      else (False, skb))"

text \<open>\<^verbatim>\<open>__skb_pull\<close> fails its \<^verbatim>\<open>BUG_ON\<close> when it would cut into the paged part.\<close>

definition skb_pull :: "sk_buff \<Rightarrow> nat \<Rightarrow> sk_buff kres" where
  "skb_pull skb n =
     (if n \<le> skb_headlen skb \<and> n \<le> skb_len skb
      then Inr (skb\<lparr>skb_head := skb_head skb @ take n (skb_data skb),
                    skb_data := drop n (skb_data skb),
                    skb_headlen := skb_headlen skb - n\<rparr>)
      else Inl BugOn)"

text \<open>\<^verbatim>\<open>__skb_push\<close> moves \<^verbatim>\<open>skb->data\<close> back over the last \<open>n\<close> bytes of the headroom.\<close>

definition skb_push :: "sk_buff \<Rightarrow> nat \<Rightarrow> sk_buff kres" where
  "skb_push skb n =
     (let k = length (skb_head skb) in
      if n \<le> k
      then Inr (skb\<lparr>skb_head := take (k - n) (skb_head skb),
                    skb_data := drop (k - n) (skb_head skb) @ skb_data skb,
                    skb_headlen := skb_headlen skb + n\<rparr>)
      else Inl OutOfBounds)"

definition wf_skb :: "sk_buff \<Rightarrow> bool" where
  "wf_skb skb \<longleftrightarrow> skb_headlen skb \<le> skb_len skb"

lemma length_linear: "wf_skb skb \<Longrightarrow> length (linear skb) = skb_headlen skb"
  by (simp add: wf_skb_def)

lemma pskb_may_pull_True:
  assumes "pskb_may_pull E skb n = (True, skb')" and "wf_skb skb"
  shows "n \<le> skb_headlen skb'" and "n \<le> skb_len skb'" and "wf_skb skb'"
    and "skb_data skb' = skb_data skb" and "skb_head skb' = skb_head skb"
    and "skb_cb skb' = skb_cb skb"
  using assms by (auto simp: pskb_may_pull_def wf_skb_def split: if_splits)

lemma pskb_may_pull_False:
  "pskb_may_pull E skb n = (False, skb') \<Longrightarrow> skb' = skb"
  by (auto simp: pskb_may_pull_def split: if_splits)

lemma pskb_may_pull_linear [simp]: "n \<le> skb_headlen skb \<Longrightarrow> pskb_may_pull E skb n = (True, skb)"
  by (simp add: pskb_may_pull_def)

lemma pskb_may_pull_short [simp]:
  "wf_skb skb \<Longrightarrow> skb_len skb < n \<Longrightarrow> pskb_may_pull E skb n = (False, skb)"
  by (simp add: pskb_may_pull_def wf_skb_def)

lemma wf_skb_pull [wf_intros]: "wf_skb skb \<Longrightarrow> skb_pull skb n = Inr skb' \<Longrightarrow> wf_skb skb'"
  by (auto simp: skb_pull_def wf_skb_def split: if_splits)

lemma skb_push_pull:
  assumes "skb_pull skb n = Inr skb'"
  shows "skb_push skb' n = Inr skb"
  using assms by (auto simp: skb_pull_def skb_push_def Let_def split: if_splits)

section \<open>Socket references\<close>

definition upd_sock :: "ptr \<Rightarrow> (sock \<Rightarrow> sock) \<Rightarrow> world \<Rightarrow> world" where
  "upd_sock p f w = w\<lparr>socks := (socks w)(p := map_option f (socks w p))\<rparr>"

definition sock_hold :: "ptr option \<Rightarrow> world \<Rightarrow> world kres" where
  "sock_hold p w = bind_res (deref_ptr (socks w) p)
     (\<lambda>(a, sk). Inr (upd_sock a (\<lambda>s. s\<lparr>sk_refcnt := sk_refcnt s + 1\<rparr>) w))"

text \<open>
  \<^verbatim>\<open>sock_put\<close>; a socket whose count reaches zero stays in the store until its destructor
  runs, which the operations of the lifecycle component do.
\<close>

definition sock_put :: "ptr option \<Rightarrow> world \<Rightarrow> world kres" where
  "sock_put p w = bind_res (deref_ptr (socks w) p)
     (\<lambda>(a, sk). Inr (upd_sock a (\<lambda>s. s\<lparr>sk_refcnt := sk_refcnt s - 1\<rparr>) w))"

lemma sock_put_hold:
  assumes "sock_hold p w = Inr w'"
  shows "sock_put p w' = Inr w"
proof -
  from assms obtain a sk where "p = Some a" "socks w a = Some sk"
    and "w' = upd_sock a (\<lambda>s. s\<lparr>sk_refcnt := sk_refcnt s + 1\<rparr>) w"
    by (auto simp: sock_hold_def bind_res_Inr_iff deref_ptr_Inr_iff)
  then show ?thesis
    by (auto simp: sock_put_def upd_sock_def deref_ptr_def intro!: world.equality ext)
qed

end
