(* ===== verification/Sample_State.thy ===== *)
theory Sample_State
  imports Kernel
begin

text \<open>
  A concrete environment, socket, device, session and tunnel. The witnesses of the
  components evaluate the operations on them, so that every hypothesis of a property is
  seen to hold somewhere.
\<close>

definition sample_env :: kenv where
  "sample_env = \<lparr>cpu = 0, possible_cpus = 2, jiffies = 1000, HZ = 100,
     pull_tail = (\<lambda>_ _. True), dev_forward_skb = (\<lambda>_ _. True), sock_queue_rcv_skb = (\<lambda>_ _. 0),
     skb_csum_unnecessary = (\<lambda>_. True), skb_checksum_complete = (\<lambda>_. False),
     ipv6_saddr = (\<lambda>_. 0), ipv6_daddr = (\<lambda>_. 0), csum_ipv6_magic = (\<lambda>_ _ _ _. 0),
     csum_tcpudp_nofold = (\<lambda>_ _ _. 0), csum_tcpudp_magic = (\<lambda>_ _ _ _. 0), csum_fold = (\<lambda>_. 0),
     csum_add = (\<lambda>_ _. 0), skb_checksum = (\<lambda>_ _. 0), skb_cow_head = (\<lambda>skb _. Some skb),
     sock_owned_by_user = (\<lambda>_. False), sk_dst_check = (\<lambda>_. None), dst_dev_csum = (\<lambda>_. None),
     ip_queue_xmit = (\<lambda>_. 0), inet6_csk_xmit = (\<lambda>_. 0),
     hash_32 = (\<lambda>x n. unat x mod 2 ^ n), kzalloc_ok = (\<lambda>_. True), sockfd_lookup = (\<lambda>fd. if fd = 5 then Some 1 else None),
     sock_create_kern = (\<lambda>_ _. Inl (- 12)), kernel_bind = (\<lambda>_ sk. (0, sk)), kernel_connect = (\<lambda>_ sk. sk),
     register_netdev = (\<lambda>_. Inr ''l2tpeth0''), dev_name_taken = (\<lambda>_ _. False), dst_pmtu = (\<lambda>_. None),
     ppp_register_net_channel = (\<lambda>_. 0), current_pid = 1, msecs_to_jiffies = (\<lambda>m. uint m div 10),
     jiffies_to_msecs = (\<lambda>j. of_int (j * 10)), NET_SKB_PAD = 32, xfrm_policy_check = (\<lambda>_ _. True),
     sk_receive_skb = (\<lambda>_ _. 0), inet_addr_type = (\<lambda>_ _. 2), ipv6_addr_type = (\<lambda>_. 1),
     ipv6_chk_addr = (\<lambda>_ _ _. True), datagram_connect = (\<lambda>_ sk. (0, sk)), udp_disconnect = (\<lambda>sk. (0, sk)),
     inet_srr_faddr = (\<lambda>_. None), ip_route_output_ports = (\<lambda>_ _. Some 1), skb_copy_to_user = (\<lambda>_. 0),
     genlmsg_unicast = (\<lambda>_. 0), xfrm_policies = (\<lambda>_. False), ppp_dev_name = (\<lambda>_. ''ppp0''),
     recv_datagram_err = (\<lambda>_. - 11)\<rparr>"

definition sample_sock :: sock where
  "sample_sock = \<lparr>sk_refcnt = 1, sk_family = 2, sk_protocol = 17, sk_state = 1, sk_user_data = None,
     sk_destruct = Some Sock_destruct, sk_no_check = 0, sk_bound_dev_if = 0, sk_net = 0,
     sk_socket = True, sk_file = True, file_refs = 1, sk_shutdown = False, sk_dead = False,
     sk_zapped = False, inet_saddr = 0x7f000001, inet_rcv_saddr = 0x7f000001,
     inet_daddr = 0x7f000001, inet_sport = 1701, inet_dport = 1702, inet_num = 1701,
     freebind = False, force_daddr_on_connect = False, np_saddr = 0, sk_v6_daddr = 0,
     sk_v6_rcv_saddr = 0, encap_type = 0, encap_rcv = False, encap_destroy = False,
     sk_receive_queue = [], sk_write_queue = [], conn_id = 0, peer_conn_id = 0,
     chan_hdrlen = 0, chan_mtu = 0, chan_registered = False\<rparr>"

definition sample_dev :: l2tp_eth where
  "sample_dev = \<lparr>dev_name = ''l2tpeth0'', dev_net = 0, dev_mtu = 1488, needed_headroom = 64, dev_refcnt = 1,
     dstats = [zero_pcpu_stats, zero_pcpu_stats], tunnel_sock = Some 1, eth_session = 1\<rparr>"

definition sample_world :: world where
  "sample_world = \<lparr>socks = (\<lambda>_. None)(1 := Some sample_sock), devs = (\<lambda>_. None)(1 := Some sample_dev),
     eth_dev_list = (\<lambda>_. [1])\<rparr>"

text \<open>An L2TPv3 Ethernet session with sequence numbers, a cookie and a reorder timeout.\<close>

definition sample_session :: l2tp_session where
  "sample_session = \<lparr>s_magic = 0x0C04EB7D, s_tunnel = Some 1, session_id = 7, peer_session_id = 9,
     cookie = [1, 2, 3, 4, 0, 0, 0, 0], cookie_len = 4, peer_cookie = [1, 2, 3, 4, 0, 0, 0, 0],
     peer_cookie_len = 4, s_offset = 0, l2specific_len = 4, l2specific_type = 1, hdr_len = 16,
     nr = 0, ns = 0, reorder_q = [], nr_max = 0xffffff, nr_window_size = 0x7fffff, nr_oos = 0,
     nr_oos_count = 0, nr_oos_count_max = 4, s_ref_count = 1, ifname = ''l2tpeth0'', data_seq = 0,
     recv_seq = 1, send_seq = 1, lns_mode = 1, s_debug = 0, reorder_timeout = 10,
     reorder_skip = False, s_mtu = 1488, s_mru = 1488, pwtype = 5,
     s_stats = [zero_stats, zero_stats], build_header = L2tp_build_l2tpv3_header,
     recv_skb = Some L2tp_eth_dev_recv, session_close = Some L2tp_eth_delete,
     s_ref = False, s_deref = False, priv = PrivEth (Some 1)\<rparr>"

definition sample_tunnel :: l2tp_tunnel where
  "sample_tunnel = \<lparr>t_magic = 0x42114DDA, session_hlist = replicate 16 [], tunnel_id = 3,
     peer_tunnel_id = 4, version = 3, t_debug = 0, encap = 0, t_stats = [zero_stats, zero_stats],
     l2tp_net = 0, t_ref_count = 1, recv_payload_hook = None, old_sk_destruct = Some Sock_destruct,
     t_sock = Some 1, t_fd = 5, v4mapped = False\<rparr>"

definition sample_skb :: "u8 list \<Rightarrow> sk_buff" where
  "sample_skb bs = \<lparr>skb_head = replicate 64 0, skb_data = bs, skb_headlen = length bs,
     skb_cb = \<lparr>cb_ns = 0, cb_has_seq = False, cb_length = 0, cb_expires = 0\<rparr>,
     ip_summed = CHECKSUM_NONE, skb_csum = 0, skb_sk = None, skb_dst = None\<rparr>"

lemma sample_session_simps [simp]:
  "s_magic sample_session = 0x0C04EB7D"
  "s_tunnel sample_session = Some 1"
  "session_id sample_session = 7"
  "peer_session_id sample_session = 9"
  "cookie sample_session = [1, 2, 3, 4, 0, 0, 0, 0]"
  "cookie_len sample_session = 4"
  "peer_cookie sample_session = [1, 2, 3, 4, 0, 0, 0, 0]"
  "peer_cookie_len sample_session = 4"
  "s_offset sample_session = 0"
  "l2specific_len sample_session = 4"
  "l2specific_type sample_session = 1"
  "hdr_len sample_session = 16"
  "nr sample_session = 0"
  "ns sample_session = 0"
  "reorder_q sample_session = []"
  "nr_max sample_session = 0xffffff"
  "nr_window_size sample_session = 0x7fffff"
  "nr_oos sample_session = 0"
  "nr_oos_count sample_session = 0"
  "nr_oos_count_max sample_session = 4"
  "s_ref_count sample_session = 1"
  "ifname sample_session = ''l2tpeth0''"
  "data_seq sample_session = 0"
  "recv_seq sample_session = 1"
  "send_seq sample_session = 1"
  "lns_mode sample_session = 1"
  "s_debug sample_session = 0"
  "reorder_timeout sample_session = 10"
  "reorder_skip sample_session = False"
  "s_mtu sample_session = 1488"
  "s_mru sample_session = 1488"
  "pwtype sample_session = 5"
  "s_stats sample_session = [zero_stats, zero_stats]"
  "build_header sample_session = L2tp_build_l2tpv3_header"
  "recv_skb sample_session = Some L2tp_eth_dev_recv"
  "session_close sample_session = Some L2tp_eth_delete"
  "s_ref sample_session = False"
  "s_deref sample_session = False"
  "priv sample_session = PrivEth (Some 1)"
  by (simp_all add: sample_session_def)

lemma sample_tunnel_simps [simp]:
  "t_magic sample_tunnel = 0x42114DDA"
  "session_hlist sample_tunnel = replicate 16 []"
  "tunnel_id sample_tunnel = 3"
  "peer_tunnel_id sample_tunnel = 4"
  "version sample_tunnel = 3"
  "t_debug sample_tunnel = 0"
  "encap sample_tunnel = 0"
  "t_stats sample_tunnel = [zero_stats, zero_stats]"
  "l2tp_net sample_tunnel = 0"
  "t_ref_count sample_tunnel = 1"
  "recv_payload_hook sample_tunnel = None"
  "old_sk_destruct sample_tunnel = Some Sock_destruct"
  "t_sock sample_tunnel = Some 1"
  "t_fd sample_tunnel = 5"
  "v4mapped sample_tunnel = False"
  by (simp_all add: sample_tunnel_def)

lemma sample_env_simps [simp]:
  "cpu sample_env = 0" "possible_cpus sample_env = 2" "jiffies sample_env = 1000" "HZ sample_env = 100"
  "hash_32 sample_env x n = unat x mod 2 ^ n" "kzalloc_ok sample_env a" "wf_env sample_env"
  "sockfd_lookup sample_env fd = (if fd = 5 then Some 1 else None)"
  by (simp_all add: sample_env_def wf_env_def)

lemma sample_world_simps [simp]:
  "socks sample_world p = (if p = 1 then Some sample_sock else None)"
  "devs sample_world p = (if p = 1 then Some sample_dev else None)"
  by (simp_all add: sample_world_def)

lemma sample_skb_simps [simp]:
  "skb_head (sample_skb bs) = replicate 64 0" "skb_data (sample_skb bs) = bs"
  "skb_headlen (sample_skb bs) = length bs" "wf_skb (sample_skb bs)"
  "skb_sk (sample_skb bs) = None" "cb_has_seq (skb_cb (sample_skb bs)) = False"
  by (simp_all add: sample_skb_def wf_skb_def)

end
