(* ===== verification/L2tp_Seq.thy ===== *)
theory L2tp_Seq
  imports Sample_State
begin

unbundle bit_operations_syntax

text \<open>
  The sequencing engine of \<^verbatim>\<open>l2tp_core.c\<close>: the receive window, the reorder queue, the
  recovery from a run of out-of-sequence packets, and the loop that hands packets in
  order to the pseudowire. A session's receive handler and its reference callbacks are
  called through \<open>pw_ops\<close>; the locale \<open>pw_contract\<close> states what the engine relies on
  of them and holds the engine's lemmas.

  \<open>rx\<close> is what one run of the engine touches: the session, its tunnel, the sockets and
  devices behind the pseudowire, and a ghost trace that records, in order, every packet
  handed to the receive handler (\<open>Recv_skb\<close>) and every packet freed (\<open>Kfree_skb\<close>).
\<close>

section \<open>State\<close>

datatype skb_event = Recv_skb (event_skb: sk_buff) | Kfree_skb (event_skb: sk_buff)
  | Xmit_skb (event_skb: sk_buff) | Passed_up (event_skb: sk_buff)

record rx =
  rx_tunnel :: l2tp_tunnel
  rx_session :: l2tp_session
  rx_world :: world
  rx_trace :: "skb_event list"

text \<open>
  The calls through \<^verbatim>\<open>session->recv_skb\<close>, \<^verbatim>\<open>session->ref\<close> and \<^verbatim>\<open>session->deref\<close>. A
  receive handler may change the statistics of its session and its own sockets and
  devices; no handler of the modules writes another field of the session.
\<close>

record pw_ops =
  op_recv :: "pw_recv \<Rightarrow> kenv \<Rightarrow> l2tp_session \<Rightarrow> sk_buff \<Rightarrow> int \<Rightarrow> world \<Rightarrow> (l2tp_stats list \<times> world) kres"
  op_ref :: "l2tp_session \<Rightarrow> world \<Rightarrow> world kres"
  op_deref :: "l2tp_session \<Rightarrow> world \<Rightarrow> world kres"

abbreviation skb_ns :: "sk_buff \<Rightarrow> u32" where
  "skb_ns skb \<equiv> cb_ns (skb_cb skb)"

abbreviation skb_has_seq :: "sk_buff \<Rightarrow> bool" where
  "skb_has_seq skb \<equiv> cb_has_seq (skb_cb skb)"

definition upd_s_stats :: "kenv \<Rightarrow> (l2tp_stats \<Rightarrow> l2tp_stats) \<Rightarrow> l2tp_session \<Rightarrow> l2tp_session" where
  "upd_s_stats E f s = s\<lparr>s_stats := upd_cpu (cpu E) f (s_stats s)\<rparr>"

definition upd_t_stats :: "kenv \<Rightarrow> (l2tp_stats \<Rightarrow> l2tp_stats) \<Rightarrow> l2tp_tunnel \<Rightarrow> l2tp_tunnel" where
  "upd_t_stats E f t = t\<lparr>t_stats := upd_cpu (cpu E) f (t_stats t)\<rparr>"

definition skb_orphan :: "sk_buff \<Rightarrow> sk_buff" where
  "skb_orphan skb = skb\<lparr>skb_sk := None\<rparr>"

section \<open>Queueing\<close>

text \<open>The walk over the reorder queue and \<^verbatim>\<open>__skb_queue_before\<close>.\<close>

fun queue_before :: "sk_buff \<Rightarrow> sk_buff list \<Rightarrow> sk_buff list option" where
  "queue_before skb [] = None"
| "queue_before skb (skbp # q) =
     (if skb_ns skbp > skb_ns skb then Some (skb # skbp # q)
      else map_option (Cons skbp) (queue_before skb q))"

definition l2tp_recv_queue_skb :: "kenv \<Rightarrow> l2tp_session \<Rightarrow> sk_buff \<Rightarrow> l2tp_session" where
  "l2tp_recv_queue_skb E s skb =
     (case queue_before skb (reorder_q s) of
        Some q \<Rightarrow> upd_s_stats E (\<lambda>st. st\<lparr>rx_oos_packets := rx_oos_packets st + 1\<rparr>) (s\<lparr>reorder_q := q\<rparr>)
      | None \<Rightarrow> s\<lparr>reorder_q := reorder_q s @ [skb]\<rparr>)"

definition l2tp_seq_check_rx_window :: "l2tp_session \<Rightarrow> u32 \<Rightarrow> bool" where
  "l2tp_seq_check_rx_window s n =
     (let nws = (if n \<ge> nr s then n - nr s else (nr_max s + 1) - (nr s - n))
      in nws < nr_window_size s)"

text \<open>\<^verbatim>\<open>l2tp_recv_data_seq\<close>: the result is true where the function returns 1 (discard).\<close>

definition l2tp_recv_data_seq :: "kenv \<Rightarrow> l2tp_session \<Rightarrow> sk_buff \<Rightarrow> bool \<times> l2tp_session" where
  "l2tp_recv_data_seq E s skb =
     (if \<not> l2tp_seq_check_rx_window s (skb_ns skb) then (True, s)
      else if reorder_timeout s \<noteq> 0 then (False, l2tp_recv_queue_skb E s skb)
      else if skb_ns skb = nr s then (False, s\<lparr>reorder_q := reorder_q s @ [skb]\<rparr>)
      else
        (let nr_next = (nr_oos s + 1) AND nr_max s;
             s1 = s\<lparr>nr_oos_count := (if skb_ns skb = nr_next then nr_oos_count s + 1 else 0),
                    nr_oos := skb_ns skb\<rparr>;
             s2 = (if nr_oos_count s1 > nr_oos_count_max s1 then s1\<lparr>reorder_skip := True\<rparr> else s1)
         in if \<not> reorder_skip s2
            then (True, upd_s_stats E (\<lambda>st. st\<lparr>rx_seq_discards := rx_seq_discards st + 1\<rparr>) s2)
            else (False, s2\<lparr>reorder_q := reorder_q s2 @ [skb]\<rparr>)))"

section \<open>Dequeueing\<close>

definition call_deref :: "pw_ops \<Rightarrow> l2tp_session \<Rightarrow> world \<Rightarrow> world kres" where
  "call_deref P s w = (if s_deref s then op_deref P s w else Inr w)"

definition call_ref :: "pw_ops \<Rightarrow> l2tp_session \<Rightarrow> world \<Rightarrow> world kres" where
  "call_ref P s w = (if s_ref s then op_ref P s w else Inr w)"

definition count_rx :: "int \<Rightarrow> l2tp_stats \<Rightarrow> l2tp_stats" where
  "count_rx len st = st\<lparr>rx_bytes := rx_bytes st + of_int len, rx_packets := rx_packets st + 1\<rparr>"

text \<open>The session's share of the accounting, and the step of \<open>nr\<close>.\<close>

definition count_and_bump :: "kenv \<Rightarrow> l2tp_session \<Rightarrow> sk_buff \<Rightarrow> l2tp_session" where
  "count_and_bump E s skb =
     (let s1 = upd_s_stats E (count_rx (uint (cb_length (skb_cb skb)))) s
      in if skb_has_seq skb then s1\<lparr>nr := (nr s1 + 1) AND nr_max s1\<rparr> else s1)"

definition l2tp_recv_dequeue_skb :: "pw_ops \<Rightarrow> kenv \<Rightarrow> rx \<Rightarrow> sk_buff \<Rightarrow> rx kres" where
  "l2tp_recv_dequeue_skb P E r skb0 =
     (let skb = skb_orphan skb0;
          len = uint (cb_length (skb_cb skb));
          t = upd_t_stats E (count_rx len) (rx_tunnel r);
          s = count_and_bump E (rx_session r) skb
      in bind_res
           (case recv_skb s of
              Some h \<Rightarrow> bind_res (op_recv P h E s skb len (rx_world r))
                (\<lambda>(st, w). Inr (s\<lparr>s_stats := st\<rparr>, w, Recv_skb skb))
            | None \<Rightarrow> Inr (s, rx_world r, Kfree_skb skb))
           (\<lambda>(s', w, ev). bind_res (call_deref P s' w)
             (\<lambda>w'. Inr \<lparr>rx_tunnel = t, rx_session = s', rx_world = w', rx_trace = rx_trace r @ [ev]\<rparr>)))"

lemma count_and_bump_frame [frame_simps]:
  "reorder_q (count_and_bump E s skb) = reorder_q s"
  "reorder_skip (count_and_bump E s skb) = reorder_skip s"
  "reorder_timeout (count_and_bump E s skb) = reorder_timeout s"
  "recv_skb (count_and_bump E s skb) = recv_skb s"
  "s_ref (count_and_bump E s skb) = s_ref s"
  "s_deref (count_and_bump E s skb) = s_deref s"
  "priv (count_and_bump E s skb) = priv s"
  "nr_max (count_and_bump E s skb) = nr_max s"
  "nr_window_size (count_and_bump E s skb) = nr_window_size s"
  "nr_oos (count_and_bump E s skb) = nr_oos s"
  "nr_oos_count (count_and_bump E s skb) = nr_oos_count s"
  "nr_oos_count_max (count_and_bump E s skb) = nr_oos_count_max s"
  "s_ref_count (count_and_bump E s skb) = s_ref_count s"
  by (simp_all add: count_and_bump_def upd_s_stats_def Let_def)

lemma count_and_bump_vals [frame_simps]:
  "s_stats (count_and_bump E s skb) = upd_cpu (cpu E) (count_rx (uint (cb_length (skb_cb skb)))) (s_stats s)"
  "nr (count_and_bump E s skb) = (if skb_has_seq skb then (nr s + 1) AND nr_max s else nr s)"
  by (simp_all add: count_and_bump_def upd_s_stats_def Let_def)

lemma skb_orphan_simps [simp]:
  "skb_cb (skb_orphan skb) = skb_cb skb"
  "skb_data (skb_orphan skb) = skb_data skb"
  "skb_headlen (skb_orphan skb) = skb_headlen skb"
  "skb_orphan (skb_orphan skb) = skb_orphan skb"
  by (simp_all add: skb_orphan_def)

lemma l2tp_recv_dequeue_skb_q:
  assumes "l2tp_recv_dequeue_skb P E r skb = Inr r'"
  shows "reorder_q (rx_session r') = reorder_q (rx_session r)"
  using assms
  by (auto simp: l2tp_recv_dequeue_skb_def Let_def bind_res_Inr_iff frame_simps split: option.splits)

text \<open>
  The loop of \<^verbatim>\<open>l2tp_recv_dequeue\<close>. Every iteration looks at the packet at the head of the
  queue: an expired packet is unlinked before the walk goes on, and any other packet is
  either unlinked or ends the loop.
\<close>

definition drop_expired :: "pw_ops \<Rightarrow> kenv \<Rightarrow> rx \<Rightarrow> sk_buff \<Rightarrow> sk_buff list \<Rightarrow> rx kres" where
  "drop_expired P E r skb q =
     (let s = (upd_s_stats E (\<lambda>st. st\<lparr>rx_seq_discards := rx_seq_discards st + 1,
                                     rx_errors := rx_errors st + 1\<rparr>) (rx_session r))
                \<lparr>reorder_skip := True, reorder_q := q\<rparr>
      in bind_res (call_deref P s (rx_world r))
           (\<lambda>w. Inr (r\<lparr>rx_session := s, rx_world := w, rx_trace := rx_trace r @ [Kfree_skb skb]\<rparr>)))"

lemma drop_expired_q:
  "drop_expired P E r skb q = Inr r' \<Longrightarrow> reorder_q (rx_session r') = q"
  by (auto simp: drop_expired_def Let_def bind_res_Inr_iff)

definition advance_nr :: "l2tp_session \<Rightarrow> sk_buff \<Rightarrow> l2tp_session" where
  "advance_nr s skb =
     (if skb_has_seq skb \<and> reorder_skip s then s\<lparr>reorder_skip := False, nr := skb_ns skb\<rparr> else s)"

function l2tp_recv_dequeue :: "pw_ops \<Rightarrow> kenv \<Rightarrow> rx \<Rightarrow> rx kres" where
  "l2tp_recv_dequeue P E r =
     (case reorder_q (rx_session r) of
        [] \<Rightarrow> Inr r
      | skb # q \<Rightarrow>
          if time_after (jiffies E) (cb_expires (skb_cb skb))
          then bind_res (drop_expired P E r skb q) (\<lambda>r'. l2tp_recv_dequeue P E r')
          else
            (let s = advance_nr (rx_session r) skb
             in if skb_has_seq skb \<and> skb_ns skb \<noteq> nr s
                then Inr (r\<lparr>rx_session := s\<rparr>)
                else bind_res (l2tp_recv_dequeue_skb P E (r\<lparr>rx_session := s\<lparr>reorder_q := q\<rparr>\<rparr>) skb)
                       (\<lambda>r'. l2tp_recv_dequeue P E r')))"
  by pat_completeness auto
termination
  by (relation "measure (\<lambda>(P, E, r). length (reorder_q (rx_session r)))")
     (auto simp: drop_expired_q dest!: l2tp_recv_dequeue_skb_q)

declare l2tp_recv_dequeue.simps [simp del]

text \<open>
  \<^verbatim>\<open>l2tp_session_queue_purge\<close>: every queued packet is counted as an error and freed, and
  gives back the reference taken for it.
\<close>

fun purge_loop :: "pw_ops \<Rightarrow> kenv \<Rightarrow> sk_buff list \<Rightarrow> l2tp_session \<Rightarrow> world \<Rightarrow> skb_event list
    \<Rightarrow> (l2tp_session \<times> world \<times> skb_event list) kres" where
  "purge_loop P E [] s w tr = Inr (s\<lparr>reorder_q := []\<rparr>, w, tr)"
| "purge_loop P E (skb # q) s w tr =
     (let s' = upd_s_stats E (\<lambda>st. st\<lparr>rx_errors := rx_errors st + 1\<rparr>) (s\<lparr>reorder_q := q\<rparr>)
      in bind_res (call_deref P s' w) (\<lambda>w'. purge_loop P E q s' w' (tr @ [Kfree_skb skb])))"

definition l2tp_session_queue_purge :: "pw_ops \<Rightarrow> kenv \<Rightarrow> l2tp_session \<Rightarrow> world \<Rightarrow> skb_event list
    \<Rightarrow> (l2tp_session \<times> world \<times> skb_event list) kres" where
  "l2tp_session_queue_purge P E s w tr =
     bind_res (require BugOn (s_magic s = L2TP_SESSION_MAGIC))
       (\<lambda>_. purge_loop P E (reorder_q s) s w tr)"

section \<open>Sequence number arithmetic\<close>

locale seq_mask =
  fixes M :: u32 and b :: nat
  assumes M_mask: "M = mask b" and b_pos: "0 < b" and b_lt: "b < 32"
begin

lemma unat_M: "unat M = 2 ^ b - 1"
proof -
  have "unat (take_bit b (- 1) :: u32) = mask b"
    using b_lt by (simp only: unsigned_take_bit_eq unsigned_minus_1_eq_mask take_bit_of_mask) (simp add: min_def)
  then have "unat (mask b :: u32) = mask b" by simp
  then show ?thesis by (simp add: M_mask mask_eq_exp_minus_1)
qed

lemma unat_M_Suc: "unat M + 1 = 2 ^ b"
  by (simp add: unat_M)

lemma pow_less: "(2::nat) ^ b < 2 ^ 32"
  by (rule power_strict_increasing [OF b_lt]) simp

lemma le_M_iff: "x \<le> M \<longleftrightarrow> unat x < 2 ^ b"
  using unat_M_Suc by (simp add: word_le_nat_alt) linarith

lemma unat_M_plus: "unat (M + 1) = 2 ^ b"
  using unat_M_Suc pow_less by (simp add: unat_word_ariths)

lemma unat_and: "unat (x AND M) = unat x mod 2 ^ b"
proof -
  have "x AND M = take_bit b x" by (simp add: M_mask take_bit_eq_mask)
  then show ?thesis by (simp only: unsigned_take_bit_eq) (simp only: take_bit_eq_mod)
qed

lemma and_le: "x AND M \<le> M"
  by (simp add: le_M_iff unat_and)

lemma and_id: "x \<le> M \<Longrightarrow> x AND M = x"
  by (rule word_unat_eq_iff [THEN iffD2]) (simp add: unat_and le_M_iff)

lemma add_and: "((x AND M) + y) AND M = (x + y) AND M"
proof (rule word_unat_eq_iff [THEN iffD2])
  have dvd: "(2::nat) ^ b dvd 2 ^ LENGTH(32)" using b_lt by (intro le_imp_power_dvd) simp
  have "unat (u + v) mod 2 ^ b = (unat u + unat v) mod 2 ^ b" for u v :: u32
    by (simp only: unat_word_ariths mod_mod_cancel [OF dvd])
  then show "unat (((x AND M) + y) AND M) = unat ((x + y) AND M)"
    by (simp only: unat_and mod_add_left_eq)
qed

lemma unat_plus_nat:
  assumes "k < 2 ^ b"
  shows "unat ((a + of_nat k) AND M) = (unat a + k) mod 2 ^ b"
proof -
  have dvd: "(2::nat) ^ b dvd 2 ^ LENGTH(32)" using b_lt by (intro le_imp_power_dvd) simp
  have "unat (of_nat k :: u32) = k" using assms pow_less by (simp add: unat_of_nat)
  then show ?thesis by (simp only: unat_and unat_word_ariths mod_mod_cancel [OF dvd])
qed

lemma unat_succ: "x \<le> M \<Longrightarrow> unat ((x + 1) AND M) = (unat x + 1) mod 2 ^ b"
  using pow_less by (simp add: unat_and le_M_iff unat_word_ariths)

lemma unat_distance:
  assumes "n \<le> M" and "k \<le> M"
  shows "unat (if n \<ge> k then n - k else (M + 1) - (k - n)) = (unat n + 2 ^ b - unat k) mod 2 ^ b"
proof -
  define N :: nat where "N = 2 ^ b"
  have n: "unat n < N" and k: "unat k < N" and M1: "unat (M + 1) = N"
    using assms unat_M_plus by (simp_all add: le_M_iff N_def)
  have "unat (if n \<ge> k then n - k else (M + 1) - (k - n)) = (unat n + N - unat k) mod N"
  proof (cases "k \<le> n")
    case True
    then have "unat k \<le> unat n" by (simp only: word_le_nat_alt)
    then have "(unat n + N - unat k) mod N = unat n - unat k" using n by (simp add: mod_if)
    then show ?thesis by (simp only: True if_True unat_sub [OF True])
  next
    case False
    then have "n \<le> k" using linear [of k n] by blast
    then have kn: "unat (k - n) = unat k - unat n" by (rule unat_sub)
    have le: "k - n \<le> M + 1"
      using k by (simp only: word_le_nat_alt kn M1)
    have "unat n < unat k" using False by (simp only: word_le_nat_alt)
    then have "(unat n + N - unat k) mod N = N - (unat k - unat n)" using k by simp
    then show ?thesis by (simp only: False if_False unat_sub [OF le] kn M1)
  qed
  then show ?thesis by (simp only: N_def)
qed

end

interpretation seq_v2: seq_mask "0xffff" 16
  by unfold_locales (simp_all add: mask_eq_exp_minus_1)

interpretation seq_v3: seq_mask "0xffffff" 24
  by unfold_locales (simp_all add: mask_eq_exp_minus_1)

definition seq_space :: "u32 \<Rightarrow> bool" where
  "seq_space M \<longleftrightarrow> M = 0xffff \<or> M = 0xffffff"

lemma seq_spaceE:
  assumes "seq_space M"
  obtains b where "seq_mask M b"
  using assms seq_v2.seq_mask_axioms seq_v3.seq_mask_axioms by (auto simp: seq_space_def)

definition seq_distance :: "u32 \<Rightarrow> u32 \<Rightarrow> u32 \<Rightarrow> nat" where
  "seq_distance M a x = (unat x + (unat M + 1) - unat a) mod (unat M + 1)"

lemma window_iff_distance:
  assumes "seq_space (nr_max s)" and "nr s \<le> nr_max s" and "n \<le> nr_max s"
  shows "l2tp_seq_check_rx_window s n \<longleftrightarrow>
           seq_distance (nr_max s) (nr s) n < unat (nr_window_size s)"
proof -
  from assms(1) obtain b where sm: "seq_mask (nr_max s) b" by (rule seq_spaceE)
  show ?thesis
    using seq_mask.unat_distance [OF sm assms(3,2)]
    by (simp add: l2tp_seq_check_rx_window_def word_less_nat_alt seq_distance_def
        seq_mask.unat_M_Suc [OF sm, simplified])
qed

lemma seq_distance_unique:
  assumes "seq_space M" and "a \<le> M" and "x \<le> M"
  shows "x = (a + of_nat (seq_distance M a x)) AND M"
proof -
  from assms(1) obtain b where sm: "seq_mask M b" by (rule seq_spaceE)
  define N :: nat where "N = 2 ^ b"
  have N: "unat M + 1 = N" using seq_mask.unat_M_Suc [OF sm] by (simp add: N_def)
  have a: "unat a < N" and x: "unat x < N"
    using assms(2,3) seq_mask.le_M_iff [OF sm] by (simp_all add: N_def)
  let ?d = "seq_distance M a x"
  have d: "?d = (unat x + N - unat a) mod N" by (simp add: seq_distance_def N [simplified])
  have "?d < 2 ^ b" using a by (simp add: d flip: N_def)
  then have "unat ((a + of_nat ?d) AND M) = (unat a + ?d) mod N"
    using seq_mask.unat_plus_nat [OF sm] by (simp only: N_def)
  also have "\<dots> = (unat a + (unat x + N - unat a)) mod N" by (simp add: d mod_add_right_eq)
  also have "\<dots> = unat x" using a x by simp
  finally show ?thesis by (simp only: word_unat_eq_iff)
qed

lemma seq_distance_add:
  assumes "seq_space M" and "a \<le> M" and "k \<le> unat M"
  shows "seq_distance M a ((a + of_nat k) AND M) = k"
proof -
  from assms(1) obtain b where sm: "seq_mask M b" by (rule seq_spaceE)
  define N :: nat where "N = 2 ^ b"
  have N: "unat M + 1 = N" using seq_mask.unat_M_Suc [OF sm] by (simp add: N_def)
  have a: "unat a < N" using assms(2) seq_mask.le_M_iff [OF sm] by (simp add: N_def)
  have k: "k < N" using assms(3) N by simp
  have "unat ((a + of_nat k) AND M) = (unat a + k) mod N"
    using seq_mask.unat_plus_nat [OF sm, of k] k by (simp only: N_def)
  then show ?thesis
    using a k by (cases "unat a + k < N") (auto simp: seq_distance_def N [simplified] mod_if)
qed

section \<open>The session invariant\<close>

text \<open>
  What a session's sequencing fields satisfy from \<^verbatim>\<open>l2tp_session_create\<close> on: the counters
  and the sequence numbers of queued packets lie in the sequence space.
\<close>

definition wf_seq :: "l2tp_session \<Rightarrow> bool" where
  "wf_seq s \<longleftrightarrow> seq_space (nr_max s) \<and> nr s \<le> nr_max s \<and> nr_oos s \<le> nr_max s \<and>
     nr_window_size s = nr_max s div 2 \<and> 0 \<le> nr_oos_count s \<and>
     (\<forall>skb \<in> set (reorder_q s). skb_has_seq skb \<longrightarrow> skb_ns skb \<le> nr_max s)"

lemma and_seq_le: "seq_space M \<Longrightarrow> x AND M \<le> M"
  by (simp add: word_and_le1)

lemma queue_before_Some:
  "queue_before skb q = Some q' \<Longrightarrow>
     \<exists>xs ys. q = xs @ ys \<and> q' = xs @ skb # ys \<and> ys \<noteq> [] \<and>
       (\<forall>x \<in> set xs. skb_ns x \<le> skb_ns skb) \<and> skb_ns skb < skb_ns (hd ys)"
proof (induction q arbitrary: q')
  case Nil
  then show ?case by simp
next
  case (Cons p q)
  show ?case
  proof (cases "skb_ns skb < skb_ns p")
    case True
    with Cons.prems show ?thesis by (intro exI [of _ "[]"] exI [of _ "p # q"]) auto
  next
    case False
    with Cons.prems obtain q1 where q1: "queue_before skb q = Some q1" "q' = p # q1" by auto
    then obtain xs ys where "q = xs @ ys" "q1 = xs @ skb # ys" "ys \<noteq> []"
      "\<forall>x \<in> set xs. skb_ns x \<le> skb_ns skb" "skb_ns skb < skb_ns (hd ys)"
      using Cons.IH by blast
    with False q1 show ?thesis by (intro exI [of _ "p # xs"] exI [of _ ys]) auto
  qed
qed

lemma queue_before_None: "queue_before skb q = None \<longleftrightarrow> (\<forall>x \<in> set q. skb_ns x \<le> skb_ns skb)"
  by (induction q) (auto simp: not_less)

text \<open>The queue after an insertion, whichever way the walk went.\<close>

lemma l2tp_recv_queue_skb_q:
  "\<exists>xs ys. reorder_q s = xs @ ys \<and> reorder_q (l2tp_recv_queue_skb E s skb) = xs @ skb # ys \<and>
     (\<forall>x \<in> set xs. skb_ns x \<le> skb_ns skb) \<and> (ys \<noteq> [] \<longrightarrow> skb_ns skb < skb_ns (hd ys))"
proof (cases "queue_before skb (reorder_q s)")
  case None
  then have "\<forall>x \<in> set (reorder_q s). skb_ns x \<le> skb_ns skb" by (simp only: queue_before_None)
  with None show ?thesis
    by (intro exI [of _ "reorder_q s"] exI [of _ "[]"]) (simp add: l2tp_recv_queue_skb_def)
next
  case (Some q)
  with queue_before_Some [OF Some] show ?thesis
    by (auto simp: l2tp_recv_queue_skb_def upd_s_stats_def)
qed

lemma l2tp_recv_queue_skb_frame [frame_simps]:
  "nr (l2tp_recv_queue_skb E s skb) = nr s"
  "nr_max (l2tp_recv_queue_skb E s skb) = nr_max s"
  "nr_oos (l2tp_recv_queue_skb E s skb) = nr_oos s"
  "nr_oos_count (l2tp_recv_queue_skb E s skb) = nr_oos_count s"
  "nr_oos_count_max (l2tp_recv_queue_skb E s skb) = nr_oos_count_max s"
  "nr_window_size (l2tp_recv_queue_skb E s skb) = nr_window_size s"
  "reorder_skip (l2tp_recv_queue_skb E s skb) = reorder_skip s"
  "reorder_timeout (l2tp_recv_queue_skb E s skb) = reorder_timeout s"
  "recv_skb (l2tp_recv_queue_skb E s skb) = recv_skb s"
  "s_ref (l2tp_recv_queue_skb E s skb) = s_ref s"
  "s_deref (l2tp_recv_queue_skb E s skb) = s_deref s"
  "priv (l2tp_recv_queue_skb E s skb) = priv s"
  by (simp_all add: l2tp_recv_queue_skb_def upd_s_stats_def split: option.split)

lemma l2tp_recv_queue_skb_mset:
  "mset (reorder_q (l2tp_recv_queue_skb E s skb)) = add_mset skb (mset (reorder_q s))"
  using l2tp_recv_queue_skb_q [of s E skb] by auto

lemma l2tp_recv_queue_skb_set:
  "set (reorder_q (l2tp_recv_queue_skb E s skb)) = insert skb (set (reorder_q s))"
  using arg_cong [OF l2tp_recv_queue_skb_mset [of E s skb], of set_mset] by simp

lemma l2tp_recv_queue_skb_sorted:
  assumes "sorted (map skb_ns (reorder_q s))"
  shows "sorted (map skb_ns (reorder_q (l2tp_recv_queue_skb E s skb)))"
proof -
  obtain xs ys where "reorder_q s = xs @ ys"
    and "reorder_q (l2tp_recv_queue_skb E s skb) = xs @ skb # ys"
    and "\<forall>x \<in> set xs. skb_ns x \<le> skb_ns skb" and "ys \<noteq> [] \<longrightarrow> skb_ns skb < skb_ns (hd ys)"
    using l2tp_recv_queue_skb_q [of s E skb] by blast
  with assms show ?thesis
    by (cases ys) (fastforce simp: sorted_append)+
qed

lemma wf_seq_queue_skb [wf_intros]:
  assumes "wf_seq s" and "skb_has_seq skb \<longrightarrow> skb_ns skb \<le> nr_max s"
  shows "wf_seq (l2tp_recv_queue_skb E s skb)"
  using assms l2tp_recv_queue_skb_set [of E s skb] by (auto simp: wf_seq_def frame_simps)

lemma wf_seq_data_seq [wf_intros]:
  assumes "wf_seq s" and "skb_ns skb \<le> nr_max s" and "l2tp_recv_data_seq E s skb = (d, s')"
  shows "wf_seq s'"
  using assms wf_seq_queue_skb [OF assms(1), of skb E]
  by (auto simp: l2tp_recv_data_seq_def wf_seq_def upd_s_stats_def Let_def split: if_splits)

section \<open>The pseudowire contract\<close>

definition only_rx_errors :: "l2tp_stats list \<Rightarrow> l2tp_stats list \<Rightarrow> bool" where
  "only_rx_errors xs ys \<longleftrightarrow>
     map (rx_errors_update (\<lambda>_. 0)) ys = map (rx_errors_update (\<lambda>_. 0)) xs"

lemma only_rx_errors_refl [simp]: "only_rx_errors xs xs"
  by (simp add: only_rx_errors_def)

lemma only_rx_errors_length: "only_rx_errors xs ys \<Longrightarrow> length ys = length xs"
  by (metis length_map only_rx_errors_def)

lemma only_rx_errors_sum:
  assumes "only_rx_errors xs ys" and "\<And>x. f (rx_errors_update (\<lambda>_. 0) x) = f x"
  shows "pcpu_sum f ys = pcpu_sum f xs"
proof -
  have "map f zs = map f (map (rx_errors_update (\<lambda>_. 0)) zs)" for zs
    using assms(2) by simp
  then show ?thesis using assms(1) by (metis only_rx_errors_def pcpu_sum_def)
qed

text \<open>
  What the engine relies on of a pseudowire: under a condition \<open>ok\<close> on the session's
  private data and the world behind it, the receive handler and the reference callbacks
  return, keep the condition, and change nothing of the session but the error counter.
\<close>

locale pw_contract =
  fixes P :: pw_ops and ok :: "l2tp_session \<Rightarrow> world \<Rightarrow> bool"
  assumes ok_frame: "ok s w \<Longrightarrow> priv s' = priv s \<Longrightarrow> recv_skb s' = recv_skb s \<Longrightarrow>
      s_ref s' = s_ref s \<Longrightarrow> s_deref s' = s_deref s \<Longrightarrow> ok s' w"
    and recv_returns: "ok s w \<Longrightarrow> recv_skb s = Some h \<Longrightarrow> wf_skb skb \<Longrightarrow>
      \<exists>st w'. op_recv P h E s skb n w = Inr (st, w') \<and> ok s w' \<and> only_rx_errors (s_stats s) st"
    and ref_returns: "ok s w \<Longrightarrow> s_ref s \<Longrightarrow> \<exists>w'. op_ref P s w = Inr w' \<and> ok s w'"
    and deref_returns: "ok s w \<Longrightarrow> s_deref s \<Longrightarrow> \<exists>w'. op_deref P s w = Inr w' \<and> ok s w'"
begin

lemma call_deref_returns: "ok s w \<Longrightarrow> \<exists>w'. call_deref P s w = Inr w' \<and> ok s w'"
  using deref_returns by (auto simp: call_deref_def)

lemma call_ref_returns: "ok s w \<Longrightarrow> \<exists>w'. call_ref P s w = Inr w' \<and> ok s w'"
  using ref_returns by (auto simp: call_ref_def)

end

text \<open>How one run of the engine changes a session, apart from its queue and counters.\<close>

definition same_setup :: "l2tp_session \<Rightarrow> l2tp_session \<Rightarrow> bool" where
  "same_setup s s' \<longleftrightarrow> priv s' = priv s \<and> recv_skb s' = recv_skb s \<and> s_ref s' = s_ref s \<and>
     s_deref s' = s_deref s \<and> nr_max s' = nr_max s \<and> nr_window_size s' = nr_window_size s \<and>
     nr_oos s' = nr_oos s \<and> nr_oos_count s' = nr_oos_count s \<and>
     nr_oos_count_max s' = nr_oos_count_max s \<and> reorder_timeout s' = reorder_timeout s \<and>
     s_ref_count s' = s_ref_count s \<and> length (s_stats s') = length (s_stats s)"

lemma same_setup_refl [simp]: "same_setup s s"
  by (simp add: same_setup_def)

lemma same_setup_trans: "same_setup a b \<Longrightarrow> same_setup b c \<Longrightarrow> same_setup a c"
  by (simp add: same_setup_def)

context pw_contract
begin

lemma dequeue_skb_returns:
  assumes "ok (rx_session r) (rx_world r)" and "wf_skb skb"
  obtains r' ev where "l2tp_recv_dequeue_skb P E r skb = Inr r'"
    and "ok (rx_session r') (rx_world r')"
    and "same_setup (rx_session r) (rx_session r')"
    and "reorder_q (rx_session r') = reorder_q (rx_session r)"
    and "reorder_skip (rx_session r') = reorder_skip (rx_session r)"
    and "nr (rx_session r') = (if skb_has_seq skb then (nr (rx_session r) + 1) AND nr_max (rx_session r)
                               else nr (rx_session r))"
    and "rx_trace r' = rx_trace r @ [ev]"
    and "ev = (if recv_skb (rx_session r) = None then Kfree_skb (skb_orphan skb) else Recv_skb (skb_orphan skb))"
    and "rx_tunnel r' = upd_t_stats E (count_rx (uint (cb_length (skb_cb skb)))) (rx_tunnel r)"
    and "only_rx_errors (upd_cpu (cpu E) (count_rx (uint (cb_length (skb_cb skb)))) (s_stats (rx_session r)))
           (s_stats (rx_session r'))"
proof -
  let ?skb = "skb_orphan skb"
  let ?len = "uint (cb_length (skb_cb ?skb))"
  let ?t = "upd_t_stats E (count_rx ?len) (rx_tunnel r)"
  let ?s = "count_and_bump E (rx_session r) ?skb"
  have ok_s: "ok ?s (rx_world r)"
    by (rule ok_frame [OF assms(1)]) (simp_all add: frame_simps)
  have wf: "wf_skb ?skb" using assms(2) by (simp add: wf_skb_def)
  note defs = l2tp_recv_dequeue_skb_def Let_def same_setup_def frame_simps
  show thesis
  proof (cases "recv_skb (rx_session r)")
    case None
    obtain w' where w': "call_deref P ?s (rx_world r) = Inr w'" "ok ?s w'"
      using call_deref_returns [OF ok_s] by blast
    have "l2tp_recv_dequeue_skb P E r skb = Inr \<lparr>rx_tunnel = ?t, rx_session = ?s,
            rx_world = w', rx_trace = rx_trace r @ [Kfree_skb ?skb]\<rparr>"
      using None w' by (simp add: defs)
    then show thesis
      by (rule that) (use None w' in \<open>simp_all add: same_setup_def frame_simps\<close>)
  next
    case (Some h)
    have "recv_skb ?s = Some h" using Some by (simp add: frame_simps)
    from recv_returns [OF ok_s this wf, of E ?len] obtain st w
      where st: "op_recv P h E ?s ?skb ?len (rx_world r) = Inr (st, w)"
        "ok ?s w" "only_rx_errors (s_stats ?s) st"
      by blast
    let ?s' = "?s\<lparr>s_stats := st\<rparr>"
    have "ok ?s' w" by (rule ok_frame [OF st(2)]) simp_all
    then obtain w' where w': "call_deref P ?s' w = Inr w'" "ok ?s' w'"
      using call_deref_returns by blast
    have "l2tp_recv_dequeue_skb P E r skb = Inr \<lparr>rx_tunnel = ?t, rx_session = ?s',
            rx_world = w', rx_trace = rx_trace r @ [Recv_skb ?skb]\<rparr>"
      using Some st w' by (simp add: defs)
    then show thesis
      by (rule that) (use Some w' st(3) only_rx_errors_length [OF st(3)]
         in \<open>simp_all add: same_setup_def frame_simps\<close>)
  qed
qed

lemma drop_expired_returns:
  assumes "ok (rx_session r) (rx_world r)"
  obtains r' where "drop_expired P E r skb q = Inr r'"
    and "ok (rx_session r') (rx_world r')"
    and "same_setup (rx_session r) (rx_session r')"
    and "reorder_q (rx_session r') = q" and "reorder_skip (rx_session r')"
    and "nr (rx_session r') = nr (rx_session r)"
    and "rx_trace r' = rx_trace r @ [Kfree_skb skb]"
    and "rx_tunnel r' = rx_tunnel r"
    and "s_stats (rx_session r') = upd_cpu (cpu E) (\<lambda>st. st\<lparr>rx_seq_discards := rx_seq_discards st + 1,
           rx_errors := rx_errors st + 1\<rparr>) (s_stats (rx_session r))"
proof -
  let ?s = "(upd_s_stats E (\<lambda>st. st\<lparr>rx_seq_discards := rx_seq_discards st + 1,
      rx_errors := rx_errors st + 1\<rparr>) (rx_session r))\<lparr>reorder_skip := True, reorder_q := q\<rparr>"
  have "ok ?s (rx_world r)"
    by (rule ok_frame [OF assms]) (simp_all add: upd_s_stats_def)
  then obtain w where w: "call_deref P ?s (rx_world r) = Inr w" "ok ?s w"
    using call_deref_returns by blast
  then have "drop_expired P E r skb q =
      Inr (r\<lparr>rx_session := ?s, rx_world := w, rx_trace := rx_trace r @ [Kfree_skb skb]\<rparr>)"
    by (simp add: drop_expired_def Let_def)
  then show thesis
    by (rule that) (use w in \<open>simp_all add: same_setup_def upd_s_stats_def\<close>)
qed

end

abbreviation expired :: "kenv \<Rightarrow> sk_buff \<Rightarrow> bool" where
  "expired E skb \<equiv> time_after (jiffies E) (cb_expires (skb_cb skb))"

text \<open>What the engine does with a packet it takes off the queue.\<close>

definition rx_event :: "kenv \<Rightarrow> l2tp_session \<Rightarrow> sk_buff \<Rightarrow> skb_event" where
  "rx_event E s skb =
     (if expired E skb then Kfree_skb skb
      else if recv_skb s = None then Kfree_skb (skb_orphan skb)
      else Recv_skb (skb_orphan skb))"

lemma rx_event_setup: "same_setup s s' \<Longrightarrow> rx_event E s' = rx_event E s"
  by (simp add: rx_event_def same_setup_def fun_eq_iff)

text \<open>The packet at the head of the queue has to wait for an earlier one.\<close>

definition blocked :: "kenv \<Rightarrow> l2tp_session \<Rightarrow> bool" where
  "blocked E s \<longleftrightarrow> (case reorder_q s of [] \<Rightarrow> True
     | skb # q \<Rightarrow> \<not> expired E skb \<and> skb_has_seq skb \<and> skb_ns skb \<noteq> nr s \<and> \<not> reorder_skip s)"

lemma advance_nr_frame [frame_simps]:
  "reorder_q (advance_nr s skb) = reorder_q s"
  "reorder_timeout (advance_nr s skb) = reorder_timeout s"
  "recv_skb (advance_nr s skb) = recv_skb s"
  "s_ref (advance_nr s skb) = s_ref s"
  "s_deref (advance_nr s skb) = s_deref s"
  "priv (advance_nr s skb) = priv s"
  "s_stats (advance_nr s skb) = s_stats s"
  "nr_max (advance_nr s skb) = nr_max s"
  "nr_window_size (advance_nr s skb) = nr_window_size s"
  "nr_oos (advance_nr s skb) = nr_oos s"
  "nr_oos_count (advance_nr s skb) = nr_oos_count s"
  "nr_oos_count_max (advance_nr s skb) = nr_oos_count_max s"
  "s_ref_count (advance_nr s skb) = s_ref_count s"
  by (simp_all add: advance_nr_def)

lemma same_setup_advance: "same_setup s (advance_nr s skb)"
  by (simp add: same_setup_def frame_simps)

lemma same_setup_q [simp]: "same_setup (s\<lparr>reorder_q := q\<rparr>) s' = same_setup s s'"
  by (simp add: same_setup_def)

context pw_contract
begin

text \<open>One iteration of the loop.\<close>

lemma dequeue_step:
  assumes "ok (rx_session r) (rx_world r)" and q: "reorder_q (rx_session r) = skb # q"
    and "wf_skb skb" and "expired E skb \<or> \<not> skb_has_seq skb \<or> skb_ns skb = nr (advance_nr (rx_session r) skb)"
  obtains r' where "l2tp_recv_dequeue P E r = l2tp_recv_dequeue P E r'"
    and "ok (rx_session r') (rx_world r')" and "same_setup (rx_session r) (rx_session r')"
    and "reorder_q (rx_session r') = q"
    and "rx_trace r' = rx_trace r @ [rx_event E (rx_session r) skb]"
    and "expired E skb \<longrightarrow> reorder_skip (rx_session r') \<and> nr (rx_session r') = nr (rx_session r)"
    and "\<not> expired E skb \<longrightarrow>
       reorder_skip (rx_session r') = (reorder_skip (rx_session r) \<and> \<not> skb_has_seq skb) \<and>
       nr (rx_session r') = (if skb_has_seq skb then (skb_ns skb + 1) AND nr_max (rx_session r)
                             else nr (rx_session r))"
    and "rx_tunnel r' = (if expired E skb then rx_tunnel r
       else upd_t_stats E (count_rx (uint (cb_length (skb_cb skb)))) (rx_tunnel r))"
    and "only_rx_errors (if expired E skb
         then upd_cpu (cpu E) (\<lambda>st. st\<lparr>rx_seq_discards := rx_seq_discards st + 1\<rparr>) (s_stats (rx_session r))
         else upd_cpu (cpu E) (count_rx (uint (cb_length (skb_cb skb)))) (s_stats (rx_session r)))
       (s_stats (rx_session r'))"
proof (cases "expired E skb")
  case True
  obtain r' where r': "drop_expired P E r skb q = Inr r'" "ok (rx_session r') (rx_world r')"
    "same_setup (rx_session r) (rx_session r')" "reorder_q (rx_session r') = q"
    "reorder_skip (rx_session r')" "nr (rx_session r') = nr (rx_session r)"
    "rx_trace r' = rx_trace r @ [Kfree_skb skb]" "rx_tunnel r' = rx_tunnel r"
    "s_stats (rx_session r') = upd_cpu (cpu E) (\<lambda>st. st\<lparr>rx_seq_discards := rx_seq_discards st + 1,
           rx_errors := rx_errors st + 1\<rparr>) (s_stats (rx_session r))"
    using drop_expired_returns [OF assms(1), of E skb q] by blast
  have "l2tp_recv_dequeue P E r = l2tp_recv_dequeue P E r'"
    using True r'(1) q by (simp add: l2tp_recv_dequeue.simps [of P E r])
  then show thesis
    by (rule that) (use True r' in \<open>simp_all add: rx_event_def only_rx_errors_def upd_cpu_def map_update\<close>)
next
  case False
  let ?s = "(advance_nr (rx_session r) skb)\<lparr>reorder_q := q\<rparr>"
  let ?r = "r\<lparr>rx_session := ?s\<rparr>"
  have ok_r: "ok (rx_session ?r) (rx_world ?r)"
    using ok_frame [OF assms(1), of ?s] by (simp add: frame_simps)
  obtain r' ev where r': "l2tp_recv_dequeue_skb P E ?r skb = Inr r'"
    "ok (rx_session r') (rx_world r')" "same_setup (rx_session ?r) (rx_session r')"
    "reorder_q (rx_session r') = reorder_q (rx_session ?r)"
    "reorder_skip (rx_session r') = reorder_skip (rx_session ?r)"
    "nr (rx_session r') = (if skb_has_seq skb then (nr (rx_session ?r) + 1) AND nr_max (rx_session ?r)
       else nr (rx_session ?r))"
    "rx_trace r' = rx_trace ?r @ [ev]"
    "ev = (if recv_skb (rx_session ?r) = None then Kfree_skb (skb_orphan skb) else Recv_skb (skb_orphan skb))"
    "rx_tunnel r' = upd_t_stats E (count_rx (uint (cb_length (skb_cb skb)))) (rx_tunnel ?r)"
    "only_rx_errors (upd_cpu (cpu E) (count_rx (uint (cb_length (skb_cb skb)))) (s_stats (rx_session ?r)))
       (s_stats (rx_session r'))"
    by (rule dequeue_skb_returns [OF ok_r assms(3), of E])
  have same: "same_setup (rx_session r) (rx_session r')"
    using same_setup_trans [OF same_setup_advance] r'(3) by simp
  have "l2tp_recv_dequeue P E r = l2tp_recv_dequeue P E r'"
    using False assms(4) r'(1) q by (auto simp: l2tp_recv_dequeue.simps [of P E r] Let_def)
  then show thesis
    by (rule that) (use same False assms(4) r' in \<open>auto simp: rx_event_def frame_simps advance_nr_def split: if_splits\<close>)
qed

lemma dequeue_stop:
  assumes "reorder_q (rx_session r) = skb # q" and "\<not> expired E skb" and "skb_has_seq skb"
    and "skb_ns skb \<noteq> nr (advance_nr (rx_session r) skb)"
  shows "l2tp_recv_dequeue P E r = Inr r" and "blocked E (rx_session r)"
proof -
  have "advance_nr (rx_session r) skb = rx_session r" and "\<not> reorder_skip (rx_session r)"
    using assms(3,4) by (auto simp: advance_nr_def split: if_splits)
  then show "l2tp_recv_dequeue P E r = Inr r" and "blocked E (rx_session r)"
    using assms by (simp_all add: l2tp_recv_dequeue.simps [of P E r] blocked_def)
qed

text \<open>
  The run of the loop: it returns, having taken a prefix off the queue in order, and
  leaves a queue that is empty or blocked.
\<close>

lemma dequeue_returns:
  assumes "ok (rx_session r) (rx_world r)" and "\<forall>skb \<in> set (reorder_q (rx_session r)). wf_skb skb"
  shows "\<exists>r' k. l2tp_recv_dequeue P E r = Inr r' \<and> ok (rx_session r') (rx_world r') \<and>
     same_setup (rx_session r) (rx_session r') \<and> k \<le> length (reorder_q (rx_session r)) \<and>
     reorder_q (rx_session r') = drop k (reorder_q (rx_session r)) \<and>
     rx_trace r' = rx_trace r @ map (rx_event E (rx_session r)) (take k (reorder_q (rx_session r))) \<and>
     blocked E (rx_session r')"
  using assms
proof (induction "reorder_q (rx_session r)" arbitrary: r)
  case Nil
  then show ?case
    by (intro exI [of _ r] exI [of _ 0]) (simp add: l2tp_recv_dequeue.simps [of P E r] blocked_def)
next
  case (Cons skb q)
  have q: "reorder_q (rx_session r) = skb # q" using Cons.hyps(2) by simp
  show ?case
  proof (cases "expired E skb \<or> \<not> skb_has_seq skb \<or> skb_ns skb = nr (advance_nr (rx_session r) skb)")
    case False
    then show ?thesis using dequeue_stop [OF q] Cons.prems(1)
      by (intro exI [of _ r] exI [of _ 0]) simp
  next
    case True
    have "wf_skb skb" using Cons.prems(2) q by simp
    from dequeue_step [OF Cons.prems(1) q this True] obtain r1
      where r1: "l2tp_recv_dequeue P E r = l2tp_recv_dequeue P E r1"
        "ok (rx_session r1) (rx_world r1)" "same_setup (rx_session r) (rx_session r1)"
        "reorder_q (rx_session r1) = q" "rx_trace r1 = rx_trace r @ [rx_event E (rx_session r) skb]"
      by blast
    then obtain r' k where "l2tp_recv_dequeue P E r1 = Inr r'" "ok (rx_session r') (rx_world r')"
      "same_setup (rx_session r1) (rx_session r')" "k \<le> length q"
      "reorder_q (rx_session r') = drop k q"
      "rx_trace r' = rx_trace r1 @ map (rx_event E (rx_session r1)) (take k q)" "blocked E (rx_session r')"
      using Cons.hyps(1) [of r1] Cons.prems(2) q by auto
    with r1 q show ?thesis
      by (intro exI [of _ r'] exI [of _ "Suc k"])
         (auto simp: rx_event_setup [OF r1(3)] intro: same_setup_trans)
  qed
qed

end

text \<open>
  The reference behaviour on a queue of sequenced packets: deliver the longest prefix
  whose numbers continue from \<open>n\<close>.
\<close>

fun in_sequence :: "u32 \<Rightarrow> u32 \<Rightarrow> sk_buff list \<Rightarrow> sk_buff list" where
  "in_sequence M n [] = []"
| "in_sequence M n (skb # q) =
     (if skb_ns skb = n then skb # in_sequence M ((n + 1) AND M) q else [])"

context pw_contract
begin

lemma dequeue_in_sequence:
  assumes "ok (rx_session r) (rx_world r)"
    and "\<forall>skb \<in> set (reorder_q (rx_session r)). wf_skb skb \<and> skb_has_seq skb \<and> \<not> expired E skb"
    and "\<not> reorder_skip (rx_session r)"
    and "seq_space (nr_max (rx_session r))" "nr (rx_session r) \<le> nr_max (rx_session r)"
    and "recv_skb (rx_session r) \<noteq> None"
    and d: "d = in_sequence (nr_max (rx_session r)) (nr (rx_session r)) (reorder_q (rx_session r))"
  shows "\<exists>r'. l2tp_recv_dequeue P E r = Inr r' \<and> ok (rx_session r') (rx_world r') \<and>
     same_setup (rx_session r) (rx_session r') \<and> \<not> reorder_skip (rx_session r') \<and>
     rx_trace r' = rx_trace r @ map (Recv_skb \<circ> skb_orphan) d \<and>
     reorder_q (rx_session r') = drop (length d) (reorder_q (rx_session r)) \<and>
     nr (rx_session r') = (nr (rx_session r) + of_nat (length d)) AND nr_max (rx_session r)"
  using assms
proof (induction "reorder_q (rx_session r)" arbitrary: r d)
  case Nil
  obtain b where "seq_mask (nr_max (rx_session r)) b" using Nil.prems(4) by (rule seq_spaceE)
  then have "nr (rx_session r) AND nr_max (rx_session r) = nr (rx_session r)"
    using Nil.prems(5) by (rule seq_mask.and_id)
  with Nil show ?case
    by (intro exI [of _ r]) (simp add: l2tp_recv_dequeue.simps [of P E r])
next
  case (Cons skb q)
  have q: "reorder_q (rx_session r) = skb # q" using Cons.hyps(2) by simp
  have adv: "advance_nr (rx_session r) skb = rx_session r"
    using Cons.prems(3) by (simp add: advance_nr_def)
  have skb: "wf_skb skb" "skb_has_seq skb" "\<not> expired E skb" using Cons.prems(2) q by simp_all
  obtain b where sm: "seq_mask (nr_max (rx_session r)) b" using Cons.prems(4) by (rule seq_spaceE)
  show ?case
  proof (cases "skb_ns skb = nr (rx_session r)")
    case False
    then have "l2tp_recv_dequeue P E r = Inr r"
      using dequeue_stop [OF q] skb adv by simp
    with False Cons.prems q show ?thesis
      by (intro exI [of _ r]) (simp add: seq_mask.and_id [OF sm])
  next
    case True
    then have c: "expired E skb \<or> \<not> skb_has_seq skb \<or> skb_ns skb = nr (advance_nr (rx_session r) skb)"
      by (simp add: adv)
    obtain r1 where r1: "l2tp_recv_dequeue P E r = l2tp_recv_dequeue P E r1"
        "ok (rx_session r1) (rx_world r1)" "same_setup (rx_session r) (rx_session r1)"
        "reorder_q (rx_session r1) = q" "rx_trace r1 = rx_trace r @ [rx_event E (rx_session r) skb]"
      and step: "\<not> expired E skb \<longrightarrow>
       reorder_skip (rx_session r1) = (reorder_skip (rx_session r) \<and> \<not> skb_has_seq skb) \<and>
       nr (rx_session r1) = (if skb_has_seq skb then (skb_ns skb + 1) AND nr_max (rx_session r)
                             else nr (rx_session r))"
      using dequeue_step [OF Cons.prems(1) q skb(1) c] by blast
    from step have r1': "\<not> reorder_skip (rx_session r1)"
        "nr (rx_session r1) = (nr (rx_session r) + 1) AND nr_max (rx_session r)"
      using skb True Cons.prems(3) by simp_all
    have same: "nr_max (rx_session r1) = nr_max (rx_session r)" "recv_skb (rx_session r1) = recv_skb (rx_session r)"
      using r1(3) by (simp_all add: same_setup_def)
    let ?d = "in_sequence (nr_max (rx_session r1)) (nr (rx_session r1)) q"
    have "\<exists>r'. l2tp_recv_dequeue P E r1 = Inr r' \<and> ok (rx_session r') (rx_world r') \<and>
       same_setup (rx_session r1) (rx_session r') \<and> \<not> reorder_skip (rx_session r') \<and>
       rx_trace r' = rx_trace r1 @ map (Recv_skb \<circ> skb_orphan) ?d \<and>
       reorder_q (rx_session r') = drop (length ?d) (reorder_q (rx_session r1)) \<and>
       nr (rx_session r') = (nr (rx_session r1) + of_nat (length ?d)) AND nr_max (rx_session r1)"
      using Cons.prems r1 r1' same q and_seq_le
      by (intro Cons.hyps(1)) simp_all
    moreover have "d = skb # ?d" using Cons.prems(7) q True r1'(2) same by simp
    moreover have "rx_event E (rx_session r) skb = Recv_skb (skb_orphan skb)"
      using skb Cons.prems(6) by (simp add: rx_event_def)
    ultimately show ?thesis
      using r1 r1' q same seq_mask.add_and [OF sm]
      by (auto intro: same_setup_trans simp: add.assoc)
  qed
qed

end

lemma wf_seq_drop:
  assumes "wf_seq s" and "same_setup s s'" and "set (reorder_q s') \<subseteq> set (reorder_q s)" and "nr s' \<le> nr_max s"
  shows "wf_seq s'"
  using assms by (auto simp: wf_seq_def same_setup_def)

context pw_contract
begin

lemma dequeue_step_nr:
  assumes "ok (rx_session r) (rx_world r)" and "reorder_q (rx_session r) = skb # q"
    and "wf_skb skb" and "expired E skb \<or> \<not> skb_has_seq skb \<or> skb_ns skb = nr (advance_nr (rx_session r) skb)"
  obtains r' where "l2tp_recv_dequeue P E r = l2tp_recv_dequeue P E r'"
    and "ok (rx_session r') (rx_world r')" and "same_setup (rx_session r) (rx_session r')"
    and "reorder_q (rx_session r') = q"
    and "nr (rx_session r') = (if \<not> expired E skb \<and> skb_has_seq skb
           then (skb_ns skb + 1) AND nr_max (rx_session r) else nr (rx_session r))"
proof (rule dequeue_step [OF assms], goal_cases)
  case (1 r')
  show thesis
    by (rule that [OF 1(2-5)]) (use 1(7,8) in \<open>cases "expired E skb"; simp\<close>)
qed

lemma dequeue_wf_seq:
  assumes "ok (rx_session r) (rx_world r)" and "\<forall>skb \<in> set (reorder_q (rx_session r)). wf_skb skb"
    and "wf_seq (rx_session r)" and "l2tp_recv_dequeue P E r = Inr r'"
  shows "wf_seq (rx_session r')"
  using assms
proof (induction "reorder_q (rx_session r)" arbitrary: r)
  case Nil
  have "l2tp_recv_dequeue P E r = Inr r"
    using Nil.hyps by (simp add: l2tp_recv_dequeue.simps [of P E r] split: list.split)
  with Nil.prems(3,4) show ?case by simp
next
  case (Cons skb q)
  have q: "reorder_q (rx_session r) = skb # q" using Cons.hyps(2) by simp
  show ?case
  proof (cases "expired E skb \<or> \<not> skb_has_seq skb \<or> skb_ns skb = nr (advance_nr (rx_session r) skb)")
    case False
    then show ?thesis using dequeue_stop [OF q] Cons.prems(3,4) by simp
  next
    case True
    have "wf_skb skb" using Cons.prems(2) q by simp
    then obtain r1 where r1: "l2tp_recv_dequeue P E r = l2tp_recv_dequeue P E r1"
        "ok (rx_session r1) (rx_world r1)" "same_setup (rx_session r) (rx_session r1)"
        "reorder_q (rx_session r1) = q"
        and nr: "nr (rx_session r1) = (if \<not> expired E skb \<and> skb_has_seq skb
           then (skb_ns skb + 1) AND nr_max (rx_session r) else nr (rx_session r))"
      by (rule dequeue_step_nr [OF Cons.prems(1) q _ True])
    have le: "nr (rx_session r1) \<le> nr_max (rx_session r)"
      using nr Cons.prems(3) by (auto simp: wf_seq_def word_and_le1)
    have sub: "set (reorder_q (rx_session r1)) \<subseteq> set (reorder_q (rx_session r))"
      unfolding q r1(4) by auto
    have "wf_seq (rx_session r1)" by (rule wf_seq_drop [OF Cons.prems(3) r1(3) sub le])
    moreover have "\<forall>x \<in> set (reorder_q (rx_session r1)). wf_skb x" using Cons.prems(2) q r1(4) by simp
    moreover have "l2tp_recv_dequeue P E r1 = Inr r'" using Cons.prems(4) r1(1) by simp
    ultimately show ?thesis using Cons.hyps(1) r1(2,4) by blast
  qed
qed

end

context pw_contract
begin

text \<open>A queue that holds one packet which may go.\<close>

lemma dequeue_single:
  assumes "ok (rx_session r) (rx_world r)" and q: "reorder_q (rx_session r) = [x]" and "wf_skb x"
    and fresh: "\<not> expired E x" and rcv: "recv_skb (rx_session r) \<noteq> None"
    and seq: "skb_has_seq x \<longrightarrow> skb_ns x = nr (rx_session r) \<or> reorder_skip (rx_session r)"
  obtains r' where "l2tp_recv_dequeue P E r = Inr r'" and "ok (rx_session r') (rx_world r')"
    and "same_setup (rx_session r) (rx_session r')"
    and "rx_trace r' = rx_trace r @ [Recv_skb (skb_orphan x)]" and "reorder_q (rx_session r') = []"
    and "reorder_skip (rx_session r') = (reorder_skip (rx_session r) \<and> \<not> skb_has_seq x)"
    and "nr (rx_session r') = (if skb_has_seq x then (skb_ns x + 1) AND nr_max (rx_session r) else nr (rx_session r))"
proof -
  have c: "expired E x \<or> \<not> skb_has_seq x \<or> skb_ns x = nr (advance_nr (rx_session r) x)"
    using seq by (auto simp: advance_nr_def)
  show thesis
  proof (rule dequeue_step [OF assms(1) q assms(3) c], goal_cases)
    case (1 r')
    have "l2tp_recv_dequeue P E r' = Inr r'" using 1(4) by (simp add: l2tp_recv_dequeue.simps [of P E r'])
    moreover have "rx_event E (rx_session r) x = Recv_skb (skb_orphan x)"
      using fresh rcv by (simp add: rx_event_def)
    ultimately show ?case using 1(1-5,7) fresh by (intro that [of r']) simp_all
  qed
qed

end

section \<open>Property\<close>

text \<open>
  C7: the receive window is the window of sequence numbers. For a session whose counters lie
  in the sequence space (16 bits for version 2, 24 bits for version 3), the check accepts
  exactly the \<open>nr_window_size\<close> numbers from \<open>nr\<close> on, counted with wrap-around.
\<close>

theorem rx_window_correct:
  assumes "wf_seq s" and "n \<le> nr_max s"
  shows "l2tp_seq_check_rx_window s n \<longleftrightarrow>
    (\<exists>k < unat (nr_window_size s). n = (nr s + of_nat k) AND nr_max s)"
proof
  assume "l2tp_seq_check_rx_window s n"
  then show "\<exists>k < unat (nr_window_size s). n = (nr s + of_nat k) AND nr_max s"
    using assms window_iff_distance [of s n] seq_distance_unique [of "nr_max s" "nr s" n]
    unfolding wf_seq_def by blast
next
  assume "\<exists>k < unat (nr_window_size s). n = (nr s + of_nat k) AND nr_max s"
  then obtain k where k: "k < unat (nr_window_size s)" "n = (nr s + of_nat k) AND nr_max s" by blast
  have "unat (nr_window_size s) \<le> unat (nr_max s)"
    using assms(1) by (simp add: wf_seq_def unat_div)
  with k assms show "l2tp_seq_check_rx_window s n"
    using window_iff_distance [of s n] seq_distance_add [of "nr_max s" "nr s" k]
    by (simp add: wf_seq_def)
qed

theorem rx_window_correct_witness:
  "\<not> l2tp_seq_check_rx_window (sample_session\<lparr>nr := 0xfffffe\<rparr>) 0xfffffd \<and>
   (l2tp_seq_check_rx_window (sample_session\<lparr>nr := 0xfffffe\<rparr>) 1 \<longleftrightarrow>
    (\<exists>k < 0x7fffff. 1 = (0xfffffe + of_nat k) AND (0xffffff :: u32)))"
  using rx_window_correct [of "sample_session\<lparr>nr := 0xfffffe\<rparr>" 1]
  by (simp add: wf_seq_def seq_space_def l2tp_seq_check_rx_window_def)

end
