(* ===== verification/L2tp_Pw.thy ===== *)
theory L2tp_Pw
  imports L2tp_Seq
begin

unbundle bit_operations_syntax

text \<open>
  The receive sides of the two pseudowires, as the core calls them: the Ethernet
  pseudowire of \<^verbatim>\<open>l2tp_eth.c\<close> hands a frame to the network device behind the session,
  the PPP pseudowire of \<^verbatim>\<open>l2tp_ppp.c\<close> to the PPP channel or to the session's socket.
  \<open>pw\<close> collects them for the sequencing engine and the interpretation \<open>pwc\<close> shows that
  they keep its contract.
\<close>

abbreviation (input) ETH_HLEN :: nat where "ETH_HLEN \<equiv> 14"
abbreviation (input) PPPOX_BOUND :: nat where "PPPOX_BOUND \<equiv> 2"

section \<open>Ethernet\<close>

definition upd_dstats :: "kenv \<Rightarrow> ptr \<Rightarrow> (l2tp_pcpu_stats \<Rightarrow> l2tp_pcpu_stats) \<Rightarrow> world \<Rightarrow> world" where
  "upd_dstats E d f w =
     w\<lparr>devs := (devs w)(d := map_option (\<lambda>dev. dev\<lparr>dstats := upd_cpu (cpu E) f (dstats dev)\<rparr>) (devs w d))\<rparr>"

definition eth_dev_of :: "l2tp_session \<Rightarrow> ptr option" where
  "eth_dev_of s = (case priv s of PrivEth d \<Rightarrow> d | _ \<Rightarrow> None)"

text \<open>The counters of a frame the device took, and of one it or the handler dropped.\<close>

definition eth_rx_ok :: "int \<Rightarrow> l2tp_pcpu_stats \<Rightarrow> l2tp_pcpu_stats" where
  "eth_rx_ok n st = st\<lparr>d_rx_bytes := d_rx_bytes st + of_int n, d_rx_packets := d_rx_packets st + 1\<rparr>"

definition eth_rx_error :: "l2tp_pcpu_stats \<Rightarrow> l2tp_pcpu_stats" where
  "eth_rx_error st = st\<lparr>d_rx_errors := d_rx_errors st + 1\<rparr>"

definition l2tp_eth_dev_recv :: "kenv \<Rightarrow> l2tp_session \<Rightarrow> sk_buff \<Rightarrow> int \<Rightarrow> world
    \<Rightarrow> (l2tp_stats list \<times> world) kres" where
  "l2tp_eth_dev_recv E s skb data_len w =
     bind_res (deref_ptr (devs w) (eth_dev_of s)) (\<lambda>(d, dev).
       let (traced, skb1) = (if s_debug s AND L2TP_MSG_DATA \<noteq> 0
                             then pskb_may_pull E skb (min 32 (skb_len skb)) else (True, skb));
           (pulled, skb2) = pskb_may_pull E skb1 ETH_HLEN
       in Inr (s_stats s,
            if \<not> traced \<or> \<not> pulled then upd_dstats E d eth_rx_error w
            else if dev_forward_skb E d (skb2\<lparr>ip_summed := CHECKSUM_NONE, skb_dst := None\<rparr>)
            then upd_dstats E d (eth_rx_ok data_len) w
            else upd_dstats E d eth_rx_error w))"

section \<open>PPP\<close>

definition ppp_sock_of :: "l2tp_session \<Rightarrow> ptr option" where
  "ppp_sock_of s = (case priv s of PrivPpp ps \<Rightarrow> ps_sock ps | _ \<Rightarrow> None)"

definition pppol2tp_recv :: "kenv \<Rightarrow> l2tp_session \<Rightarrow> sk_buff \<Rightarrow> int \<Rightarrow> world
    \<Rightarrow> (l2tp_stats list \<times> world) kres" where
  "pppol2tp_recv E s skb data_len w =
     (case ppp_sock_of s of
        None \<Rightarrow> Inr (s_stats s, w)
      | Some p \<Rightarrow> bind_res (deref_ptr (socks w) (Some p)) (\<lambda>(a, sk).
          if sk_state sk AND PPPOX_BOUND \<noteq> 0 then Inr (s_stats s, w)
          else if sock_queue_rcv_skb E a skb < 0
          then Inr (upd_cpu (cpu E) (\<lambda>st. st\<lparr>rx_errors := rx_errors st + 1\<rparr>) (s_stats s), w)
          else Inr (s_stats s, upd_sock a (\<lambda>x. x\<lparr>sk_receive_queue := sk_receive_queue x @ [skb]\<rparr>) w)))"

definition pppol2tp_session_sock_hold :: "l2tp_session \<Rightarrow> world \<Rightarrow> world kres" where
  "pppol2tp_session_sock_hold s w = (if ppp_sock_of s \<noteq> None then sock_hold (ppp_sock_of s) w else Inr w)"

definition pppol2tp_session_sock_put :: "l2tp_session \<Rightarrow> world \<Rightarrow> world kres" where
  "pppol2tp_session_sock_put s w = (if ppp_sock_of s \<noteq> None then sock_put (ppp_sock_of s) w else Inr w)"

section \<open>The calls through the session's function pointers\<close>

fun call_recv_skb :: "pw_recv \<Rightarrow> kenv \<Rightarrow> l2tp_session \<Rightarrow> sk_buff \<Rightarrow> int \<Rightarrow> world
    \<Rightarrow> (l2tp_stats list \<times> world) kres" where
  "call_recv_skb L2tp_eth_dev_recv = l2tp_eth_dev_recv"
| "call_recv_skb Pppol2tp_recv = pppol2tp_recv"

definition pw :: pw_ops where
  "pw = \<lparr>op_recv = call_recv_skb, op_ref = pppol2tp_session_sock_hold, op_deref = pppol2tp_session_sock_put\<rparr>"

text \<open>
  The condition under which the callbacks of a session are safe to call: an Ethernet
  session has its device, a PPP session's socket is alive.
\<close>

definition sock_alive :: "world \<Rightarrow> ptr option \<Rightarrow> bool" where
  "sock_alive w p = (case p of None \<Rightarrow> True | Some a \<Rightarrow> socks w a \<noteq> None)"

definition dev_alive :: "world \<Rightarrow> ptr option \<Rightarrow> bool" where
  "dev_alive w d = (case d of None \<Rightarrow> False | Some a \<Rightarrow> devs w a \<noteq> None)"

definition pw_ok :: "l2tp_session \<Rightarrow> world \<Rightarrow> bool" where
  "pw_ok s w \<longleftrightarrow> sock_alive w (ppp_sock_of s) \<and>
     (recv_skb s = Some L2tp_eth_dev_recv \<longrightarrow> dev_alive w (eth_dev_of s))"

lemma sock_alive_upd [simp]: "sock_alive (upd_sock a f w) p = sock_alive w p"
  by (auto simp: sock_alive_def upd_sock_def split: option.splits)

lemma dev_alive_upd [simp]: "dev_alive (upd_sock a f w) d = dev_alive w d"
  by (auto simp: dev_alive_def upd_sock_def split: option.splits)

lemma sock_alive_dstats [simp]: "sock_alive (upd_dstats E d f w) p = sock_alive w p"
  by (auto simp: sock_alive_def upd_dstats_def split: option.splits)

lemma dev_alive_dstats [simp]: "dev_alive (upd_dstats E d f w) p = dev_alive w p"
  by (auto simp: dev_alive_def upd_dstats_def split: option.splits)

lemma only_rx_errors_upd:
  "only_rx_errors xs (upd_cpu c (\<lambda>st. st\<lparr>rx_errors := f st\<rparr>) xs)"
  by (cases "c < length xs")
     (simp_all add: only_rx_errors_def upd_cpu_def map_update list_update_same_conv list_update_beyond)

lemma l2tp_eth_dev_recv_returns:
  assumes "dev_alive w (eth_dev_of s)"
  obtains d f where "eth_dev_of s = Some d"
    and "l2tp_eth_dev_recv E s skb n w = Inr (s_stats s, upd_dstats E d f w)"
proof -
  from assms obtain d dev where d: "eth_dev_of s = Some d" "devs w d = Some dev"
    by (auto simp: dev_alive_def split: option.splits)
  then have "\<exists>f. l2tp_eth_dev_recv E s skb n w = Inr (s_stats s, upd_dstats E d f w)"
    by (auto simp: l2tp_eth_dev_recv_def split: prod.split)
  with d that show thesis by blast
qed

lemma pppol2tp_recv_returns:
  assumes "sock_alive w (ppp_sock_of s)"
  shows "\<exists>st w'. pppol2tp_recv E s skb n w = Inr (st, w') \<and> only_rx_errors (s_stats s) st \<and>
    (\<forall>p. sock_alive w' p = sock_alive w p \<and> dev_alive w' p = dev_alive w p)"
  using assms only_rx_errors_upd [of "s_stats s" "cpu E"]
  by (auto simp: pppol2tp_recv_def sock_alive_def [of w "ppp_sock_of s"] split: option.splits)

interpretation pwc: pw_contract pw pw_ok
proof
  show "pw_ok s' w" if "pw_ok s w" "priv s' = priv s" "recv_skb s' = recv_skb s" for s s' w
    using that by (simp add: pw_ok_def ppp_sock_of_def eth_dev_of_def)
next
  fix s w h skb E n
  assume ok: "pw_ok s w" and h: "recv_skb s = Some h"
  show "\<exists>st w'. op_recv pw h E s skb n w = Inr (st, w') \<and> pw_ok s w' \<and> only_rx_errors (s_stats s) st"
  proof (cases h)
    case L2tp_eth_dev_recv
    with ok h have "dev_alive w (eth_dev_of s)" by (simp add: pw_ok_def)
    then obtain d f where "l2tp_eth_dev_recv E s skb n w = Inr (s_stats s, upd_dstats E d f w)"
      by (rule l2tp_eth_dev_recv_returns)
    with ok L2tp_eth_dev_recv show ?thesis by (simp add: pw_def pw_ok_def)
  next
    case Pppol2tp_recv
    from ok have "sock_alive w (ppp_sock_of s)" by (simp add: pw_ok_def)
    from pppol2tp_recv_returns [OF this, of E skb n] ok Pppol2tp_recv show ?thesis
      by (auto simp: pw_def pw_ok_def)
  qed
next
  show "\<exists>w'. op_ref pw s w = Inr w' \<and> pw_ok s w'" if "pw_ok s w" for s w
    using that by (auto simp: pw_def pw_ok_def pppol2tp_session_sock_hold_def sock_hold_def sock_alive_def
        upd_sock_def dev_alive_def split: option.splits)
next
  show "\<exists>w'. op_deref pw s w = Inr w' \<and> pw_ok s w'" if "pw_ok s w" for s w
    using that by (auto simp: pw_def pw_ok_def pppol2tp_session_sock_put_def sock_put_def sock_alive_def
        upd_sock_def dev_alive_def split: option.splits)
qed

section \<open>A sample receive state\<close>

definition sample_rx :: rx where
  "sample_rx = \<lparr>rx_tunnel = sample_tunnel, rx_session = sample_session, rx_world = sample_world, rx_trace = []\<rparr>"

definition sample_seq_skb :: "u32 \<Rightarrow> u8 list \<Rightarrow> sk_buff" where
  "sample_seq_skb n bs = (sample_skb bs)\<lparr>skb_cb := \<lparr>cb_ns = n, cb_has_seq = True, cb_length = 0, cb_expires = 0\<rparr>\<rparr>"

lemma sample_rx_simps [simp]:
  "rx_tunnel sample_rx = sample_tunnel" "rx_session sample_rx = sample_session"
  "rx_world sample_rx = sample_world" "rx_trace sample_rx = []"
  by (simp_all add: sample_rx_def)

lemma sample_seq_skb_simps [simp]:
  "skb_data (sample_seq_skb n bs) = bs" "skb_ns (sample_seq_skb n bs) = n"
  "skb_has_seq (sample_seq_skb n bs)" "wf_skb (sample_seq_skb n bs)"
  by (simp_all add: sample_seq_skb_def wf_skb_def)

lemma pw_ok_sample [simp]: "pw_ok sample_session sample_world"
  by (simp add: pw_ok_def sock_alive_def dev_alive_def ppp_sock_of_def eth_dev_of_def)

lemma wf_seq_sample [simp]: "wf_seq sample_session"
  by (simp add: wf_seq_def seq_space_def)

end
