(* ===== verification/L2tp_Header.thy ===== *)
theory L2tp_Header
  imports Sample_State
begin

unbundle bit_operations_syntax

text \<open>
  Building L2TP data headers (\<^verbatim>\<open>l2tp_build_l2tpv2_header\<close>, \<^verbatim>\<open>l2tp_build_l2tpv3_header\<close>) and
  the header length the session keeps for them (\<^verbatim>\<open>l2tp_session_set_header_len\<close>). The
  buffer a builder writes to is the list of bytes from the place \<^verbatim>\<open>__skb_push\<close> returned to
  the end of the packet; writing past it is a fault, and the lemmas show that a builder
  stays within the header length and leaves the payload behind it alone.
\<close>

abbreviation (input) L2TP_HDRFLAG_T :: u16 where "L2TP_HDRFLAG_T \<equiv> 0x8000"
abbreviation (input) L2TP_HDRFLAG_L :: u16 where "L2TP_HDRFLAG_L \<equiv> 0x4000"
abbreviation (input) L2TP_HDRFLAG_S :: u16 where "L2TP_HDRFLAG_S \<equiv> 0x0800"
abbreviation (input) L2TP_HDRFLAG_O :: u16 where "L2TP_HDRFLAG_O \<equiv> 0x0200"
abbreviation (input) L2TP_HDR_VER_MASK :: u16 where "L2TP_HDR_VER_MASK \<equiv> 0x000F"
abbreviation (input) L2TP_HDR_VER_2 :: int where "L2TP_HDR_VER_2 \<equiv> 2"
abbreviation (input) L2TP_HDR_VER_3 :: int where "L2TP_HDR_VER_3 \<equiv> 3"
abbreviation (input) L2TP_HDR_SIZE_SEQ :: nat where "L2TP_HDR_SIZE_SEQ \<equiv> 10"

section \<open>Definitions\<close>

definition put_at :: "u8 list \<Rightarrow> nat \<Rightarrow> u8 list \<Rightarrow> u8 list kres" where
  "put_at buf i bs =
     (if i + length bs \<le> length buf then Inr (take i buf @ bs @ drop (i + length bs) buf)
      else Inl OutOfBounds)"

definition l2tp_session_set_header_len :: "l2tp_tunnel \<Rightarrow> l2tp_session \<Rightarrow> int \<Rightarrow> l2tp_session" where
  "l2tp_session_set_header_len t s ver =
     (if ver = L2TP_HDR_VER_2
      then s\<lparr>hdr_len := (if send_seq s \<noteq> 0 then 6 + 4 else 6)\<rparr>
      else s\<lparr>hdr_len := 4 + of_nat (cookie_len s) + l2specific_len s + s_offset s
                          + (if encap t = L2TP_ENCAPTYPE_UDP then 4 else 0)\<rparr>)"

text \<open>
  The version 2 builder. The result is the difference of two \<^verbatim>\<open>__be16\<close> pointers, so it
  counts 16-bit units.
\<close>

definition l2tp_build_l2tpv2_header :: "l2tp_tunnel \<Rightarrow> l2tp_session \<Rightarrow> u8 list
    \<Rightarrow> (int \<times> l2tp_session \<times> u8 list) kres" where
  "l2tp_build_l2tpv2_header t s buf =
     (let flags = (if send_seq s \<noteq> 0 then 2 OR L2TP_HDRFLAG_S else 2);
          hdr = put_be16 flags @ put_be16 (ucast (peer_tunnel_id t)) @ put_be16 (ucast (peer_session_id s))
      in if send_seq s \<noteq> 0
         then bind_res (put_at buf 0 (hdr @ put_be16 (ucast (ns s)) @ put_be16 0))
                (\<lambda>b. Inr (5, s\<lparr>ns := (ns s + 1) AND 0xffff\<rparr>, b))
         else bind_res (put_at buf 0 hdr) (\<lambda>b. Inr (3, s, b)))"

text \<open>The L2-specific sublayer of a version 3 header.\<close>

definition put_l2specific :: "l2tp_session \<Rightarrow> u8 list \<Rightarrow> nat \<Rightarrow> (l2tp_session \<times> u8 list) kres" where
  "put_l2specific s buf i =
     (if l2specific_len s \<noteq> 0 \<and> l2specific_type s = L2TP_L2SPECTYPE_DEFAULT
      then (if send_seq s \<noteq> 0
            then bind_res (put_at buf i (put_be32 (0x40000000 OR ns s)))
                   (\<lambda>b. Inr (s\<lparr>ns := (ns s + 1) AND 0xffffff\<rparr>, b))
            else bind_res (put_at buf i (put_be32 0)) (\<lambda>b. Inr (s, b)))
      else Inr (s, buf))"

definition l2tp_build_l2tpv3_header :: "l2tp_tunnel \<Rightarrow> l2tp_session \<Rightarrow> u8 list
    \<Rightarrow> (int \<times> l2tp_session \<times> u8 list) kres" where
  "l2tp_build_l2tpv3_header t s buf =
     (let fl = (if encap t = L2TP_ENCAPTYPE_UDP then put_be16 3 @ put_be16 0 else []);
          i1 = length fl;
          i2 = i1 + 4;
          i3 = i2 + cookie_len s;
          i4 = i3 + unat (l2specific_len s)
      in bind_res (put_at buf 0 fl) (\<lambda>b0.
         bind_res (put_at b0 i1 (put_be32 (peer_session_id s))) (\<lambda>b1.
         bind_res (get_bytes (cookie s) 0 (cookie_len s)) (\<lambda>ck.
         bind_res (put_at b1 i2 ck) (\<lambda>b2.
         bind_res (put_l2specific s b2 i3) (\<lambda>(s', b3).
         Inr (int (i4 + unat (s_offset s)), s', b3)))))))"

fun call_build_header :: "header_builder \<Rightarrow> l2tp_tunnel \<Rightarrow> l2tp_session \<Rightarrow> u8 list
    \<Rightarrow> (int \<times> l2tp_session \<times> u8 list) kres" where
  "call_build_header L2tp_build_l2tpv2_header = l2tp_build_l2tpv2_header"
| "call_build_header L2tp_build_l2tpv3_header = l2tp_build_l2tpv3_header"

section \<open>Writing into a buffer\<close>

lemma put_at_Inr:
  "put_at buf i bs = Inr b \<longleftrightarrow> i + length bs \<le> length buf \<and> b = take i buf @ bs @ drop (i + length bs) buf"
  by (auto simp: put_at_def)

lemma put_at_length: "put_at buf i bs = Inr b \<Longrightarrow> length b = length buf"
  by (auto simp: put_at_Inr)

lemma put_at_Nil [simp]: "i \<le> length buf \<Longrightarrow> put_at buf i [] = Inr buf"
  by (simp add: put_at_def)

text \<open>A write right behind a prefix that is already in place extends the prefix.\<close>

lemma put_at_extend:
  "length pre + length bs \<le> length buf \<Longrightarrow>
     put_at (pre @ drop (length pre) buf) (length pre) bs =
       Inr ((pre @ bs) @ drop (length (pre @ bs)) buf)"
  by (simp add: put_at_def add.commute)

section \<open>What the builders write\<close>

definition l2tpv2_bytes :: "l2tp_tunnel \<Rightarrow> l2tp_session \<Rightarrow> u8 list" where
  "l2tpv2_bytes t s =
     put_be16 (if send_seq s \<noteq> 0 then 2 OR L2TP_HDRFLAG_S else 2) @
     put_be16 (ucast (peer_tunnel_id t)) @ put_be16 (ucast (peer_session_id s)) @
     (if send_seq s \<noteq> 0 then put_be16 (ucast (ns s)) @ put_be16 0 else [])"

definition l2specific_bytes :: "l2tp_session \<Rightarrow> u8 list" where
  "l2specific_bytes s =
     (if l2specific_len s \<noteq> 0 \<and> l2specific_type s = L2TP_L2SPECTYPE_DEFAULT
      then put_be32 (if send_seq s \<noteq> 0 then 0x40000000 OR ns s else 0) else [])"

definition l2tpv3_bytes :: "l2tp_tunnel \<Rightarrow> l2tp_session \<Rightarrow> u8 list" where
  "l2tpv3_bytes t s =
     (if encap t = L2TP_ENCAPTYPE_UDP then put_be16 3 @ put_be16 0 else []) @
     put_be32 (peer_session_id s) @ take (cookie_len s) (cookie s) @ l2specific_bytes s"

definition next_ns :: "u32 \<Rightarrow> l2tp_session \<Rightarrow> l2tp_session" where
  "next_ns M s = (if send_seq s \<noteq> 0 then s\<lparr>ns := (ns s + 1) AND M\<rparr> else s)"

definition next_ns_v3 :: "l2tp_session \<Rightarrow> l2tp_session" where
  "next_ns_v3 s =
     (if l2specific_len s \<noteq> 0 \<and> l2specific_type s = L2TP_L2SPECTYPE_DEFAULT then next_ns 0xffffff s else s)"

lemma build_v2_eq:
  assumes "length (l2tpv2_bytes t s) \<le> length buf"
  shows "l2tp_build_l2tpv2_header t s buf =
    Inr (int (length (l2tpv2_bytes t s)) div 2, next_ns 0xffff s,
         l2tpv2_bytes t s @ drop (length (l2tpv2_bytes t s)) buf)"
  using assms
  by (cases "send_seq s = 0")
     (simp_all add: l2tp_build_l2tpv2_header_def l2tpv2_bytes_def next_ns_def put_at_def)

lemma put_l2specific_eq:
  assumes "length pre + length (l2specific_bytes s) \<le> length buf"
  shows "put_l2specific s (pre @ drop (length pre) buf) (length pre) =
    Inr (next_ns_v3 s, (pre @ l2specific_bytes s) @ drop (length (pre @ l2specific_bytes s)) buf)"
  using assms put_at_extend [of pre "l2specific_bytes s" buf]
  by (auto simp: put_l2specific_def l2specific_bytes_def next_ns_v3_def next_ns_def)

lemma build_v3_eq:
  assumes "cookie_len s \<le> length (cookie s)" and "length (l2tpv3_bytes t s) \<le> length buf"
  shows "l2tp_build_l2tpv3_header t s buf =
    Inr (int ((if encap t = L2TP_ENCAPTYPE_UDP then 4 else 0) + 4 + cookie_len s
              + unat (l2specific_len s) + unat (s_offset s)),
         next_ns_v3 s, l2tpv3_bytes t s @ drop (length (l2tpv3_bytes t s)) buf)"
proof -
  define fl where "fl = (if encap t = L2TP_ENCAPTYPE_UDP then put_be16 3 @ put_be16 0 else [])"
  define sid where "sid = put_be32 (peer_session_id s)"
  define ck where "ck = take (cookie_len s) (cookie s)"
  have len: "length fl + length sid + length ck + length (l2specific_bytes s) \<le> length buf"
    using assms(2) by (simp add: l2tpv3_bytes_def fl_def sid_def ck_def)
  have b0: "put_at buf 0 fl = Inr (fl @ drop (length fl) buf)"
    using len by (simp add: put_at_def)
  have b1: "put_at (fl @ drop (length fl) buf) (length fl) sid
      = Inr ((fl @ sid) @ drop (length (fl @ sid)) buf)"
    using len by (intro put_at_extend) simp
  have b2: "put_at ((fl @ sid) @ drop (length (fl @ sid)) buf) (length (fl @ sid)) ck
      = Inr (((fl @ sid) @ ck) @ drop (length ((fl @ sid) @ ck)) buf)"
    using len by (intro put_at_extend) simp
  have b3: "put_l2specific s (((fl @ sid) @ ck) @ drop (length ((fl @ sid) @ ck)) buf) (length ((fl @ sid) @ ck))
      = Inr (next_ns_v3 s, (((fl @ sid) @ ck) @ l2specific_bytes s)
           @ drop (length (((fl @ sid) @ ck) @ l2specific_bytes s)) buf)"
    using len by (intro put_l2specific_eq) simp
  have "get_bytes (cookie s) 0 (cookie_len s) = Inr ck"
    using assms(1) by (simp add: get_bytes_def ck_def)
  moreover have "length sid = 4" "length ck = cookie_len s"
    using assms(1) by (simp_all add: sid_def ck_def)
  ultimately show ?thesis
    using b0 b1 b2 b3
    by (simp add: l2tp_build_l2tpv3_header_def Let_def fl_def [symmetric] sid_def [symmetric]
        l2tpv3_bytes_def ck_def [symmetric] add.assoc) (simp add: fl_def)
qed

end
