(* ===== verification/L2tp_Recv.thy ===== *)
theory L2tp_Recv
  imports L2tp_Pw L2tp_Header
begin

unbundle bit_operations_syntax

text \<open>
  The data receive path of \<^verbatim>\<open>l2tp_core.c\<close> for one session: the body of
  \<^verbatim>\<open>l2tp_recv_common\<close> between the two changes of the session's reference count. It is cut
  where the code has its blank lines: the cookie, the sequence number, the policy on
  sequence numbers, the data offset, and the queueing that ends in the sequencing engine.
  A pointer into the packet is an offset from \<^verbatim>\<open>optr\<close>, the start of the L2TP header; a read
  through it past the linear part of the buffer is a fault.
\<close>

section \<open>Definitions\<close>

definition recv_discard :: "pw_ops \<Rightarrow> kenv \<Rightarrow> rx \<Rightarrow> sk_buff \<Rightarrow> rx kres" where
  "recv_discard P E r skb =
     (let s = upd_s_stats E (\<lambda>st. st\<lparr>rx_errors := rx_errors st + 1\<rparr>) (rx_session r)
      in bind_res (call_deref P s (rx_world r))
           (\<lambda>w. Inr (r\<lparr>rx_session := s, rx_world := w, rx_trace := rx_trace r @ [Kfree_skb skb]\<rparr>)))"

text \<open>The optional cookie: \<open>None\<close> on a mismatch, otherwise the offset behind it.\<close>

definition check_cookie :: "l2tp_session \<Rightarrow> sk_buff \<Rightarrow> nat \<Rightarrow> nat option kres" where
  "check_cookie s skb i =
     (if peer_cookie_len s > 0
      then bind_res (get_bytes (linear skb) i (peer_cookie_len s)) (\<lambda>c.
           bind_res (get_bytes (peer_cookie s) 0 (peer_cookie_len s)) (\<lambda>pc.
           Inr (if c \<noteq> pc then None else Some (i + peer_cookie_len s))))
      else Inr (Some i))"

definition set_seq :: "sk_buff \<Rightarrow> u32 \<Rightarrow> sk_buff" where
  "set_seq skb n = skb\<lparr>skb_cb := (skb_cb skb)\<lparr>cb_ns := n, cb_has_seq := True\<rparr>\<rparr>"

definition clear_seq :: "sk_buff \<Rightarrow> sk_buff" where
  "clear_seq skb = skb\<lparr>skb_cb := (skb_cb skb)\<lparr>cb_has_seq := False\<rparr>\<rparr>"

definition parse_seq :: "l2tp_tunnel \<Rightarrow> l2tp_session \<Rightarrow> sk_buff \<Rightarrow> nat \<Rightarrow> u16 \<Rightarrow> (sk_buff \<times> nat) kres" where
  "parse_seq t s skb0 i hdrflags =
     (let skb = clear_seq skb0 in
      if version t = L2TP_HDR_VER_2
      then (if hdrflags AND L2TP_HDRFLAG_S \<noteq> 0
            then bind_res (get_be16 (linear skb) i) (\<lambda>n.
                 bind_res (get_be16 (linear skb) (i + 2)) (\<lambda>_.
                 Inr (set_seq skb (ucast n), i + 4)))
            else Inr (skb, i))
      else if l2specific_type s = L2TP_L2SPECTYPE_DEFAULT
      then bind_res (get_be32 (linear skb) i) (\<lambda>l2h.
           Inr (if l2h AND 0x40000000 \<noteq> 0 then set_seq skb (l2h AND 0x00ffffff) else skb, i))
      else Inr (skb, i))"

text \<open>
  The policy on sequence numbers: \<open>None\<close> where the packet is discarded, otherwise the
  session, whose sending side may have been switched by the peer.
\<close>

definition seq_policy :: "l2tp_tunnel \<Rightarrow> l2tp_session \<Rightarrow> bool \<Rightarrow> l2tp_session option" where
  "seq_policy t s has_seq =
     (if has_seq
      then (if lns_mode s = 0 \<and> send_seq s = 0
            then Some (l2tp_session_set_header_len t (s\<lparr>send_seq := - 1\<rparr>) (version t)) else Some s)
      else if recv_seq s \<noteq> 0 then None
      else if lns_mode s = 0 \<and> send_seq s \<noteq> 0
      then Some (l2tp_session_set_header_len t (s\<lparr>send_seq := 0\<rparr>) (version t))
      else if send_seq s \<noteq> 0 then None
      else Some s)"

definition skip_offset :: "l2tp_tunnel \<Rightarrow> l2tp_session \<Rightarrow> sk_buff \<Rightarrow> nat \<Rightarrow> u16 \<Rightarrow> nat kres" where
  "skip_offset t s skb i hdrflags =
     (if version t = L2TP_HDR_VER_2
      then (if hdrflags AND L2TP_HDRFLAG_O \<noteq> 0
            then bind_res (get_be16 (linear skb) i) (\<lambda>off. Inr (i + 2 + unat off))
            else Inr i)
      else Inr (i + unat (s_offset s)))"

text \<open>\<^verbatim>\<open>pppol2tp_recv_payload_hook\<close>; the flag is its non-zero result.\<close>

definition pppol2tp_recv_payload_hook :: "kenv \<Rightarrow> sk_buff \<Rightarrow> (bool \<times> sk_buff) kres" where
  "pppol2tp_recv_payload_hook E skb0 =
     (case pskb_may_pull E skb0 2 of
        (False, skb) \<Rightarrow> Inr (True, skb)
      | (True, skb) \<Rightarrow>
          if skb_data skb ! 0 = 0xff \<and> skb_data skb ! 1 = 0x03
          then bind_res (skb_pull skb 2) (\<lambda>skb'. Inr (False, skb')) else Inr (False, skb))"

fun call_payload_hook :: "payload_hook option \<Rightarrow> kenv \<Rightarrow> sk_buff \<Rightarrow> (bool \<times> sk_buff) kres" where
  "call_payload_hook None E skb = Inr (False, skb)"
| "call_payload_hook (Some Pppol2tp_recv_payload_hook) E skb = pppol2tp_recv_payload_hook E skb"

text \<open>Queueing a parsed packet and running the engine.\<close>

definition stamp :: "kenv \<Rightarrow> l2tp_session \<Rightarrow> int \<Rightarrow> sk_buff \<Rightarrow> sk_buff" where
  "stamp E s len skb = skb\<lparr>skb_cb := (skb_cb skb)\<lparr>cb_length := of_int len,
     cb_expires := jiffies E + (if reorder_timeout s \<noteq> 0 then of_int (reorder_timeout s) else of_nat (HZ E))\<rparr>\<rparr>"

definition recv_enqueue :: "pw_ops \<Rightarrow> kenv \<Rightarrow> rx \<Rightarrow> sk_buff \<Rightarrow> int \<Rightarrow> rx kres" where
  "recv_enqueue P E r skb0 len =
     (let s = rx_session r; skb = stamp E s len skb0 in
      if skb_has_seq skb
      then (case l2tp_recv_data_seq E s skb of
              (True, s') \<Rightarrow> recv_discard P E (r\<lparr>rx_session := s'\<rparr>) skb
            | (False, s') \<Rightarrow> l2tp_recv_dequeue P E (r\<lparr>rx_session := s'\<rparr>))
      else l2tp_recv_dequeue P E (r\<lparr>rx_session := s\<lparr>reorder_q := reorder_q s @ [skb]\<rparr>\<rparr>))"

definition recv_payload :: "pw_ops \<Rightarrow> kenv \<Rightarrow> rx \<Rightarrow> sk_buff \<Rightarrow> nat \<Rightarrow> int \<Rightarrow> payload_hook option \<Rightarrow> rx kres" where
  "recv_payload P E r skb0 off len hook =
     (case pskb_may_pull E skb0 off of
        (False, skb) \<Rightarrow> recv_discard P E r skb
      | (True, skb) \<Rightarrow>
          bind_res (skb_pull skb off) (\<lambda>skb1.
          bind_res (call_payload_hook hook E skb1) (\<lambda>(bad, skb2).
          if bad then recv_discard P E r skb2 else recv_enqueue P E r skb2 len)))"

definition recv_body :: "pw_ops \<Rightarrow> kenv \<Rightarrow> rx \<Rightarrow> sk_buff \<Rightarrow> nat \<Rightarrow> u16 \<Rightarrow> int \<Rightarrow> payload_hook option
    \<Rightarrow> rx kres" where
  "recv_body P E r0 skb i hdrflags len hook =
     bind_res (call_ref P (rx_session r0) (rx_world r0)) (\<lambda>w.
     let r = r0\<lparr>rx_world := w\<rparr>; s = rx_session r; t = rx_tunnel r in
     bind_res (check_cookie s skb i) (\<lambda>ck.
     case ck of
       None \<Rightarrow> recv_discard P E
         (r\<lparr>rx_session := upd_s_stats E (\<lambda>st. st\<lparr>rx_cookie_discards := rx_cookie_discards st + 1\<rparr>) s\<rparr>) skb
     | Some i1 \<Rightarrow>
         bind_res (parse_seq t s skb i1 hdrflags) (\<lambda>(skb1, i2).
         let i3 = i2 + unat (l2specific_len s) in
         case seq_policy t s (skb_has_seq skb1) of
           None \<Rightarrow> recv_discard P E
             (r\<lparr>rx_session := upd_s_stats E (\<lambda>st. st\<lparr>rx_seq_discards := rx_seq_discards st + 1\<rparr>) s\<rparr>) skb1
         | Some s1 \<Rightarrow>
             bind_res (skip_offset t s1 skb1 i3 hdrflags) (\<lambda>i4.
             recv_payload P E (r\<lparr>rx_session := s1\<rparr>) skb1 i4 len hook))))"

section \<open>What the path relies on\<close>

text \<open>
  What holds of the receive state between two packets: the callbacks of the pseudowire are
  safe to call, the queued packets are well-formed and the sequence numbers in range.
\<close>

definition wf_rx :: "(l2tp_session \<Rightarrow> world \<Rightarrow> bool) \<Rightarrow> rx \<Rightarrow> bool" where
  "wf_rx ok r \<longleftrightarrow> ok (rx_session r) (rx_world r) \<and> wf_seq (rx_session r) \<and>
     (\<forall>skb \<in> set (reorder_q (rx_session r)). wf_skb skb)"

text \<open>The packets a receive state is responsible for, as a number.\<close>

definition rx_packets_seen :: "rx \<Rightarrow> nat" where
  "rx_packets_seen r = length (reorder_q (rx_session r)) + length (rx_trace r)"

text \<open>The bytes behind the offset \<open>i\<close> that the path reads through a pointer.\<close>

definition bytes_read :: "l2tp_tunnel \<Rightarrow> l2tp_session \<Rightarrow> u16 \<Rightarrow> nat" where
  "bytes_read t s hdrflags = peer_cookie_len s +
     (if version t = L2TP_HDR_VER_2
      then (if hdrflags AND L2TP_HDRFLAG_S \<noteq> 0 then 4 else 0) +
           (if hdrflags AND L2TP_HDRFLAG_O \<noteq> 0 then unat (l2specific_len s) + 2 else 0)
      else if l2specific_type s = L2TP_L2SPECTYPE_DEFAULT then 4 else 0)"

definition seq_matches :: "l2tp_tunnel \<Rightarrow> l2tp_session \<Rightarrow> bool" where
  "seq_matches t s \<longleftrightarrow> nr_max s = (if version t = L2TP_HDR_VER_2 then 0xffff else 0xffffff)"

section \<open>Queueing keeps the state well-formed\<close>

lemma stamp_simps [simp]:
  "skb_data (stamp E s len skb) = skb_data skb"
  "skb_headlen (stamp E s len skb) = skb_headlen skb"
  "skb_ns (stamp E s len skb) = skb_ns skb"
  "skb_has_seq (stamp E s len skb) = skb_has_seq skb"
  "wf_skb (stamp E s len skb) = wf_skb skb"
  by (simp_all add: stamp_def wf_skb_def)

context pw_contract
begin

lemma discard_returns:
  assumes "ok (rx_session r) (rx_world r)"
  obtains r' where "recv_discard P E r skb = Inr r'" and "ok (rx_session r') (rx_world r')"
    and "rx_session r' = upd_s_stats E (\<lambda>st. st\<lparr>rx_errors := rx_errors st + 1\<rparr>) (rx_session r)"
    and "rx_trace r' = rx_trace r @ [Kfree_skb skb]" and "rx_tunnel r' = rx_tunnel r"
proof -
  let ?s = "upd_s_stats E (\<lambda>st. st\<lparr>rx_errors := rx_errors st + 1\<rparr>) (rx_session r)"
  have "ok ?s (rx_world r)" by (rule ok_frame [OF assms]) (simp_all add: upd_s_stats_def)
  then obtain w where w: "call_deref P ?s (rx_world r) = Inr w" "ok ?s w" using call_deref_returns by blast
  show thesis by (rule that [of "r\<lparr>rx_session := ?s, rx_world := w, rx_trace := rx_trace r @ [Kfree_skb skb]\<rparr>"])
      (use w in \<open>simp_all add: recv_discard_def\<close>)
qed

end

lemma data_seq_frame:
  assumes "l2tp_recv_data_seq E s skb = (d, s')"
  shows "priv s' = priv s" "recv_skb s' = recv_skb s" "s_ref s' = s_ref s" "s_deref s' = s_deref s"
  using assms
  by (simp_all add: l2tp_recv_data_seq_def Let_def split: if_splits) (auto simp: upd_s_stats_def frame_simps)

lemma data_seq_discard:
  "l2tp_recv_data_seq E s skb = (True, s') \<Longrightarrow> reorder_q s' = reorder_q s"
  by (simp add: l2tp_recv_data_seq_def Let_def split: if_splits) (auto simp: upd_s_stats_def)

lemma data_seq_queue:
  "l2tp_recv_data_seq E s skb = (False, s') \<Longrightarrow> mset (reorder_q s') = add_mset skb (mset (reorder_q s))"
  by (simp add: l2tp_recv_data_seq_def Let_def split: if_splits) (auto simp: l2tp_recv_queue_skb_mset)

context pw_contract
begin

lemma dequeue_keeps:
  assumes "wf_rx ok r"
  shows "\<exists>r'. l2tp_recv_dequeue P E r = Inr r' \<and> wf_rx ok r' \<and> rx_packets_seen r' = rx_packets_seen r \<and>
    blocked E (rx_session r')"
proof -
  have ok: "ok (rx_session r) (rx_world r)" and q: "\<forall>skb \<in> set (reorder_q (rx_session r)). wf_skb skb"
    and seq: "wf_seq (rx_session r)" using assms by (simp_all add: wf_rx_def)
  obtain r' k where r': "l2tp_recv_dequeue P E r = Inr r'" "ok (rx_session r') (rx_world r')"
    "k \<le> length (reorder_q (rx_session r))" "reorder_q (rx_session r') = drop k (reorder_q (rx_session r))"
    "rx_trace r' = rx_trace r @ map (rx_event E (rx_session r)) (take k (reorder_q (rx_session r)))"
    "blocked E (rx_session r')"
    using dequeue_returns [OF ok q, of E] by blast
  have "wf_seq (rx_session r')" by (rule dequeue_wf_seq [OF ok q seq r'(1)])
  then show ?thesis
    using r' q by (auto simp: wf_rx_def rx_packets_seen_def dest: in_set_dropD)
qed

lemma enqueue_returns:
  assumes "wf_rx ok r" and "wf_skb skb" and "skb_has_seq skb \<longrightarrow> skb_ns skb \<le> nr_max (rx_session r)"
  shows "\<exists>r'. recv_enqueue P E r skb len = Inr r' \<and> wf_rx ok r' \<and> rx_packets_seen r' = rx_packets_seen r + 1"
proof -
  let ?s = "rx_session r"
  let ?skb = "stamp E ?s len skb"
  have ok: "ok ?s (rx_world r)" and q: "\<forall>x \<in> set (reorder_q ?s). wf_skb x" and seq: "wf_seq ?s"
    using assms(1) by (simp_all add: wf_rx_def)
  show ?thesis
  proof (cases "skb_has_seq skb")
    case True
    obtain d s' where ds: "l2tp_recv_data_seq E ?s ?skb = (d, s')" by fastforce
    have wf': "wf_seq s'" using wf_seq_data_seq [OF seq _ ds] assms(3) True by simp
    have ok': "ok s' (rx_world r)" by (rule ok_frame [OF ok]) (use data_seq_frame [OF ds] in simp_all)
    show ?thesis
    proof (cases d)
      case d: True
      let ?r = "r\<lparr>rx_session := s'\<rparr>"
      obtain r' where r': "recv_discard P E ?r ?skb = Inr r'" "ok (rx_session r') (rx_world r')"
        "rx_session r' = upd_s_stats E (\<lambda>st. st\<lparr>rx_errors := rx_errors st + 1\<rparr>) s'"
        "rx_trace r' = rx_trace r @ [Kfree_skb ?skb]"
        using discard_returns [of ?r E ?skb] ok' by auto
      then have "reorder_q (rx_session r') = reorder_q ?s" "wf_seq (rx_session r')"
        using wf' data_seq_discard ds d by (simp_all add: upd_s_stats_def wf_seq_def)
      then show ?thesis using r' q True ds d
        by (auto simp: recv_enqueue_def Let_def wf_rx_def rx_packets_seen_def)
    next
      case d: False
      let ?r = "r\<lparr>rx_session := s'\<rparr>"
      have m: "mset (reorder_q s') = add_mset ?skb (mset (reorder_q ?s))" using data_seq_queue ds d by simp
      have "set (reorder_q s') = insert ?skb (set (reorder_q ?s))"
        using arg_cong [OF m, of set_mset] by (simp only: set_mset_mset set_mset_add_mset_insert)
      then have "wf_rx ok ?r" using ok' wf' q assms(2) by (simp add: wf_rx_def)
      moreover have "length (reorder_q s') = length (reorder_q ?s) + 1" using arg_cong [OF m, of size] by simp
      ultimately show ?thesis using dequeue_keeps [of ?r E] True ds d
        by (auto simp: recv_enqueue_def Let_def rx_packets_seen_def)
    qed
  next
    case False
    let ?r = "r\<lparr>rx_session := ?s\<lparr>reorder_q := reorder_q ?s @ [?skb]\<rparr>\<rparr>"
    have "ok (?s\<lparr>reorder_q := reorder_q ?s @ [?skb]\<rparr>) (rx_world r)" by (rule ok_frame [OF ok]) simp_all
    then have "wf_rx ok ?r" using seq q assms(2) False by (auto simp: wf_rx_def wf_seq_def)
    then show ?thesis using dequeue_keeps [of ?r E] False
      by (auto simp: recv_enqueue_def Let_def rx_packets_seen_def)
  qed
qed

end


section \<open>The whole receive path of a session\<close>

lemma get_bytes_linear:
  "i + n \<le> skb_headlen skb \<Longrightarrow> wf_skb skb \<Longrightarrow>
     get_bytes (linear skb) i n = Inr (take n (drop i (skb_data skb)))"
  by (simp add: get_bytes_def wf_skb_def drop_take min_def)

lemma get_be16_linear:
  "i + 2 \<le> skb_headlen skb \<Longrightarrow> wf_skb skb \<Longrightarrow> \<exists>x. get_be16 (linear skb) i = Inr x"
  by (simp add: get_be16_def wf_skb_def)

lemma get_be32_linear:
  "i + 4 \<le> skb_headlen skb \<Longrightarrow> wf_skb skb \<Longrightarrow> \<exists>x. get_be32 (linear skb) i = Inr x"
  by (simp add: get_be32_def wf_skb_def)

lemma set_seq_simps [simp]:
  "skb_data (set_seq skb n) = skb_data skb" "skb_headlen (set_seq skb n) = skb_headlen skb"
  "skb_head (set_seq skb n) = skb_head skb"
  "skb_has_seq (set_seq skb n)" "skb_ns (set_seq skb n) = n" "wf_skb (set_seq skb n) = wf_skb skb"
  by (simp_all add: set_seq_def wf_skb_def)

lemma clear_seq_simps [simp]:
  "skb_data (clear_seq skb) = skb_data skb" "skb_headlen (clear_seq skb) = skb_headlen skb"
  "skb_head (clear_seq skb) = skb_head skb"
  "\<not> skb_has_seq (clear_seq skb)" "wf_skb (clear_seq skb) = wf_skb skb"
  by (simp_all add: clear_seq_def wf_skb_def)

lemma check_cookie_returns:
  assumes "i + peer_cookie_len s \<le> skb_headlen skb" and "wf_skb skb" and "peer_cookie_len s \<le> length (peer_cookie s)"
  shows "check_cookie s skb i =
    Inr (if take (peer_cookie_len s) (drop i (skb_data skb)) = take (peer_cookie_len s) (peer_cookie s)
         then Some (i + peer_cookie_len s) else None)"
  using assms by (auto simp: check_cookie_def get_bytes_linear) (simp_all add: get_bytes_def)

lemma parse_seq_returns:
  assumes "wf_skb skb" and "seq_matches t s"
    and "i + (if version t = L2TP_HDR_VER_2 then (if hdrflags AND L2TP_HDRFLAG_S \<noteq> 0 then 4 else 0)
              else if l2specific_type s = L2TP_L2SPECTYPE_DEFAULT then 4 else 0) \<le> skb_headlen skb"
  shows "\<exists>skb' i'. parse_seq t s skb i hdrflags = Inr (skb', i') \<and> wf_skb skb' \<and>
    skb_data skb' = skb_data skb \<and> skb_headlen skb' = skb_headlen skb \<and>
    i' = i + (if version t = L2TP_HDR_VER_2 \<and> hdrflags AND L2TP_HDRFLAG_S \<noteq> 0 then 4 else 0) \<and>
    (skb_has_seq skb' \<longrightarrow> skb_ns skb' \<le> nr_max s)"
proof (cases "version t = L2TP_HDR_VER_2")
  case v2: True
  show ?thesis
  proof (cases "hdrflags AND L2TP_HDRFLAG_S = 0")
    case True
    with v2 assms(1) show ?thesis by (simp add: parse_seq_def Let_def)
  next
    case False
    then obtain x y where "get_be16 (linear (clear_seq skb)) i = Inr x" "get_be16 (linear (clear_seq skb)) (i + 2) = Inr y"
      using get_be16_linear [of i "clear_seq skb"] get_be16_linear [of "i + 2" "clear_seq skb"] v2 assms(1,3) by auto
    moreover have "(ucast x :: u32) \<le> 0xffff"
    proof -
      have "unat x < 65536" by (rule order_less_le_trans [OF unsigned_less]) simp
      then show ?thesis by (simp add: word_le_nat_alt unsigned_ucast_eq take_bit_nat_eq_self)
    qed
    ultimately show ?thesis using v2 False assms(1,2) by (simp add: parse_seq_def Let_def seq_matches_def)
  qed
next
  case v3: False
  show ?thesis
  proof (cases "l2specific_type s = L2TP_L2SPECTYPE_DEFAULT")
    case False
    with v3 assms(1) show ?thesis by (simp add: parse_seq_def Let_def)
  next
    case True
    then obtain x where "get_be32 (linear (clear_seq skb)) i = Inr x"
      using get_be32_linear [of i "clear_seq skb"] v3 assms(1,3) by auto
    then show ?thesis using v3 True assms(1,2)
      by (auto simp: parse_seq_def Let_def seq_matches_def word_and_le1)
  qed
qed

lemma skip_offset_returns:
  assumes "wf_skb skb"
    and "version t = L2TP_HDR_VER_2 \<Longrightarrow> hdrflags AND L2TP_HDRFLAG_O \<noteq> 0 \<Longrightarrow> i + 2 \<le> skb_headlen skb"
  shows "\<exists>i'. skip_offset t s skb i hdrflags = Inr i'"
  using get_be16_linear [of i skb] assms by (auto simp: skip_offset_def)

lemma seq_policy_frame:
  assumes "seq_policy t s b = Some s'"
  shows "priv s' = priv s" "recv_skb s' = recv_skb s" "s_ref s' = s_ref s" "s_deref s' = s_deref s"
    "reorder_q s' = reorder_q s" "wf_seq s' = wf_seq s" "nr_max s' = nr_max s" "l2specific_len s' = l2specific_len s"
    "nr s' = nr s" "reorder_timeout s' = reorder_timeout s"
    "s_offset s' = s_offset s"
  using assms by (auto simp: seq_policy_def l2tp_session_set_header_len_def wf_seq_def split: if_splits)

lemma payload_hook_returns:
  assumes "wf_skb skb"
  shows "\<exists>bad skb'. call_payload_hook hook E skb = Inr (bad, skb') \<and> wf_skb skb' \<and> skb_cb skb' = skb_cb skb"
proof (cases hook)
  case None
  with assms show ?thesis by auto
next
  case (Some h)
  obtain b x where p: "pskb_may_pull E skb 2 = (b, x)" by fastforce
  show ?thesis
  proof (cases b)
    case True
    then have x: "2 \<le> skb_headlen x" "2 \<le> skb_len x" "wf_skb x" "skb_cb x = skb_cb skb"
      using pskb_may_pull_True [of E skb 2 x] p assms by simp_all
    then obtain y where "skb_pull x 2 = Inr y" "skb_cb y = skb_cb x" by (auto simp: skb_pull_def)
    with x p True Some wf_skb_pull [of x 2 y] show ?thesis
      by (cases h) (auto simp: pppol2tp_recv_payload_hook_def)
  next
    case False
    with p Some assms pskb_may_pull_False [of E skb 2 x] show ?thesis
      by (cases h) (auto simp: pppol2tp_recv_payload_hook_def)
  qed
qed


context pw_contract
begin

lemma discard_keeps:
  assumes "wf_rx ok r"
  shows "\<exists>r'. recv_discard P E r skb = Inr r' \<and> wf_rx ok r' \<and> rx_packets_seen r' = rx_packets_seen r + 1"
proof -
  have "ok (rx_session r) (rx_world r)" using assms by (simp add: wf_rx_def)
  then obtain r' where r': "recv_discard P E r skb = Inr r'" "ok (rx_session r') (rx_world r')"
    "rx_session r' = upd_s_stats E (\<lambda>st. st\<lparr>rx_errors := rx_errors st + 1\<rparr>) (rx_session r)"
    "rx_trace r' = rx_trace r @ [Kfree_skb skb]"
    by (rule discard_returns [of r E skb])
  then have "reorder_q (rx_session r') = reorder_q (rx_session r)" "wf_seq (rx_session r') = wf_seq (rx_session r)"
    by (simp_all add: upd_s_stats_def wf_seq_def)
  then show ?thesis using r' assms by (simp add: wf_rx_def rx_packets_seen_def)
qed

lemma wf_rx_stats:
  assumes "wf_rx ok r"
  shows "wf_rx ok (r\<lparr>rx_session := upd_s_stats E f (rx_session r)\<rparr>)"
proof -
  have "ok (upd_s_stats E f (rx_session r)) (rx_world r)"
    by (rule ok_frame [of "rx_session r"]) (use assms in \<open>simp_all add: wf_rx_def upd_s_stats_def\<close>)
  then show ?thesis using assms by (simp add: wf_rx_def upd_s_stats_def wf_seq_def)
qed

lemma payload_returns:
  assumes "wf_rx ok r" and "wf_skb skb" and "skb_has_seq skb \<longrightarrow> skb_ns skb \<le> nr_max (rx_session r)"
  shows "\<exists>r'. recv_payload P E r skb off len hook = Inr r' \<and> wf_rx ok r' \<and>
    rx_packets_seen r' = rx_packets_seen r + 1"
proof -
  obtain b x where p: "pskb_may_pull E skb off = (b, x)" by fastforce
  show ?thesis
  proof (cases b)
    case False
    then show ?thesis using p discard_keeps [OF assms(1)] by (simp add: recv_payload_def)
  next
    case True
    then have x: "off \<le> skb_headlen x" "off \<le> skb_len x" "wf_skb x" "skb_cb x = skb_cb skb"
      using pskb_may_pull_True [of E skb off x] p assms(2) by simp_all
    then obtain y where y: "skb_pull x off = Inr y" "skb_cb y = skb_cb x" by (auto simp: skb_pull_def)
    have "wf_skb y" by (rule wf_skb_pull [OF x(3) y(1)])
    then obtain bad z where z: "call_payload_hook hook E y = Inr (bad, z)" "wf_skb z" "skb_cb z = skb_cb y"
      using payload_hook_returns by blast
    show ?thesis
    proof (cases bad)
      case bad: True
      then show ?thesis using p True y z discard_keeps [OF assms(1), of E z] by (simp add: recv_payload_def)
    next
      case bad: False
      then show ?thesis using p True y z x enqueue_returns [OF assms(1) z(2), of E len] assms(3)
        by (simp add: recv_payload_def)
    qed
  qed
qed

lemma body_returns:
  assumes "wf_rx ok r" and "wf_skb skb" and "seq_matches (rx_tunnel r) (rx_session r)"
    and "peer_cookie_len (rx_session r) \<le> length (peer_cookie (rx_session r))"
    and "i + bytes_read (rx_tunnel r) (rx_session r) hdrflags \<le> skb_headlen skb"
  shows "\<exists>r'. recv_body P E r skb i hdrflags len hook = Inr r' \<and> wf_rx ok r' \<and>
    rx_packets_seen r' = rx_packets_seen r + 1"
proof -
  let ?s = "rx_session r" and ?t = "rx_tunnel r"
  obtain w where w: "call_ref P ?s (rx_world r) = Inr w" "ok ?s w"
    using call_ref_returns assms(1) unfolding wf_rx_def by blast
  let ?r = "r\<lparr>rx_world := w\<rparr>"
  have wf: "wf_rx ok ?r" and seen: "rx_packets_seen ?r = rx_packets_seen r"
    using assms(1) w(2) by (simp_all add: wf_rx_def rx_packets_seen_def)
  note disc = discard_keeps [OF wf_rx_stats [OF wf]]
  obtain i1 where ck: "check_cookie ?s skb i = Inr None \<or> check_cookie ?s skb i = Inr (Some i1)" "i1 = i + peer_cookie_len ?s"
    using check_cookie_returns [of i ?s skb] assms(2,4,5) by (auto simp: bytes_read_def)
  have fits: "i1 + (if version ?t = L2TP_HDR_VER_2 then (if hdrflags AND L2TP_HDRFLAG_S \<noteq> 0 then 4 else 0)
              else if l2specific_type ?s = L2TP_L2SPECTYPE_DEFAULT then 4 else 0) \<le> skb_headlen skb"
    using assms(5) ck(2) by (auto simp: bytes_read_def split: if_splits)
  obtain skb1 i2 where ps: "parse_seq ?t ?s skb i1 hdrflags = Inr (skb1, i2)" "wf_skb skb1"
    "skb_headlen skb1 = skb_headlen skb" "skb_has_seq skb1 \<longrightarrow> skb_ns skb1 \<le> nr_max ?s"
    "i2 = i1 + (if version ?t = L2TP_HDR_VER_2 \<and> hdrflags AND L2TP_HDRFLAG_S \<noteq> 0 then 4 else 0)"
    using parse_seq_returns [OF assms(2,3) fits] by blast
  show ?thesis
  proof (cases "check_cookie ?s skb i = Inr None")
    case True
    then show ?thesis using w(1) disc seen by (simp add: recv_body_def Let_def rx_packets_seen_def upd_s_stats_def)
  next
    case False
    then have ck': "check_cookie ?s skb i = Inr (Some i1)" using ck(1) by blast
    show ?thesis
    proof (cases "seq_policy ?t ?s (skb_has_seq skb1)")
      case None
      then show ?thesis using w(1) ck' ps(1) disc seen
        by (simp add: recv_body_def Let_def rx_packets_seen_def upd_s_stats_def)
    next
      case (Some s1)
      note fr = seq_policy_frame [OF Some]
      have "ok s1 w" by (rule ok_frame [OF w(2)]) (simp_all add: fr)
      then have wf1: "wf_rx ok (?r\<lparr>rx_session := s1\<rparr>)" using assms(1) by (simp add: wf_rx_def fr)
      have "i2 + unat (l2specific_len ?s) + 2 \<le> skb_headlen skb1"
        if "version ?t = L2TP_HDR_VER_2" "hdrflags AND L2TP_HDRFLAG_O \<noteq> 0"
        using that assms(5) ck(2) ps(3,5) by (simp add: bytes_read_def split: if_splits)
      then obtain i4 where i4: "skip_offset ?t s1 skb1 (i2 + unat (l2specific_len ?s)) hdrflags = Inr i4"
        using skip_offset_returns [OF ps(2), of ?t hdrflags "i2 + unat (l2specific_len ?s)" s1] by blast
      have "skb_has_seq skb1 \<longrightarrow> skb_ns skb1 \<le> nr_max (rx_session (?r\<lparr>rx_session := s1\<rparr>))"
        using ps(4) fr(7) by simp
      from payload_returns [OF wf1 ps(2) this, of E i4 len hook] show ?thesis
        using w(1) ck' ps(1) Some i4 fr(5)
        by (simp add: recv_body_def Let_def rx_packets_seen_def)
    qed
  qed
qed

end

section \<open>Property\<close>

text \<open>
  C6: the receive path returns and loses no packet. When the linear part of the packet
  holds the bytes the path reads through a pointer, \<^verbatim>\<open>l2tp_recv_common\<close> runs without a fault
  whatever the rest of the packet, the clock and the other subsystems do; the session stays
  well-formed, and the number of packets in the queue plus the number handed over or freed
  grows by exactly one.
\<close>

theorem recv_keeps_every_packet:
  assumes "wf_rx pw_ok r" and "wf_skb skb" and "seq_matches (rx_tunnel r) (rx_session r)"
    and "peer_cookie_len (rx_session r) \<le> length (peer_cookie (rx_session r))"
    and "i + bytes_read (rx_tunnel r) (rx_session r) hdrflags \<le> skb_headlen skb"
  shows "\<exists>r'. recv_body pw E r skb i hdrflags len hook = Inr r' \<and> wf_rx pw_ok r' \<and>
    length (reorder_q (rx_session r')) + length (rx_trace r')
      = length (reorder_q (rx_session r)) + length (rx_trace r) + 1"
  using pwc.body_returns [OF assms] unfolding rx_packets_seen_def .

theorem recv_keeps_every_packet_witness:
  "\<exists>r'. recv_body pw sample_env sample_rx (sample_skb (replicate 20 7)) 8 3 20 None = Inr r' \<and>
    wf_rx pw_ok r' \<and> length (reorder_q (rx_session r')) + length (rx_trace r') = 1"
  using recv_keeps_every_packet [of sample_rx "sample_skb (replicate 20 7)" 8 3 sample_env 20 None]
  by (simp add: wf_rx_def seq_matches_def bytes_read_def)

end
