(* ===== verification/L2tp_Reorder.thy ===== *)
theory L2tp_Reorder
  imports L2tp_Recv
begin

unbundle bit_operations_syntax

text \<open>
  Reordering, seen from outside: what a session with a reorder timeout does with a window
  of packets that arrive in any order. \<open>reordering\<close> is the invariant between two arrivals
  (a prefix of the window is delivered, the rest waits in a sorted queue); an arrival
  inserts (\<open>reordering_insert\<close>) and the engine then delivers the longest run that is
  complete (\<open>reordering_advance\<close>).
\<close>


lemma wf_window: "wf_seq s \<Longrightarrow> unat (nr_window_size s) \<le> unat (nr_max s)"
  by (simp add: wf_seq_def unat_div)

lemma recv_data_seq_reorder:
  assumes "l2tp_seq_check_rx_window s (skb_ns skb)" and "reorder_timeout s \<noteq> 0"
  shows "l2tp_recv_data_seq E s skb = (False, l2tp_recv_queue_skb E s skb)"
  using assms by (simp add: l2tp_recv_data_seq_def)

abbreviation ns_nat :: "sk_buff \<Rightarrow> nat" where
  "ns_nat skb \<equiv> unat (skb_ns skb)"

lemma l2tp_recv_queue_skb_strict:
  assumes "sorted_wrt (<) (map ns_nat (reorder_q s))" and "ns_nat skb \<notin> ns_nat ` set (reorder_q s)"
  shows "sorted_wrt (<) (map ns_nat (reorder_q (l2tp_recv_queue_skb E s skb)))"
proof -
  obtain xs ys where q: "reorder_q s = xs @ ys"
    "reorder_q (l2tp_recv_queue_skb E s skb) = xs @ skb # ys"
    and le: "\<forall>x \<in> set xs. skb_ns x \<le> skb_ns skb" and lt: "ys \<noteq> [] \<longrightarrow> skb_ns skb < skb_ns (hd ys)"
    using l2tp_recv_queue_skb_q [of s E skb] by blast
  have "ns_nat x < ns_nat skb" if "x \<in> set xs" for x
  proof -
    have "x \<in> set (reorder_q s)" using that q(1) by simp
    then have "ns_nat x \<noteq> ns_nat skb" using assms(2) by (metis imageI)
    moreover have "ns_nat x \<le> ns_nat skb" using le that by (simp only: word_le_nat_alt)
    ultimately show ?thesis by (rule le_neq_trans [rotated])
  qed
  moreover have "ns_nat skb < ns_nat y" if "y \<in> set ys" for y
    using lt that assms(1) q(1) by (cases ys) (auto simp: word_less_nat_alt sorted_wrt_append)
  ultimately show ?thesis
    using assms(1) q by (auto simp: sorted_wrt_append)
qed

lemma in_sequence_run:
  assumes "seq_space M" and "sorted_wrt (<) (map ns_nat q)"
    and "\<forall>x \<in> set q. c \<le> ns_nat x \<and> skb_ns x \<le> M" and "unat w = c"
  shows "\<exists>j \<le> length q. in_sequence M w q = take j q \<and> map ns_nat (take j q) = [c..<c + j] \<and>
    (\<forall>x \<in> set (drop j q). c + j < ns_nat x)"
  using assms(2-)
proof (induction q arbitrary: c w)
  case Nil
  then show ?case by simp
next
  case (Cons x q)
  show ?case
  proof (cases "skb_ns x = w")
    case False
    then have "c \<noteq> ns_nat x" using Cons.prems(3) by (auto dest: word_unat_eq_iff [THEN iffD2])
    then have "c < ns_nat x" using Cons.prems(2) by (simp add: le_less)
    with False Cons.prems(1) show ?thesis by (intro exI [of _ 0]) auto
  next
    case x: True
    have gt: "\<forall>y \<in> set q. Suc c \<le> ns_nat y" using Cons.prems x by auto
    show ?thesis
    proof (cases q)
      case Nil
      with x Cons.prems(3) show ?thesis by (intro exI [of _ 1]) simp
    next
      case (Cons y q')
      obtain b where sm: "seq_mask M b" using assms(1) by (rule seq_spaceE)
      have "Suc c \<le> unat M"
        using gt Cons Cons.prems(2) by (auto simp: word_le_nat_alt)
      then have "unat ((w + 1) AND M) = Suc c"
        using seq_mask.unat_succ [OF sm, of w] seq_mask.unat_M_Suc [OF sm] Cons.prems(3)
        by (simp add: word_le_nat_alt)
      then obtain j where "j \<le> length q" "in_sequence M ((w + 1) AND M) q = take j q"
        "map ns_nat (take j q) = [Suc c..<Suc c + j]" "\<forall>x \<in> set (drop j q). Suc c + j < ns_nat x"
        using Cons.IH [of "Suc c" "(w + 1) AND M"] gt Cons.prems by auto
      with x Cons.prems(3) show ?thesis
        by (intro exI [of _ "Suc j"]) (auto simp: upt_rec)
    qed
  qed
qed

fun recv_all :: "pw_ops \<Rightarrow> rx \<Rightarrow> (kenv \<times> sk_buff \<times> int) list \<Rightarrow> rx kres" where
  "recv_all P r [] = Inr r"
| "recv_all P r ((E, skb, len) # xs) = bind_res (recv_enqueue P E r skb len) (\<lambda>r'. recv_all P r' xs)"

text \<open>
  A window of packets: \<open>ps ! i\<close> has number \<open>n + i\<close>, the numbers do not wrap, and the
  window of the session takes all of them.
\<close>

definition packet_window :: "l2tp_session \<Rightarrow> nat \<Rightarrow> sk_buff list \<Rightarrow> bool" where
  "packet_window s n ps \<longleftrightarrow>
     n + length ps \<le> unat (nr_max s) + 1 \<and> length ps \<le> unat (nr_window_size s) \<and>
     map ns_nat ps = [n..<n + length ps] \<and> (\<forall>p \<in> set ps. skb_has_seq p \<and> wf_skb p)"

text \<open>A receive state that waits for number \<open>n\<close>, for a witness.\<close>

definition wrap_rx :: "u32 \<Rightarrow> rx" where
  "wrap_rx n = sample_rx\<lparr>rx_session := sample_session\<lparr>nr := n\<rparr>\<rparr>"

text \<open>No packet waits longer than the reorder timeout.\<close>

definition timely :: "l2tp_session \<Rightarrow> kenv set \<Rightarrow> bool" where
  "timely s Es \<longleftrightarrow> (\<forall>E \<in> Es. \<forall>E' \<in> Es.
     \<not> time_after (jiffies E) (jiffies E' + of_int (reorder_timeout s)))"

text \<open>\<open>x\<close> is a packet of the window, as stamped on some arrival.\<close>

definition copy_of :: "l2tp_session \<Rightarrow> kenv set \<Rightarrow> sk_buff list \<Rightarrow> sk_buff \<Rightarrow> bool" where
  "copy_of s Es ps x \<longleftrightarrow> (\<exists>p \<in> set ps. \<exists>E \<in> Es. \<exists>len. x = stamp E s len p)"

text \<open>
  The state after the packets with the numbers \<open>A\<close> have arrived: the first \<open>m\<close> packets of
  the window are delivered and the later ones wait, sorted, in the queue.
\<close>

definition reordering :: "l2tp_session \<Rightarrow> kenv set \<Rightarrow> nat \<Rightarrow> sk_buff list \<Rightarrow> nat set
    \<Rightarrow> l2tp_session \<Rightarrow> sk_buff list \<Rightarrow> bool" where
  "reordering s0 Es n ps A s ds \<longleftrightarrow>
     same_setup s0 s \<and> \<not> reorder_skip s \<and>
     (\<exists>m. unat (nr s) = (n + m) mod (unat (nr_max s) + 1) \<and> n + m \<notin> A \<and> m \<le> length ps \<and>
        map ns_nat ds = [n..<n + m] \<and> {n..<n + m} \<subseteq> A \<and>
        (\<forall>x \<in> set (reorder_q s). n + m < ns_nat x) \<and>
        ns_nat ` set (reorder_q s) = A - {n..<n + m}) \<and>
     sorted_wrt (<) (map ns_nat (reorder_q s)) \<and>
     (\<forall>x \<in> set (reorder_q s) \<union> set ds. copy_of s0 Es ps x)"


lemma reorder_advance:
  assumes "seq_space M" and "sorted_wrt (<) (map ns_nat q)"
    and "\<forall>x \<in> set q. c \<le> ns_nat x \<and> skb_ns x \<le> M" and "unat w = c"
  obtains j where "in_sequence M w q = take j q" and "length (take j q) = j"
    and "map ns_nat (take j q) = [c..<c + j]" and "c + j \<notin> ns_nat ` set q" and "{c..<c + j} \<subseteq> ns_nat ` set q"
    and "ns_nat ` set (drop j q) = ns_nat ` set q - {c..<c + j}"
    and "\<forall>x \<in> set (drop j q). c + j < ns_nat x"
proof -
  obtain j where j: "j \<le> length q" "in_sequence M w q = take j q" "map ns_nat (take j q) = [c..<c + j]"
    "\<forall>x \<in> set (drop j q). c + j < ns_nat x"
    using in_sequence_run [OF assms] by blast
  have taken: "ns_nat ` set (take j q) = {c..<c + j}" using j(3) by (metis list.set_map set_upt)
  have "set q = set (take j q) \<union> set (drop j q)" by (metis append_take_drop_id set_append)
  then have all: "ns_nat ` set q = {c..<c + j} \<union> ns_nat ` set (drop j q)" using taken by auto
  have rest: "ns_nat ` set (drop j q) \<inter> {..c + j} = {}" using j(4) by auto
  show thesis
  proof (rule that [of j])
    show "c + j \<notin> ns_nat ` set q" using all rest by auto
    show "ns_nat ` set (drop j q) = ns_nat ` set q - {c..<c + j}" using all rest by auto
    show "{c..<c + j} \<subseteq> ns_nat ` set q" using all by blast
  qed (use j in simp_all)
qed

lemma window_no_wrap:
  assumes "seq_space (nr_max s)" and "unat (nr s) = c" and "c \<le> unat k" and "k \<le> nr_max s"
    and "unat k - c < unat (nr_window_size s)"
  shows "l2tp_seq_check_rx_window s k"
proof -
  have "unat k + (unat (nr_max s) + 1) - c = (unat k - c) + (unat (nr_max s) + 1)"
    using assms(3) by simp
  moreover have "unat k - c < unat (nr_max s) + 1" using assms(4) by (simp add: word_le_nat_alt)
  ultimately have "seq_distance (nr_max s) (nr s) k = unat k - c"
    using assms(2) by (simp only: seq_distance_def mod_add_self2 mod_less)
  moreover have "nr s \<le> nr_max s"
    using assms(2-4) by (simp add: word_le_nat_alt)
  ultimately show ?thesis using assms window_iff_distance [of s k] by simp
qed

lemma stamp_same: "same_setup s s' \<Longrightarrow> stamp E s' = stamp E s"
  by (simp add: stamp_def same_setup_def fun_eq_iff)

lemma copy_of_facts:
  assumes "copy_of s Es ps x" and "packet_window s n ps"
  shows "skb_has_seq x" and "wf_skb x" and "ns_nat x \<in> {n..<n + length ps}" and "skb_ns x \<le> nr_max s"
proof -
  from assms(1) obtain p E len where p: "p \<in> set ps" "x = stamp E s len p" by (auto simp: copy_of_def)
  have "ns_nat p \<in> set (map ns_nat ps)" using p(1) unfolding set_map by (rule imageI)
  moreover have "set (map ns_nat ps) = {n..<n + length ps}"
    using assms(2) by (simp only: packet_window_def set_upt)
  ultimately have "ns_nat p \<in> {n..<n + length ps}" by blast
  then show "ns_nat x \<in> {n..<n + length ps}" and "skb_ns x \<le> nr_max s"
    using p(2) assms(2) by (simp_all add: packet_window_def word_le_nat_alt)
  show "skb_has_seq x" and "wf_skb x" using p assms(2) by (simp_all add: packet_window_def)
qed

lemma copy_of_timely:
  "copy_of s Es ps x \<Longrightarrow> timely s Es \<Longrightarrow> reorder_timeout s \<noteq> 0 \<Longrightarrow> E \<in> Es \<Longrightarrow> \<not> expired E x"
  by (auto simp: copy_of_def timely_def stamp_def)

text \<open>The queue right after the arrival of a packet that was still missing.\<close>

definition reorder_arrived :: "l2tp_session \<Rightarrow> kenv set \<Rightarrow> nat \<Rightarrow> sk_buff list \<Rightarrow> nat set \<Rightarrow> nat
    \<Rightarrow> sk_buff list \<Rightarrow> sk_buff list \<Rightarrow> bool" where
  "reorder_arrived s0 Es n ps A m q ds \<longleftrightarrow>
     m \<le> length ps \<and> n + m \<le> unat (nr_max s0) \<and> map ns_nat ds = [n..<n + m] \<and> {n..<n + m} \<subseteq> A \<and>
     sorted_wrt (<) (map ns_nat q) \<and> ns_nat ` set q = A - {n..<n + m} \<and>
     (\<forall>x \<in> set q. n + m \<le> ns_nat x \<and> skb_ns x \<le> nr_max s0) \<and>
     (\<forall>x \<in> set q \<union> set ds. copy_of s0 Es ps x)"

lemma reordering_insert:
  assumes win: "packet_window s0 n ps" and wf: "wf_seq s0"
    and inv: "reordering s0 Es n ps A s ds" and p: "copy_of s0 Es ps p" "ns_nat p \<notin> A"
  obtains m where "unat (nr s) = n + m" and "l2tp_seq_check_rx_window s (skb_ns p)"
    and "reorder_arrived s0 Es n ps (insert (ns_nat p) A) m (reorder_q (l2tp_recv_queue_skb E s p)) ds"
proof -
  let ?q = "reorder_q (l2tp_recv_queue_skb E s p)"
  from inv have same: "same_setup s0 s" and srt: "sorted_wrt (<) (map ns_nat (reorder_q s))"
    and cp: "\<forall>x \<in> set (reorder_q s) \<union> set ds. copy_of s0 Es ps x"
    by (simp_all add: reordering_def)
  from inv obtain m where m: "unat (nr s) = (n + m) mod (unat (nr_max s0) + 1)" "n + m \<notin> A"
    "map ns_nat ds = [n..<n + m]" "{n..<n + m} \<subseteq> A" "\<forall>x \<in> set (reorder_q s). n + m < ns_nat x"
    "ns_nat ` set (reorder_q s) = A - {n..<n + m}"
    using same by (auto simp: reordering_def same_setup_def)
  note pf = copy_of_facts [OF p(1) win]
  have pm: "n + m \<le> ns_nat p" using p(2) m(4) pf(3) by (auto simp: not_less [symmetric])
  have mlen: "m \<le> length ps" using pm pf(3) by simp
  have M: "n + m \<le> unat (nr_max s0)" using pm pf(4) by (simp add: word_le_nat_alt)
  then have nr: "unat (nr s) = n + m" using m(1) by simp
  have set_q: "set ?q = insert p (set (reorder_q s))"
    by (rule l2tp_recv_queue_skb_set)
  have srt_q: "sorted_wrt (<) (map ns_nat ?q)"
    using p(2) m(6) by (intro l2tp_recv_queue_skb_strict [OF srt]) blast
  have cp_q: "\<forall>x \<in> set ?q \<union> set ds. copy_of s0 Es ps x" unfolding set_q using cp p(1) by blast
  have low: "\<forall>x \<in> set ?q. n + m \<le> ns_nat x \<and> skb_ns x \<le> nr_max s0"
  proof
    fix x assume x: "x \<in> set ?q"
    then have "copy_of s0 Es ps x" using cp_q by blast
    moreover have "n + m \<le> ns_nat x" using x set_q m(5) pm by (auto intro: less_imp_le)
    ultimately show "n + m \<le> ns_nat x \<and> skb_ns x \<le> nr_max s0" using copy_of_facts(4) [OF _ win] by blast
  qed
  have img: "ns_nat ` set ?q = insert (ns_nat p) A - {n..<n + m}"
    using set_q m(6) pm by (simp only: image_insert) (simp add: insert_Diff_if)
  have sub: "{n..<n + m} \<subseteq> insert (ns_nat p) A" using m(4) by blast
  have arrived: "reorder_arrived s0 Es n ps (insert (ns_nat p) A) m ?q ds"
    unfolding reorder_arrived_def using mlen M m(3) sub srt_q img low cp_q by (intro conjI)
  have "ns_nat p - (n + m) < length ps" using pf(3) by auto
  then have "ns_nat p - (n + m) < unat (nr_window_size s0)" using win by (simp add: packet_window_def)
  then have "l2tp_seq_check_rx_window s (skb_ns p)"
    using same wf nr pm pf(4) by (intro window_no_wrap [of s "n + m"]) (simp_all add: same_setup_def wf_seq_def)
  then show thesis using that nr arrived by blast
qed

lemma reordering_advance:
  assumes win: "packet_window s0 n ps" and wf: "wf_seq s0" and arr: "reorder_arrived s0 Es n ps A m q ds"
    and w: "unat w = n + m" and d: "d = in_sequence (nr_max s0) w q"
    and s': "same_setup s0 s'" "\<not> reorder_skip s'" "reorder_q s' = drop (length d) q"
      "nr s' = (w + of_nat (length d)) AND nr_max s0"
  shows "reordering s0 Es n ps A s' (ds @ d)"
proof -
  from arr have a: "map ns_nat ds = [n..<n + m]" "{n..<n + m} \<subseteq> A" "sorted_wrt (<) (map ns_nat q)"
    "ns_nat ` set q = A - {n..<n + m}" "\<forall>x \<in> set q. n + m \<le> ns_nat x \<and> skb_ns x \<le> nr_max s0"
    "\<forall>x \<in> set q \<union> set ds. copy_of s0 Es ps x"
    unfolding reorder_arrived_def by blast+
  have space: "seq_space (nr_max s0)" using wf by (simp add: wf_seq_def)
  obtain j where j: "in_sequence (nr_max s0) w q = take j q" "length (take j q) = j"
    "map ns_nat (take j q) = [n + m..<n + m + j]" "n + m + j \<notin> ns_nat ` set q"
    "{n + m..<n + m + j} \<subseteq> ns_nat ` set q" "ns_nat ` set (drop j q) = ns_nat ` set q - {n + m..<n + m + j}"
    "\<forall>x \<in> set (drop j q). n + m + j < ns_nat x"
    by (rule reorder_advance [OF space a(3,5) w])
  have dj: "length d = j" "d = take j q" using d j(1,2) by simp_all
  have copies: "\<forall>x \<in> set (drop j q) \<union> set (ds @ d). copy_of s0 Es ps x"
    using a(6) dj(2) by (auto dest: in_set_takeD in_set_dropD)
  have le: "m + j \<le> length ps"
  proof -
    have "ns_nat ` set q \<subseteq> {n..<n + length ps}"
      using a(6) copy_of_facts(3) [OF _ win] by (intro image_subsetI) blast
    then have "{n + m..<n + m + j} \<subseteq> {n..<n + length ps}" using j(5) by blast
    then show ?thesis using arr by (cases j) (auto simp: reorder_arrived_def)
  qed
  show ?thesis
    unfolding reordering_def
  proof (intro conjI exI [of _ "m + j"])
    obtain b where sm: "seq_mask (nr_max s0) b" using space by (rule seq_spaceE)
    have "j \<le> unat (nr_window_size s0)" using le win by (simp add: packet_window_def)
    then have "j \<le> unat (nr_max s0)" using wf_window [OF wf] by simp
    then show "unat (nr s') = (n + (m + j)) mod (unat (nr_max s') + 1)"
      using seq_mask.unat_plus_nat [OF sm, of j w] seq_mask.unat_M_Suc [OF sm] s'(1,4) dj(1) w
      by (simp add: same_setup_def add.assoc)
    show "n + (m + j) \<notin> A" using j(4) unfolding a(4) by (simp add: add.assoc)
    show "map ns_nat (ds @ d) = [n..<n + (m + j)]"
      using a(1) j(3) dj(2) upt_add_eq_append [of n "n + m" j] by (simp add: add.assoc)
    have "{n..<n + (m + j)} = {n..<n + m} \<union> {n + m..<n + m + j}" by auto
    moreover have "{n + m..<n + m + j} \<subseteq> A" using j(5) unfolding a(4) by blast
    ultimately show "{n..<n + (m + j)} \<subseteq> A" using a(2) by simp
    show "\<forall>x \<in> set (reorder_q s'). n + (m + j) < ns_nat x" using s'(3) j(7) dj(1) by (simp add: add.assoc)
    show "ns_nat ` set (reorder_q s') = A - {n..<n + (m + j)}"
      using j(6) unfolding a(4) s'(3) dj(1) by auto
    show "sorted_wrt (<) (map ns_nat (reorder_q s'))"
      using s'(3) a(3) by (simp add: sorted_wrt_drop drop_map [symmetric])
  qed (use s' le copies dj in simp_all)
qed

context pw_contract
begin

lemma reorder_step:
  assumes win: "packet_window s0 n ps" and wf: "wf_seq s0" "reorder_timeout s0 \<noteq> 0" "recv_skb s0 \<noteq> None"
    and tm: "timely s0 Es" "E \<in> Es"
    and inv: "reordering s0 Es n ps A (rx_session r) ds" and ok: "ok (rx_session r) (rx_world r)"
    and p: "p \<in> set ps" "ns_nat p \<notin> A"
  shows "\<exists>r' d. recv_enqueue P E r p len = Inr r' \<and> ok (rx_session r') (rx_world r') \<and>
    rx_trace r' = rx_trace r @ map (Recv_skb \<circ> skb_orphan) d \<and>
    reordering s0 Es n ps (insert (ns_nat p) A) (rx_session r') (ds @ d)"
proof -
  let ?s = "rx_session r"
  let ?p = "stamp E ?s len p"
  let ?s1 = "l2tp_recv_queue_skb E ?s ?p"
  let ?r1 = "r\<lparr>rx_session := ?s1\<rparr>"
  from inv have same: "same_setup s0 ?s" and skip: "\<not> reorder_skip ?s" by (simp_all add: reordering_def)
  have cp: "copy_of s0 Es ps ?p" using p(1) tm(2) stamp_same [OF same] by (auto simp: copy_of_def)
  have "ns_nat ?p \<notin> A" using p(2) by simp
  then obtain m where m: "unat (nr ?s) = n + m" "l2tp_seq_check_rx_window ?s (skb_ns ?p)"
    "reorder_arrived s0 Es n ps (insert (ns_nat ?p) A) m (reorder_q ?s1) ds"
    by (rule reordering_insert [OF win wf(1) inv cp])
  have cfg: "nr_max ?s = nr_max s0" "reorder_timeout ?s \<noteq> 0" "recv_skb ?s \<noteq> None"
    using same wf by (simp_all add: same_setup_def)
  have enq: "recv_enqueue P E r p len = l2tp_recv_dequeue P E ?r1"
    using copy_of_facts(1) [OF cp win] recv_data_seq_reorder [OF m(2) cfg(2), of E]
    by (simp add: recv_enqueue_def Let_def)
  have q: "\<forall>x \<in> set (reorder_q ?s1). wf_skb x \<and> skb_has_seq x \<and> \<not> expired E x"
  proof
    fix x assume "x \<in> set (reorder_q ?s1)"
    then have "copy_of s0 Es ps x" using m(3) unfolding reorder_arrived_def by blast
    then show "wf_skb x \<and> skb_has_seq x \<and> \<not> expired E x"
      using copy_of_facts(1,2) [OF _ win] copy_of_timely [OF _ tm(1) wf(2) tm(2)] by blast
  qed
  have nr_le: "nr ?s \<le> nr_max s0" using m(1,3) by (simp add: reorder_arrived_def word_le_nat_alt)
  have ok1: "ok (rx_session ?r1) (rx_world ?r1)"
    using ok by (auto intro: ok_frame simp: frame_simps)
  have same1: "same_setup ?s ?s1"
    by (simp add: same_setup_def frame_simps l2tp_recv_queue_skb_def upd_s_stats_def split: option.split)
  let ?d = "in_sequence (nr_max s0) (nr ?s) (reorder_q ?s1)"
  have "\<exists>r'. l2tp_recv_dequeue P E ?r1 = Inr r' \<and> ok (rx_session r') (rx_world r') \<and>
     same_setup ?s1 (rx_session r') \<and> \<not> reorder_skip (rx_session r') \<and>
     rx_trace r' = rx_trace r @ map (Recv_skb \<circ> skb_orphan) ?d \<and>
     reorder_q (rx_session r') = drop (length ?d) (reorder_q ?s1) \<and>
     nr (rx_session r') = (nr ?s + of_nat (length ?d)) AND nr_max s0"
    using dequeue_in_sequence [OF ok1, of E ?d] q skip wf(1) nr_le cfg
    by (simp add: frame_simps wf_seq_def)
  then obtain r' where r': "l2tp_recv_dequeue P E ?r1 = Inr r'" "ok (rx_session r') (rx_world r')"
     "same_setup ?s1 (rx_session r')" "\<not> reorder_skip (rx_session r')"
     "rx_trace r' = rx_trace r @ map (Recv_skb \<circ> skb_orphan) ?d"
     "reorder_q (rx_session r') = drop (length ?d) (reorder_q ?s1)"
     "nr (rx_session r') = (nr ?s + of_nat (length ?d)) AND nr_max s0" by blast
  have "same_setup s0 (rx_session r')" using same same1 r'(3) same_setup_trans by blast
  then have "reordering s0 Es n ps (insert (ns_nat ?p) A) (rx_session r') (ds @ ?d)"
    using reordering_advance [OF win wf(1) m(3,1) refl] r'(4,6,7) by blast
  then show ?thesis using enq r' by auto
qed

text \<open>The packets of a window that arrive, in whatever order.\<close>

lemma reorder_run:
  assumes win: "packet_window s0 n ps" and wf: "wf_seq s0" "reorder_timeout s0 \<noteq> 0" "recv_skb s0 \<noteq> None"
    and tm: "timely s0 Es"
    and "fst ` set xs \<subseteq> Es" and "(fst \<circ> snd) ` set xs \<subseteq> set ps"
    and "distinct (map (ns_nat \<circ> fst \<circ> snd) xs)" and "(ns_nat \<circ> fst \<circ> snd) ` set xs \<inter> A = {}"
    and "reordering s0 Es n ps A (rx_session r) ds" and "ok (rx_session r) (rx_world r)"
  shows "\<exists>r' d. recv_all P r xs = Inr r' \<and> ok (rx_session r') (rx_world r') \<and>
    rx_trace r' = rx_trace r @ map (Recv_skb \<circ> skb_orphan) d \<and>
    reordering s0 Es n ps (A \<union> (ns_nat \<circ> fst \<circ> snd) ` set xs) (rx_session r') (ds @ d)"
  using assms(6-)
proof (induction xs arbitrary: A r ds)
  case Nil
  then show ?case by (intro exI [of _ r] exI [of _ "[]"]) simp
next
  case (Cons x xs)
  obtain E p len where x: "x = (E, p, len)" by (cases x)
  have px: "E \<in> Es" "p \<in> set ps" "ns_nat p \<notin> A" using Cons.prems x by auto
  obtain r1 d1 where r1: "recv_enqueue P E r p len = Inr r1" "ok (rx_session r1) (rx_world r1)"
    "rx_trace r1 = rx_trace r @ map (Recv_skb \<circ> skb_orphan) d1"
    "reordering s0 Es n ps (insert (ns_nat p) A) (rx_session r1) (ds @ d1)"
    using reorder_step [OF win wf tm px(1) Cons.prems(5,6) px(2,3), of len] by blast
  have dis: "distinct (map (ns_nat \<circ> fst \<circ> snd) xs)" using Cons.prems(3) by (simp only: list.map distinct.simps)
  have new: "(ns_nat \<circ> fst \<circ> snd) ` set xs \<inter> insert (ns_nat p) A = {}"
    using Cons.prems(3,4) x by (auto simp: image_iff)
  have sub: "fst ` set xs \<subseteq> Es" "(fst \<circ> snd) ` set xs \<subseteq> set ps" using Cons.prems(1,2) by auto
  obtain r' d where r': "recv_all P r1 xs = Inr r'" "ok (rx_session r') (rx_world r')"
    "rx_trace r' = rx_trace r1 @ map (Recv_skb \<circ> skb_orphan) d"
    "reordering s0 Es n ps (insert (ns_nat p) A \<union> (ns_nat \<circ> fst \<circ> snd) ` set xs) (rx_session r') ((ds @ d1) @ d)"
    using Cons.IH [OF sub dis new r1(4,2)] by blast
  have "insert (ns_nat p) A \<union> (ns_nat \<circ> fst \<circ> snd) ` set xs = A \<union> (ns_nat \<circ> fst \<circ> snd) ` set (x # xs)"
    using x by auto
  with r' r1(1,3) x show ?case
    by (intro exI [of _ r'] exI [of _ "d1 @ d"]) simp
qed

end


lemma copies_in_order:
  assumes win: "packet_window s n ps" and ns: "map ns_nat ds = map ns_nat ps" and "\<forall>x \<in> set ds. copy_of s Es ps x"
  shows "map skb_data ds = map skb_data ps"
proof (rule nth_equalityI)
  show len: "length (map skb_data ds) = length (map skb_data ps)" using ns map_eq_imp_length_eq by fastforce
  fix i assume i: "i < length (map skb_data ds)"
  then have "copy_of s Es ps (ds ! i)" using assms(3) by simp
  then obtain p E l where p: "p \<in> set ps" "ds ! i = stamp E s l p" unfolding copy_of_def by blast
  then obtain k where k: "k < length ps" "p = ps ! k" by (auto simp: in_set_conv_nth)
  have idx: "ns_nat (ps ! j) = n + j" if "j < length ps" for j
  proof -
    have "map ns_nat ps ! j = [n..<n + length ps] ! j" using win by (simp only: packet_window_def)
    then show ?thesis using that by simp
  qed
  have "map ns_nat ds ! i = map ns_nat ps ! i" by (simp only: ns)
  then have "n + k = n + i" using i len p(2) k idx [of k] idx [of i] by simp
  then show "map skb_data ds ! i = map skb_data ps ! i" using i len p(2) k by simp
qed

lemma reordering_start:
  assumes "wf_seq s" and "reorder_q s = []" and "\<not> reorder_skip s"
  shows "reordering s Es (unat (nr s)) ps {} s []"
  using assms unfolding reordering_def wf_seq_def
  by (intro conjI exI [of _ 0]) (simp_all add: word_le_nat_alt less_Suc_eq_le)

lemma reordering_end:
  assumes win: "packet_window s (unat (nr s)) ps" and wf: "wf_seq s"
    and inv: "reordering s Es (unat (nr s)) ps (ns_nat ` set ps) s' ds"
  shows "map ns_nat ds = map ns_nat ps" and "map skb_data ds = map skb_data ps" and "reorder_q s' = []"
    and "nr s' = (nr s + of_nat (length ps)) AND nr_max s"
proof -
  let ?n = "unat (nr s)"
  have nums: "map ns_nat ps = [?n..<?n + length ps]" using win by (simp only: packet_window_def)
  then have all: "ns_nat ` set ps = {?n..<?n + length ps}" by (metis set_map set_upt)
  from inv have M: "nr_max s' = nr_max s" and cp: "\<forall>x \<in> set ds. copy_of s Es ps x"
    unfolding reordering_def same_setup_def by blast+
  from inv obtain m where m: "unat (nr s') = (?n + m) mod (unat (nr_max s) + 1)" "?n + m \<notin> ns_nat ` set ps"
    "m \<le> length ps" "map ns_nat ds = [?n..<?n + m]"
    "ns_nat ` set (reorder_q s') = ns_nat ` set ps - {?n..<?n + m}"
    unfolding reordering_def M by blast
  have len: "m = length ps" using m(2,3) unfolding all by simp
  show ns: "map ns_nat ds = map ns_nat ps" using m(4) nums len by simp
  show "map skb_data ds = map skb_data ps" by (rule copies_in_order [OF win ns cp])
  have "ns_nat ` set (reorder_q s') = {}" using m(5) unfolding all len by simp
  then show "reorder_q s' = []" by simp
  obtain b where sm: "seq_mask (nr_max s) b" using wf seq_spaceE unfolding wf_seq_def by blast
  have "length ps \<le> unat (nr_max s)" using win wf_window [OF wf] by (simp add: packet_window_def)
  then have "unat ((nr s + of_nat (length ps)) AND nr_max s) = (?n + length ps) mod (unat (nr_max s) + 1)"
    using seq_mask.unat_plus_nat [OF sm] seq_mask.unat_M_Suc [OF sm] by simp
  then show "nr s' = (nr s + of_nat (length ps)) AND nr_max s"
    using m(1) len by (simp only: word_unat_eq_iff)
qed

context pw_contract
begin

lemma reorder_delivers:
  assumes "wf_seq (rx_session r)" and "reorder_q (rx_session r) = []" and "\<not> reorder_skip (rx_session r)"
    and "reorder_timeout (rx_session r) \<noteq> 0" and "recv_skb (rx_session r) \<noteq> None"
    and "ok (rx_session r) (rx_world r)" and "packet_window (rx_session r) (unat (nr (rx_session r))) ps"
    and "mset (map (fst \<circ> snd) xs) = mset ps" and "timely (rx_session r) (fst ` set xs)"
  shows "\<exists>r' ds. recv_all P r xs = Inr r' \<and> ok (rx_session r') (rx_world r') \<and>
    rx_trace r' = rx_trace r @ map (Recv_skb \<circ> skb_orphan) ds \<and>
    map skb_data ds = map skb_data ps \<and> map ns_nat ds = map ns_nat ps \<and>
    reorder_q (rx_session r') = [] \<and>
    nr (rx_session r') = (nr (rx_session r) + of_nat (length ps)) AND nr_max (rx_session r)"
proof -
  let ?s = "rx_session r"
  let ?n = "unat (nr ?s)"
  have pk: "(fst \<circ> snd) ` set xs = set ps" using arg_cong [OF assms(8), of set_mset] by simp
  have "mset (map ns_nat (map (fst \<circ> snd) xs)) = mset (map ns_nat ps)"
    using assms(8) by (simp only: mset_map)
  moreover have "distinct (map ns_nat ps)"
    using assms(7) by (simp only: packet_window_def distinct_upt)
  ultimately have dis: "distinct (map ns_nat (map (fst \<circ> snd) xs))" using mset_eq_imp_distinct_iff by blast
  then have dis': "distinct (map (ns_nat \<circ> fst \<circ> snd) xs)" by (simp only: map_map comp_assoc)
  have imgs: "(ns_nat \<circ> fst \<circ> snd) ` set xs = ns_nat ` set ps" by (simp only: pk [symmetric] image_image comp_def)
  obtain r' d where r': "recv_all P r xs = Inr r'" "ok (rx_session r') (rx_world r')"
    "rx_trace r' = rx_trace r @ map (Recv_skb \<circ> skb_orphan) d"
    "reordering ?s (fst ` set xs) ?n ps ({} \<union> (ns_nat \<circ> fst \<circ> snd) ` set xs) (rx_session r') ([] @ d)"
    using reorder_run [OF assms(7,1,4,5,9) subset_refl equalityD1 [OF pk] dis' Int_empty_right
        reordering_start [OF assms(1,2,3)] assms(6)] by blast
  then have "reordering ?s (fst ` set xs) ?n ps (ns_nat ` set ps) (rx_session r') d" by (simp only: imgs Un_empty_left append_Nil)
  from reordering_end [OF assms(7,1) this] r' show ?thesis by blast
qed

end


section \<open>Property\<close>

text \<open>
  C3: packets that arrive in any order leave in order, as long as the numbers do not wrap. Take a
  session that reorders (its timeout is not zero), that has seen its first packet (\<open>reorder_skip\<close>
  is off; a new session starts with it on and takes whatever comes first as the start), that has
  an empty queue, a connected pseudowire whose callbacks are safe, and take packets with consecutive numbers
  from the session's \<open>nr\<close> on, all of them within the receive window and not beyond \<open>nr_max\<close>. In whatever
  order these packets reach the queueing step, if no two arrivals are further apart than the
  reorder timeout, the receive path returns without a fault, every packet has gone to the
  pseudowire exactly once, in the order of the numbers and with its payload unchanged, the
  queue is empty and \<open>nr\<close> has advanced by the number of packets.
\<close>

theorem reorder_delivers_in_order:
  assumes "wf_seq (rx_session r)" and "reorder_q (rx_session r) = []" and "\<not> reorder_skip (rx_session r)"
    and "reorder_timeout (rx_session r) \<noteq> 0" and "recv_skb (rx_session r) \<noteq> None"
    and "pw_ok (rx_session r) (rx_world r)" and "packet_window (rx_session r) (unat (nr (rx_session r))) ps"
    and "mset (map (fst \<circ> snd) xs) = mset ps" and "timely (rx_session r) (fst ` set xs)"
  shows "\<exists>r' ds. recv_all pw r xs = Inr r' \<and>
    rx_trace r' = rx_trace r @ map (Recv_skb \<circ> skb_orphan) ds \<and>
    map skb_data ds = map skb_data ps \<and> map ns_nat ds = map ns_nat ps \<and>
    reorder_q (rx_session r') = [] \<and>
    nr (rx_session r') = (nr (rx_session r) + of_nat (length ps)) AND nr_max (rx_session r)"
  using pwc.reorder_delivers [OF assms] by blast

theorem reorder_delivers_in_order_witness:
  "\<exists>r' ds. recv_all pw sample_rx
      [(sample_env, sample_seq_skb 2 [30], 1), (sample_env, sample_seq_skb 0 [10], 1),
       (sample_env, sample_seq_skb 1 [20], 1)] = Inr r' \<and>
    rx_trace r' = map (Recv_skb \<circ> skb_orphan) ds \<and> map skb_data ds = [[10], [20], [30]] \<and>
    map ns_nat ds = [0, 1, 2] \<and>
    reorder_q (rx_session r') = [] \<and> nr (rx_session r') = 3"
  using reorder_delivers_in_order [of sample_rx
      "[sample_seq_skb 0 [10], sample_seq_skb 1 [20], sample_seq_skb 2 [30]]"
      "[(sample_env, sample_seq_skb 2 [30], 1), (sample_env, sample_seq_skb 0 [10], 1),
       (sample_env, sample_seq_skb 1 [20], 1)]"]
  by (simp add: packet_window_def timely_def time_after_def)

text \<open>
  C19: where the numbers wrap, the order is lost. The queue is kept sorted by the plain value of
  the numbers, so a packet numbered past the wrap-around is queued in front of the packets that
  precede it. While such a packet, with a number below \<open>nr\<close>, is at the head, the packet the session
  waits for, number \<open>nr\<close> itself, is queued behind it and nothing is delivered: the session stalls
  until the head expires.
\<close>

theorem wrapped_head_blocks_next:
  assumes "wf_seq (rx_session r)" and "reorder_timeout (rx_session r) \<noteq> 0" and "\<not> reorder_skip (rx_session r)"
    and "reorder_q (rx_session r) = x # q" and "skb_has_seq x" and "skb_ns x < nr (rx_session r)"
    and "\<not> expired E x" and "skb_has_seq skb" and "skb_ns skb = nr (rx_session r)"
  shows "\<exists>r' q'. recv_enqueue pw E r skb len = Inr r' \<and> rx_trace r' = rx_trace r \<and>
    reorder_q (rx_session r') = x # q' \<and> length q' = length q + 1 \<and> nr (rx_session r') = nr (rx_session r)"
proof -
  let ?s = "rx_session r" and ?y = "stamp E (rx_session r) len skb"
  let ?r = "r\<lparr>rx_session := l2tp_recv_queue_skb E ?s ?y\<rparr>"
  have "0 < nr_window_size ?s" using assms(1) by (auto simp: wf_seq_def seq_space_def word_less_nat_alt unat_div)
  then have "l2tp_seq_check_rx_window ?s (skb_ns skb)" using assms(9) by (simp add: l2tp_seq_check_rx_window_def)
  then have enq: "recv_enqueue pw E r skb len = l2tp_recv_dequeue pw E ?r"
    using assms(2,8) by (simp add: recv_enqueue_def l2tp_recv_data_seq_def Let_def)
  have "\<not> skb_ns ?y < skb_ns x" using assms(6,9) by simp
  moreover have "queue_before ?y q = Some q' \<Longrightarrow> length q' = Suc (length q)" for q'
    using queue_before_Some [of ?y q q'] by auto
  ultimately obtain q' where q': "reorder_q (rx_session ?r) = x # q'" "length q' = length q + 1"
    using assms(4) by (cases "queue_before ?y q") (simp_all add: l2tp_recv_queue_skb_def upd_s_stats_def)
  have "advance_nr (rx_session ?r) x = rx_session ?r"
    using assms(3) by (simp add: advance_nr_def frame_simps)
  then have "l2tp_recv_dequeue pw E ?r = Inr ?r"
    using pwc.dequeue_stop(1) [OF q'(1) assms(7,5)] assms(6) by (simp add: frame_simps)
  then show ?thesis using enq q' by (intro exI [of _ ?r] exI [of _ q']) (simp add: frame_simps)
qed

theorem wrapped_head_blocks_next_witness:
  "\<exists>r'. recv_all pw (wrap_rx 0xfffffe)
      [(sample_env, sample_seq_skb 0 [30], 1), (sample_env, sample_seq_skb 0xfffffe [10], 1)] = Inr r' \<and>
    rx_trace r' = [] \<and> length (reorder_q (rx_session r')) = 2"
proof -
  let ?r = "wrap_rx 0xfffffe" and ?x = "stamp sample_env sample_session 1 (sample_seq_skb 0 [30])"
  let ?r1 = "?r\<lparr>rx_session := (rx_session ?r)\<lparr>reorder_q := [?x]\<rparr>\<rparr>"
  have fresh: "\<not> expired sample_env ?x" by (simp add: stamp_def time_after_def)
  have one: "recv_enqueue pw sample_env ?r (sample_seq_skb 0 [30]) 1 = Inr ?r1"
    using fresh by (simp add: recv_enqueue_def l2tp_recv_data_seq_def l2tp_seq_check_rx_window_def l2tp_recv_queue_skb_def
        l2tp_recv_dequeue.simps [where r = "sample_rx\<lparr>rx_session := u\<rparr>" for u] advance_nr_def wrap_rx_def stamp_def Let_def)
  have "wf_seq (rx_session ?r1)" by (simp add: wf_seq_def seq_space_def wrap_rx_def)
  from wrapped_head_blocks_next [OF this, of ?x "[]" sample_env "sample_seq_skb 0xfffffe [10]" 1] fresh
  show ?thesis using one by (auto simp: wrap_rx_def)
qed

end
