(* ===== verification/L2tp_Wire.thy ===== *)
theory L2tp_Wire
  imports L2tp_Reorder
begin

unbundle bit_operations_syntax

text \<open>
  What one end builds, the other end reads: the lengths of the headers against
  \<^verbatim>\<open>session->hdr_len\<close>, and the delivery of a frame that one session sends by the session
  configured as its peer, for both header versions.
\<close>

section \<open>Definitions\<close>

definition v3_hdr_len :: "l2tp_tunnel \<Rightarrow> l2tp_session \<Rightarrow> nat" where
  "v3_hdr_len t s = (if encap t = L2TP_ENCAPTYPE_UDP then 4 else 0) + 4 + cookie_len s
     + unat (l2specific_len s) + unat (s_offset s)"

text \<open>
  What a session must satisfy for its version 3 headers to fit: the cookie lies in its
  array, a default sublayer has room for its four bytes, and the 16-bit header length does
  not wrap.
\<close>

definition v3_ok :: "l2tp_tunnel \<Rightarrow> l2tp_session \<Rightarrow> bool" where
  "v3_ok t s \<longleftrightarrow> cookie_len s \<le> length (cookie s) \<and> v3_hdr_len t s < 2 ^ 16 \<and>
     (l2specific_type s = L2TP_L2SPECTYPE_DEFAULT \<longrightarrow> l2specific_len s = 0 \<or> 4 \<le> l2specific_len s)"

text \<open>
  The receiving session \<open>s'\<close> is configured for the sending session \<open>s\<close>: it expects the
  cookie, the sublayer and the offset that the sender puts in.
\<close>

definition v3_peer :: "l2tp_session \<Rightarrow> l2tp_session \<Rightarrow> bool" where
  "v3_peer s s' \<longleftrightarrow> peer_cookie_len s' = cookie_len s \<and> cookie_len s \<le> length (peer_cookie s') \<and>
     take (cookie_len s) (peer_cookie s') = take (cookie_len s) (cookie s) \<and>
     l2specific_len s' = l2specific_len s \<and> l2specific_type s' = l2specific_type s \<and>
     s_offset s' = s_offset s \<and> (l2specific_type s = L2TP_L2SPECTYPE_DEFAULT \<longrightarrow> 4 \<le> l2specific_len s)"

definition v3_data_off :: "l2tp_tunnel \<Rightarrow> nat" where
  "v3_data_off t = (if encap t = L2TP_ENCAPTYPE_UDP then 8 else 4)"

text \<open>
  What the payload hook of a tunnel leaves of a payload. The hook of the PPP pseudowire looks at
  two bytes, which must be there, and strips the address and control bytes of PPP.
\<close>

definition hook_payload :: "payload_hook option \<Rightarrow> u8 list \<Rightarrow> u8 list" where
  "hook_payload h p = (if h \<noteq> None \<and> take 2 p = [0xff, 0x03] then drop 2 p else p)"

definition hook_room :: "payload_hook option \<Rightarrow> nat \<Rightarrow> sk_buff \<Rightarrow> bool" where
  "hook_room h n skb \<longleftrightarrow> n + (if h \<noteq> None then 2 else 0) \<le> skb_headlen skb"

text \<open>
  Whether a session takes packets with, or without, sequence numbers: without them only when it
  does not require them, and when it is not the end that decides and sends them itself.
\<close>

definition takes_seq :: "l2tp_session \<Rightarrow> bool \<Rightarrow> bool" where
  "takes_seq s' has_seq \<longleftrightarrow> has_seq \<or> recv_seq s' = 0 \<and> (lns_mode s' = 0 \<or> send_seq s' = 0)"

text \<open>The time a packet may wait is a small positive number of ticks.\<close>

definition wait_ok :: "kenv \<Rightarrow> l2tp_session \<Rightarrow> bool" where
  "wait_ok E s \<longleftrightarrow> 0 \<le> reorder_timeout s \<and> reorder_timeout s < 2 ^ 31 \<and> HZ E < 2 ^ 31"

definition v2_flags :: "l2tp_session \<Rightarrow> u16" where
  "v2_flags s = (if send_seq s \<noteq> 0 then 2 OR L2TP_HDRFLAG_S else 2)"


text \<open>A version 2 pair for the witness.\<close>

definition sample_session_v2 :: l2tp_session where
  "sample_session_v2 = sample_session\<lparr>peer_cookie_len := 0, cookie_len := 0, l2specific_len := 0,
     l2specific_type := 0, nr_max := 0xffff, nr_window_size := 0x7fff, hdr_len := 10\<rparr>"

definition sample_rx_v2 :: rx where
  "sample_rx_v2 = sample_rx\<lparr>rx_tunnel := sample_tunnel\<lparr>version := 2\<rparr>, rx_session := sample_session_v2\<rparr>"

section \<open>The header length\<close>

lemma set_header_len_v3:
  assumes "ver \<noteq> L2TP_HDR_VER_2" and "v3_hdr_len t s < 2 ^ 16"
  shows "unat (hdr_len (l2tp_session_set_header_len t s ver)) = v3_hdr_len t s"
proof -
  have "hdr_len (l2tp_session_set_header_len t s ver) = of_nat (v3_hdr_len t s)"
    using assms(1) by (simp add: l2tp_session_set_header_len_def v3_hdr_len_def)
  then show ?thesis using assms(2) by (simp add: unat_of_nat)
qed

lemma length_l2tpv3_bytes:
  assumes "v3_ok t s"
  shows "length (l2tpv3_bytes t s) \<le> v3_hdr_len t s"
proof -
  have "length (l2specific_bytes s) \<le> unat (l2specific_len s)"
    using assms by (auto simp: l2specific_bytes_def v3_ok_def word_le_nat_alt)
  then show ?thesis using assms by (simp add: l2tpv3_bytes_def v3_hdr_len_def v3_ok_def)
qed

text \<open>What the version 3 builder leaves in the header area: its bytes, then the old contents.\<close>

lemma build_v3_area:
  assumes "v3_ok t s" and "length area = v3_hdr_len t s"
  shows "l2tp_build_l2tpv3_header t s (area @ payload) =
    Inr (int (length area), next_ns_v3 s,
         (l2tpv3_bytes t s @ drop (length (l2tpv3_bytes t s)) area) @ payload)"
  using build_v3_eq [of s t "area @ payload"] length_l2tpv3_bytes [OF assms(1)] assms
  by (simp add: v3_ok_def v3_hdr_len_def)

lemma length_l2tpv2_bytes: "length (l2tpv2_bytes t s) = (if send_seq s \<noteq> 0 then 10 else 6)"
  by (simp add: l2tpv2_bytes_def)

lemma build_v2_area:
  assumes "length area = (if send_seq s \<noteq> 0 then 10 else 6)"
  shows "l2tp_build_l2tpv2_header t s (area @ payload) =
    Inr (int (length area) div 2, next_ns 0xffff s, l2tpv2_bytes t s @ payload)"
  using build_v2_eq [of t s "area @ payload"] assms by (simp add: length_l2tpv2_bytes)

section \<open>Reading back what was built\<close>

lemma v3_seq_word:
  fixes n :: u32
  shows "(0x40000000 OR n) AND 0x40000000 \<noteq> 0" and "(0x40000000 OR n) AND 0x00ffffff = n AND 0xffffff"
proof -
  have "bit ((0x40000000 OR n) AND 0x40000000) 30" by (simp add: bit_simps)
  then show "(0x40000000 OR n) AND 0x40000000 \<noteq> 0" by auto
  have "(0x40000000 OR n) AND 0x00ffffff = (0x40000000 AND 0x00ffffff) OR (n AND 0x00ffffff)"
    by (simp only: and.commute [of _ "0x00ffffff :: u32"] bit.conj_disj_distrib)
  then show "(0x40000000 OR n) AND 0x00ffffff = n AND 0xffffff" by simp
qed

lemma linear_prefix:
  assumes "skb_data skb = xs @ ys" and "length xs \<le> skb_headlen skb"
  shows "linear skb = xs @ take (skb_headlen skb - length xs) ys"
  using assms by simp

lemma v3_reads:
  assumes ok: "v3_ok t s" and peer: "v3_peer s s'" and v: "version t' \<noteq> L2TP_HDR_VER_2"
    and skb: "skb_data skb = (l2tpv3_bytes t s @ pad) @ payload" "length (l2tpv3_bytes t s @ pad) \<le> skb_headlen skb"
  shows "check_cookie s' skb (v3_data_off t) = Inr (Some (v3_data_off t + cookie_len s))"
    and "parse_seq t' s' skb (v3_data_off t + cookie_len s) f =
      Inr (if send_seq s \<noteq> 0 \<and> l2specific_type s = L2TP_L2SPECTYPE_DEFAULT
           then set_seq (clear_seq skb) (ns s AND 0xffffff) else clear_seq skb, v3_data_off t + cookie_len s)"
proof -
  let ?pre = "(if encap t = L2TP_ENCAPTYPE_UDP then put_be16 3 @ put_be16 0 else []) @ put_be32 (peer_session_id s)"
  let ?ck = "take (cookie_len s) (cookie s)"
  have pre: "length ?pre = v3_data_off t" by (simp add: v3_data_off_def)
  have ck: "length ?ck = cookie_len s" using ok by (simp add: v3_ok_def)
  obtain rest where lin: "linear skb = ?pre @ ?ck @ l2specific_bytes s @ rest"
    using linear_prefix [OF skb] by (simp add: l2tpv3_bytes_def)
  have "get_bytes (linear skb) (v3_data_off t) (cookie_len s) = Inr ?ck"
    unfolding lin using get_bytes_middle [of ?pre ?ck "l2specific_bytes s @ rest"] pre ck by simp
  then show "check_cookie s' skb (v3_data_off t) = Inr (Some (v3_data_off t + cookie_len s))"
    using peer by (simp add: check_cookie_def v3_peer_def) (simp add: get_bytes_def)
  have lin': "linear (clear_seq skb) = (?pre @ ?ck) @ l2specific_bytes s @ rest" using lin by simp
  have off: "v3_data_off t + cookie_len s = length (?pre @ ?ck)" using pre ck by simp
  show "parse_seq t' s' skb (v3_data_off t + cookie_len s) f =
      Inr (if send_seq s \<noteq> 0 \<and> l2specific_type s = L2TP_L2SPECTYPE_DEFAULT
           then set_seq (clear_seq skb) (ns s AND 0xffffff) else clear_seq skb, v3_data_off t + cookie_len s)"
  proof (cases "l2specific_type s = L2TP_L2SPECTYPE_DEFAULT")
    case False
    then show ?thesis using peer v by (simp add: parse_seq_def v3_peer_def Let_def)
  next
    case True
    let ?w = "if send_seq s \<noteq> 0 then 0x40000000 OR ns s else 0"
    have "l2specific_len s \<noteq> 0" using peer True by (auto simp: v3_peer_def word_le_nat_alt)
    then have "l2specific_bytes s = put_be32 ?w" using True by (simp add: l2specific_bytes_def)
    then have "get_be32 (linear (clear_seq skb)) (v3_data_off t + cookie_len s) = Inr ?w"
      unfolding lin' off using get_be32_put [of "?pre @ ?ck" ?w rest] by (simp only:)
    then show ?thesis using peer v True v3_seq_word [of "ns s"]
      by (simp add: parse_seq_def v3_peer_def Let_def)
  qed
qed

lemma pull_payload:
  assumes "skb_data skb = hdr @ payload" and "length hdr \<le> skb_headlen skb"
  shows "\<exists>skb'. skb_pull skb (length hdr) = Inr skb' \<and> skb_data skb' = payload \<and> skb_cb skb' = skb_cb skb"
  using assms by (simp add: skb_pull_def)

lemma payload_hooked:
  assumes skb: "skb_data skb = hdr @ payload" "wf_skb skb" "hook_room hook (length hdr) skb"
  obtains skb' where "recv_payload P E r skb (length hdr) len hook = recv_enqueue P E r skb' len"
    and "skb_data skb' = hook_payload hook payload" and "wf_skb skb'" and "skb_cb skb' = skb_cb skb"
proof -
  have fit: "length hdr \<le> skb_headlen skb" using skb(3) by (simp add: hook_room_def split: if_splits)
  obtain skb1 where p: "skb_pull skb (length hdr) = Inr skb1" "skb_data skb1 = payload" "skb_cb skb1 = skb_cb skb"
      "skb_headlen skb1 = skb_headlen skb - length hdr"
    using fit skb(1) by (simp add: skb_pull_def)
  have w1: "wf_skb skb1" by (rule wf_skb_pull [OF skb(2) p(1)])
  show thesis
  proof (cases hook)
    case None
    then show thesis using fit p w1 by (intro that [of skb1]) (simp_all add: recv_payload_def hook_payload_def)
  next
    case (Some h)
    then have h: "h = Pppol2tp_recv_payload_hook" by (cases h) simp
    have two: "2 \<le> skb_headlen skb1" using skb(3) Some p(4) by (simp add: hook_room_def)
    then have "2 \<le> length payload" using w1 p(2) by (simp add: wf_skb_def)
    then obtain a b pl where pl: "payload = a # b # pl" by (cases payload; cases "tl payload") auto
    show thesis
    proof (cases "a = 0xff \<and> b = 0x03")
      case True
      obtain skb2 where q: "skb_pull skb1 2 = Inr skb2" "skb_data skb2 = pl" "skb_cb skb2 = skb_cb skb1"
        using two p(2) pl by (simp add: skb_pull_def)
      show thesis using fit p two q True pl Some h wf_skb_pull [OF w1 q(1)]
        by (intro that [of skb2]) (simp_all add: recv_payload_def hook_payload_def pppol2tp_recv_payload_hook_def)
    next
      case False
      then show thesis using fit p two pl Some h w1
        by (intro that [of skb1]) (auto simp: recv_payload_def hook_payload_def pppol2tp_recv_payload_hook_def)
    qed
  qed
qed

lemma v3_body:
  assumes ok: "v3_ok t s" and peer: "v3_peer s (rx_session r)" and v: "version (rx_tunnel r) \<noteq> L2TP_HDR_VER_2"
    and skb: "skb_data skb = (l2tpv3_bytes t s @ pad) @ payload"
      "length (l2tpv3_bytes t s @ pad) = v3_hdr_len t s" "hook_room hook (v3_hdr_len t s) skb" "wf_skb skb"
    and ref: "call_ref P (rx_session r) (rx_world r) = Inr w"
    and pol: "seq_policy (rx_tunnel r) (rx_session r)
      (send_seq s \<noteq> 0 \<and> l2specific_type s = L2TP_L2SPECTYPE_DEFAULT) = Some s1"
  obtains skb' where "recv_body P E r skb (v3_data_off t) f len hook =
      recv_enqueue P E (r\<lparr>rx_world := w, rx_session := s1\<rparr>) skb' len"
    and "skb_data skb' = hook_payload hook payload" and "wf_skb skb'"
    and "skb_has_seq skb' \<longleftrightarrow> send_seq s \<noteq> 0 \<and> l2specific_type s = L2TP_L2SPECTYPE_DEFAULT"
    and "skb_has_seq skb' \<longrightarrow> skb_ns skb' = ns s AND 0xffffff"
proof -
  let ?t' = "rx_tunnel r" and ?s' = "rx_session r"
  let ?seq = "send_seq s \<noteq> 0 \<and> l2specific_type s = L2TP_L2SPECTYPE_DEFAULT"
  let ?i = "v3_data_off t + cookie_len s"
  let ?skb1 = "if ?seq then set_seq (clear_seq skb) (ns s AND 0xffffff) else clear_seq skb"
  have fit: "length (l2tpv3_bytes t s @ pad) \<le> skb_headlen skb" using skb(2,3) by (simp add: hook_room_def split: if_splits)
  note rd = v3_reads [OF ok peer v skb(1) fit]
  have d1: "skb_data ?skb1 = (l2tpv3_bytes t s @ pad) @ payload" "hook_room hook (v3_hdr_len t s) ?skb1" "wf_skb ?skb1"
    "skb_has_seq ?skb1 = ?seq" "skb_has_seq ?skb1 \<longrightarrow> skb_ns ?skb1 = ns s AND 0xffffff"
    using skb by (auto simp: hook_room_def)
  have "skip_offset ?t' s1 ?skb1 (?i + unat (l2specific_len ?s')) f = Inr (v3_hdr_len t s)"
    using v peer seq_policy_frame(11) [OF pol]
    by (simp add: skip_offset_def v3_peer_def v3_hdr_len_def v3_data_off_def)
  then have body: "recv_body P E r skb (v3_data_off t) f len hook =
      recv_payload P E (r\<lparr>rx_world := w, rx_session := s1\<rparr>) ?skb1 (v3_hdr_len t s) len hook"
    using ref rd(1) rd(2) [of f] pol d1(4) by (simp add: recv_body_def Let_def)
  show thesis
  proof (rule payload_hooked [OF d1(1,3), of hook P E "r\<lparr>rx_world := w, rx_session := s1\<rparr>" len], goal_cases)
    case 1
    then show ?case using d1(2) skb(2) by simp
  next
    case (2 skb')
    then show ?case using body [folded skb(2)] d1(4,5) by (intro that [of skb']) simp_all
  qed
qed


section \<open>Delivery in sequence\<close>

lemma stamp_fresh: "wait_ok E s \<Longrightarrow> \<not> expired E (stamp E s len skb)"
  using time_after_later [of "nat (reorder_timeout s)" "jiffies E"] time_after_later [of "HZ E" "jiffies E"]
  by (auto simp: wait_ok_def stamp_def nat_less_iff)

context pw_contract
begin

text \<open>A packet that is next in sequence, or carries no number, passes an empty queue at once.\<close>

lemma enqueue_next:
  assumes ok: "ok (rx_session r) (rx_world r)" and wf: "wf_seq (rx_session r)" "wf_skb skb" "wait_ok E (rx_session r)"
    and st: "reorder_q (rx_session r) = []" "recv_skb (rx_session r) \<noteq> None"
    and seq: "skb_has_seq skb \<longrightarrow> skb_ns skb = nr (rx_session r)"
  shows "\<exists>r' x. recv_enqueue P E r skb len = Inr r' \<and> ok (rx_session r') (rx_world r') \<and>
    rx_trace r' = rx_trace r @ [Recv_skb x] \<and> skb_data x = skb_data skb \<and> reorder_q (rx_session r') = [] \<and>
    s_ref_count (rx_session r') = s_ref_count (rx_session r) \<and>
    nr (rx_session r') = (if skb_has_seq skb then (nr (rx_session r) + 1) AND nr_max (rx_session r) else nr (rx_session r))"
proof -
  let ?s = "rx_session r" and ?x = "stamp E (rx_session r) len skb"
  let ?r = "r\<lparr>rx_session := ?s\<lparr>reorder_q := [?x]\<rparr>\<rparr>"
  have fresh: "\<not> expired E ?x" by (rule stamp_fresh [OF wf(3)])
  have enq: "recv_enqueue P E r skb len = l2tp_recv_dequeue P E ?r"
  proof (cases "skb_has_seq skb")
    case True
    have "0 < unat (nr_window_size ?s)"
      using wf(1) by (auto simp: wf_seq_def seq_space_def unat_div)
    then have "l2tp_seq_check_rx_window ?s (skb_ns skb)"
      using seq True by (simp add: l2tp_seq_check_rx_window_def word_less_nat_alt)
    then have "l2tp_recv_data_seq E ?s ?x = (False, ?s\<lparr>reorder_q := [?x]\<rparr>)"
      using st(1) seq True by (simp add: l2tp_recv_data_seq_def l2tp_recv_queue_skb_def)
    then show ?thesis using True by (simp add: recv_enqueue_def Let_def)
  qed (simp add: recv_enqueue_def Let_def st)
  have okr: "ok (rx_session ?r) (rx_world ?r)" using ok_frame [OF ok, of "?s\<lparr>reorder_q := [?x]\<rparr>"] by simp
  have q: "reorder_q (rx_session ?r) = [?x]" by simp
  show ?thesis
  proof (rule dequeue_single [where E = E, OF okr q], goal_cases)
    case (5 r')
    then show ?case using enq seq by (intro exI [of _ r'] exI [of _ "skb_orphan ?x"]) (auto simp: same_setup_def)
  qed (use wf(2) fresh st(2) seq in simp_all)
qed

end


lemma seq_policy_takes: "takes_seq s has_seq \<Longrightarrow> \<exists>s1. seq_policy t s has_seq = Some s1"
  by (auto simp: takes_seq_def seq_policy_def)

context pw_contract
begin

lemma v3_delivered:
  assumes wf: "wf_rx ok r" "v3_ok t s" "v3_peer s (rx_session r)" "version (rx_tunnel r) \<noteq> L2TP_HDR_VER_2"
    and st: "reorder_q (rx_session r) = []" "recv_skb (rx_session r) \<noteq> None" "wait_ok E (rx_session r)"
    and seq: "nr_max (rx_session r) = 0xffffff" "nr (rx_session r) = ns s"
      "takes_seq (rx_session r) (send_seq s \<noteq> 0 \<and> l2specific_type s = L2TP_L2SPECTYPE_DEFAULT)"
    and build: "length area = v3_hdr_len t s" "l2tp_build_l2tpv3_header t s (area @ payload) = Inr (n, s2, bytes)"
    and skb: "skb_data skb = bytes" "hook_room hook (v3_hdr_len t s) skb" "wf_skb skb"
  shows "\<exists>r' x. recv_body P E r skb (v3_data_off t) f len hook = Inr r' \<and>
    rx_trace r' = rx_trace r @ [Recv_skb x] \<and> skb_data x = hook_payload hook payload \<and>
    s_ref_count (rx_session r') = s_ref_count (rx_session r) \<and>
    reorder_q (rx_session r') = [] \<and> nr (rx_session r') = ns s2"
proof -
  let ?seq = "send_seq s \<noteq> 0 \<and> l2specific_type s = L2TP_L2SPECTYPE_DEFAULT"
  let ?s' = "rx_session r"
  have ok: "ok ?s' (rx_world r)" and wq: "wf_seq ?s'" using wf(1) by (simp_all add: wf_rx_def)
  obtain w where w: "call_ref P ?s' (rx_world r) = Inr w" "ok ?s' w" using call_ref_returns [OF ok] by blast
  obtain s1 where pol: "seq_policy (rx_tunnel r) ?s' ?seq = Some s1"
    using seq_policy_takes [OF seq(3)] by blast
  note fr = seq_policy_frame [OF pol]
  have ref: "s_ref_count s1 = s_ref_count ?s'"
    using pol by (auto simp: seq_policy_def l2tp_session_set_header_len_def split: if_splits)
  define pad where "pad = drop (length (l2tpv3_bytes t s)) area"
  have b: "bytes = (l2tpv3_bytes t s @ pad) @ payload" "s2 = next_ns_v3 s"
    using build_v3_area [OF wf(2) build(1), of payload] build(2) by (simp_all add: pad_def)
  have lpad: "length (l2tpv3_bytes t s @ pad) = v3_hdr_len t s"
    using length_l2tpv3_bytes [OF wf(2)] build(1) by (simp add: pad_def)
  have "skb_data skb = (l2tpv3_bytes t s @ pad) @ payload" using skb(1) b(1) by simp
  then obtain skb' where k: "recv_body P E r skb (v3_data_off t) f len hook =
      recv_enqueue P E (r\<lparr>rx_world := w, rx_session := s1\<rparr>) skb' len"
    "skb_data skb' = hook_payload hook payload" "wf_skb skb'" "skb_has_seq skb' \<longleftrightarrow> ?seq"
    "skb_has_seq skb' \<longrightarrow> skb_ns skb' = ns s AND 0xffffff"
    by (rule v3_body [OF wf(2,3,4) _ lpad skb(2,3) w(1) pol])
  have nsM: "ns s AND 0xffffff = ns s"
    using wq seq(1,2) seq_v3.and_id [of "ns s"] by (simp add: wf_seq_def)
  have "ok s1 w" by (rule ok_frame [OF w(2)]) (simp_all add: fr)
  then have "\<exists>r' x. recv_enqueue P E (r\<lparr>rx_world := w, rx_session := s1\<rparr>) skb' len = Inr r' \<and>
      ok (rx_session r') (rx_world r') \<and> rx_trace r' = rx_trace r @ [Recv_skb x] \<and> skb_data x = skb_data skb' \<and>
      reorder_q (rx_session r') = [] \<and> s_ref_count (rx_session r') = s_ref_count s1 \<and>
      nr (rx_session r') = (if skb_has_seq skb' then (nr ?s' + 1) AND nr_max ?s' else nr ?s')"
    using enqueue_next [of "r\<lparr>rx_world := w, rx_session := s1\<rparr>" skb' E len] fr wq k(3,5) st seq(2) nsM
    by (cases "skb_has_seq skb'") (simp_all add: wait_ok_def)
  moreover have "ns s2 = (if ?seq then (ns s + 1) AND 0xffffff else ns s)"
    using wf(3) by (auto simp: b(2) next_ns_v3_def next_ns_def v3_peer_def word_le_nat_alt)
  ultimately show ?thesis using k ref seq(1,2) by auto
qed

end


text \<open>The same for version 2, where the numbers follow the session id and the flags say so.\<close>

lemma v2_reads:
  assumes v: "version t' = L2TP_HDR_VER_2" and s': "peer_cookie_len s' = 0"
    and skb: "skb_data skb = l2tpv2_bytes t s @ payload" "length (l2tpv2_bytes t s) \<le> skb_headlen skb"
  shows "check_cookie s' skb 6 = Inr (Some 6)"
    and "parse_seq t' s' skb 6 (v2_flags s) =
      Inr (if send_seq s \<noteq> 0 then (set_seq (clear_seq skb) (ucast (ucast (ns s) :: u16)), 10) else (clear_seq skb, 6))"
proof -
  show "check_cookie s' skb 6 = Inr (Some 6)" using s' by (simp add: check_cookie_def)
  obtain rest where lin: "linear (clear_seq skb) = l2tpv2_bytes t s @ rest" using linear_prefix [OF skb] by simp
  show "parse_seq t' s' skb 6 (v2_flags s) =
      Inr (if send_seq s \<noteq> 0 then (set_seq (clear_seq skb) (ucast (ucast (ns s) :: u16)), 10) else (clear_seq skb, 6))"
  proof (cases "send_seq s = 0")
    case True
    then show ?thesis using v by (simp add: parse_seq_def v2_flags_def Let_def)
  next
    case False
    let ?pre = "put_be16 (2 OR L2TP_HDRFLAG_S) @ put_be16 (ucast (peer_tunnel_id t)) @ put_be16 (ucast (peer_session_id s))"
    have bytes: "l2tpv2_bytes t s @ rest = ?pre @ put_be16 (ucast (ns s)) @ put_be16 0 @ rest"
      using False by (simp add: l2tpv2_bytes_def)
    have "get_be16 (linear (clear_seq skb)) 6 = Inr (ucast (ns s))"
      unfolding lin bytes using get_be16_put [of ?pre "ucast (ns s)" "put_be16 0 @ rest"] by simp
    moreover have "get_be16 (linear (clear_seq skb)) 8 = Inr 0"
      unfolding lin bytes using get_be16_put [of "?pre @ put_be16 (ucast (ns s))" 0 rest] by simp
    ultimately show ?thesis using v False by (simp add: parse_seq_def v2_flags_def Let_def)
  qed
qed

lemma v2_body:
  assumes v: "version (rx_tunnel r) = L2TP_HDR_VER_2"
    and s': "peer_cookie_len (rx_session r) = 0" "l2specific_len (rx_session r) = 0"
    and skb: "skb_data skb = l2tpv2_bytes t s @ payload" "hook_room hook (length (l2tpv2_bytes t s)) skb" "wf_skb skb"
    and ref: "call_ref P (rx_session r) (rx_world r) = Inr w"
    and pol: "seq_policy (rx_tunnel r) (rx_session r) (send_seq s \<noteq> 0) = Some s1"
  obtains skb' where "recv_body P E r skb 6 (v2_flags s) len hook =
      recv_enqueue P E (r\<lparr>rx_world := w, rx_session := s1\<rparr>) skb' len"
    and "skb_data skb' = hook_payload hook payload" and "wf_skb skb'" and "skb_has_seq skb' \<longleftrightarrow> send_seq s \<noteq> 0"
    and "skb_has_seq skb' \<longrightarrow> skb_ns skb' = ucast (ucast (ns s) :: u16)"
proof -
  let ?skb1 = "if send_seq s \<noteq> 0 then set_seq (clear_seq skb) (ucast (ucast (ns s) :: u16)) else clear_seq skb"
  let ?n = "length (l2tpv2_bytes t s)"
  have fit: "?n \<le> skb_headlen skb" using skb(2) by (simp add: hook_room_def split: if_splits)
  note rd = v2_reads [OF v s'(1) skb(1) fit]
  have d1: "skb_data ?skb1 = l2tpv2_bytes t s @ payload" "hook_room hook ?n ?skb1" "wf_skb ?skb1"
    "skb_has_seq ?skb1 = (send_seq s \<noteq> 0)" using skb by (auto simp: hook_room_def)
  have "skip_offset (rx_tunnel r) s1 ?skb1 ?n (v2_flags s) = Inr ?n"
    using v by (simp add: skip_offset_def v2_flags_def)
  then have body: "recv_body P E r skb 6 (v2_flags s) len hook =
      recv_payload P E (r\<lparr>rx_world := w, rx_session := s1\<rparr>) ?skb1 ?n len hook"
    using ref rd pol s'(2) length_l2tpv2_bytes [of t s]
    by (cases "send_seq s = 0") (simp_all add: recv_body_def Let_def)
  show thesis
  proof (rule payload_hooked [OF d1(1,3,2), of P E "r\<lparr>rx_world := w, rx_session := s1\<rparr>" len], goal_cases)
    case (1 skb')
    then show ?case using body d1(4) by (intro that [of skb']) simp_all
  qed
qed


context pw_contract
begin

lemma v2_delivered:
  assumes wf: "wf_rx ok r" "version (rx_tunnel r) = L2TP_HDR_VER_2"
      "peer_cookie_len (rx_session r) = 0" "l2specific_len (rx_session r) = 0"
    and st: "reorder_q (rx_session r) = []" "recv_skb (rx_session r) \<noteq> None" "wait_ok E (rx_session r)"
    and seq: "nr_max (rx_session r) = 0xffff" "nr (rx_session r) = ns s"
      "takes_seq (rx_session r) (send_seq s \<noteq> 0)"
    and build: "length area = (if send_seq s \<noteq> 0 then 10 else 6)"
      "l2tp_build_l2tpv2_header t s (area @ payload) = Inr (n, s2, bytes)"
    and skb: "skb_data skb = bytes" "hook_room hook (length area) skb" "wf_skb skb"
  shows "\<exists>r' x. recv_body P E r skb 6 (v2_flags s) len hook = Inr r' \<and>
    rx_trace r' = rx_trace r @ [Recv_skb x] \<and> skb_data x = hook_payload hook payload \<and>
    s_ref_count (rx_session r') = s_ref_count (rx_session r) \<and>
    reorder_q (rx_session r') = [] \<and> nr (rx_session r') = ns s2"
proof -
  let ?s' = "rx_session r"
  have ok: "ok ?s' (rx_world r)" and wq: "wf_seq ?s'" using wf(1) by (simp_all add: wf_rx_def)
  obtain w where w: "call_ref P ?s' (rx_world r) = Inr w" "ok ?s' w" using call_ref_returns [OF ok] by blast
  obtain s1 where pol: "seq_policy (rx_tunnel r) ?s' (send_seq s \<noteq> 0) = Some s1"
    using seq_policy_takes [OF seq(3)] by blast
  note fr = seq_policy_frame [OF pol]
  have ref: "s_ref_count s1 = s_ref_count ?s'"
    using pol by (auto simp: seq_policy_def l2tp_session_set_header_len_def split: if_splits)
  have b: "bytes = l2tpv2_bytes t s @ payload" "s2 = next_ns 0xffff s"
    using build_v2_area [OF build(1), of t payload] build(2) by simp_all
  have len: "hook_room hook (length (l2tpv2_bytes t s)) skb" using skb(2) build(1) by (simp add: length_l2tpv2_bytes)
  have "skb_data skb = l2tpv2_bytes t s @ payload" using skb(1) b(1) by simp
  then obtain skb' where k: "recv_body P E r skb 6 (v2_flags s) len hook =
      recv_enqueue P E (r\<lparr>rx_world := w, rx_session := s1\<rparr>) skb' len"
    "skb_data skb' = hook_payload hook payload" "wf_skb skb'" "skb_has_seq skb' \<longleftrightarrow> send_seq s \<noteq> 0"
    "skb_has_seq skb' \<longrightarrow> skb_ns skb' = ucast (ucast (ns s) :: u16)"
    by (rule v2_body [OF wf(2-4) _ len skb(3) w(1) pol])
  have "ns s \<le> 0xffff" using wq seq(1,2) by (simp add: wf_seq_def)
  then have nsM: "ucast (ucast (ns s) :: u16) = ns s"
    by (simp add: word_unat_eq_iff word_le_nat_alt unsigned_ucast_eq unsigned_take_bit_eq take_bit_nat_eq_self)
  have "ok s1 w" by (rule ok_frame [OF w(2)]) (simp_all add: fr)
  then have "\<exists>r' x. recv_enqueue P E (r\<lparr>rx_world := w, rx_session := s1\<rparr>) skb' len = Inr r' \<and>
      ok (rx_session r') (rx_world r') \<and> rx_trace r' = rx_trace r @ [Recv_skb x] \<and> skb_data x = skb_data skb' \<and>
      reorder_q (rx_session r') = [] \<and> s_ref_count (rx_session r') = s_ref_count s1 \<and>
      nr (rx_session r') = (if skb_has_seq skb' then (nr ?s' + 1) AND nr_max ?s' else nr ?s')"
    using enqueue_next [of "r\<lparr>rx_world := w, rx_session := s1\<rparr>" skb' E len] fr wq k(3,5) st seq(2) nsM
    by (cases "skb_has_seq skb'") (simp_all add: wait_ok_def)
  then show ?thesis using k ref seq(1,2) b(2) by (auto simp: next_ns_def)
qed

end

section \<open>Properties\<close>

text \<open>
  C8: the header a session builds, byte by byte. The buffer in front of the payload has
  \<^verbatim>\<open>session->hdr_len\<close> bytes, as \<^verbatim>\<open>l2tp_session_set_header_len\<close> computed it, and the builder is
  that of the tunnel's version. A version 2 header fills all of it: the flags with the version
  and, when the session numbers its packets, the S bit, the peer's two ids and, with the S bit,
  Ns and a zero Nr; the result counts 16-bit units. For version 3 the cookie must lie in its array,
  a default sublayer must have length 0 or at least 4, and the header must be shorter than 2 to
  the 16, where the length field wraps. Its header is, over UDP, the version in the flags word and a reserved
  word, then the peer's session id, the cookie and, for a default sublayer, the word with
  the S bit and Ns, or zero when the session does not number its packets. The bytes of the
  sublayer behind that word and the offset are left as they
  were in the buffer; the result counts all of \<open>hdr_len\<close>. Neither touches the payload. Of
  the session only \<open>ns\<close> changes, by one and within its 16 or 24 bits, and only when a number was sent.
\<close>

theorem build_header_fills_hdr_len:
  assumes "s = l2tp_session_set_header_len t s0 (version t)"
    and "build_header s = (if version t = L2TP_HDR_VER_2 then L2tp_build_l2tpv2_header else L2tp_build_l2tpv3_header)"
    and "version t \<noteq> L2TP_HDR_VER_2 \<longrightarrow> cookie_len s \<le> length (cookie s)"
    and "version t \<noteq> L2TP_HDR_VER_2 \<longrightarrow> (if encap t = L2TP_ENCAPTYPE_UDP then 4 else 0) + 4 + cookie_len s
           + unat (l2specific_len s) + unat (s_offset s) < 2 ^ 16"
    and "version t \<noteq> L2TP_HDR_VER_2 \<longrightarrow> l2specific_type s = L2TP_L2SPECTYPE_DEFAULT \<longrightarrow>
           l2specific_len s = 0 \<or> 4 \<le> l2specific_len s"
    and "length area = unat (hdr_len s)"
    and "seq = (send_seq s \<noteq> 0)"
    and "v2 = put_be16 (if seq then 2 OR L2TP_HDRFLAG_S else 2) @ put_be16 (ucast (peer_tunnel_id t)) @
           put_be16 (ucast (peer_session_id s)) @ (if seq then put_be16 (ucast (ns s)) @ put_be16 0 else [])"
    and "sub = (l2specific_type s = L2TP_L2SPECTYPE_DEFAULT \<and> l2specific_len s \<noteq> 0)"
    and "v3 = (if encap t = L2TP_ENCAPTYPE_UDP then put_be16 3 @ put_be16 0 else []) @ put_be32 (peer_session_id s) @
           take (cookie_len s) (cookie s) @ (if sub then put_be32 (if seq then 0x40000000 OR ns s else 0) else [])"
  shows "call_build_header (build_header s) t s (area @ payload) =
     (if version t = L2TP_HDR_VER_2
      then Inr (int (unat (hdr_len s)) div 2, s\<lparr>ns := if seq then (ns s + 1) AND 0xffff else ns s\<rparr>, v2 @ payload)
      else Inr (int (unat (hdr_len s)), s\<lparr>ns := if seq \<and> sub then (ns s + 1) AND 0xffffff else ns s\<rparr>,
                (v3 @ drop (length v3) area) @ payload)) \<and>
    (if version t = L2TP_HDR_VER_2 then length v2 = unat (hdr_len s) else length v3 \<le> unat (hdr_len s))"
proof -
  have v2: "v2 = l2tpv2_bytes t s" and v3: "v3 = l2tpv3_bytes t s"
    using assms(7-10) by (auto simp: l2tpv2_bytes_def l2tpv3_bytes_def l2specific_bytes_def)
  have seq: "(if seq then (ns s + 1) AND 0xffff else ns s) = ns (next_ns 0xffff s)"
      "(if seq \<and> sub then (ns s + 1) AND 0xffffff else ns s) = ns (next_ns_v3 s)"
    using assms(7,9) by (auto simp: next_ns_def next_ns_v3_def)
  have upd: "s\<lparr>ns := ns (next_ns 0xffff s)\<rparr> = next_ns 0xffff s" "s\<lparr>ns := ns (next_ns_v3 s)\<rparr> = next_ns_v3 s"
    by (simp_all add: next_ns_def next_ns_v3_def)
  have two: "length area = (if send_seq s \<noteq> 0 then 10 else 6)" if "version t = L2TP_HDR_VER_2"
    using that assms(1,6) by (simp add: l2tp_session_set_header_len_def)
  have three: "v3_ok t s \<and> length area = v3_hdr_len t s" if v: "version t \<noteq> L2TP_HDR_VER_2"
  proof -
    have ok: "v3_ok t s" using assms(3-5) v by (simp add: v3_ok_def v3_hdr_len_def)
    have "v3_hdr_len t s = v3_hdr_len t s0"
      using assms(1) by (simp add: v3_hdr_len_def l2tp_session_set_header_len_def)
    then show ?thesis using ok set_header_len_v3 [OF v, of t s0] assms(1,6) by (simp add: v3_ok_def)
  qed
  have "call_build_header (build_header s) t s (area @ payload) =
     (if version t = L2TP_HDR_VER_2
      then Inr (int (unat (hdr_len s)) div 2, s\<lparr>ns := if seq then (ns s + 1) AND 0xffff else ns s\<rparr>, v2 @ payload)
      else Inr (int (unat (hdr_len s)), s\<lparr>ns := if seq \<and> sub then (ns s + 1) AND 0xffffff else ns s\<rparr>,
                (v3 @ drop (length v3) area) @ payload))"
    unfolding seq upd v2 v3
    using two three build_v2_area [of area s t payload] build_v3_area [of t s area payload] assms(2,6)
    by (cases "version t = L2TP_HDR_VER_2") simp_all
  moreover have "if version t = L2TP_HDR_VER_2 then length v2 = unat (hdr_len s) else length v3 \<le> unat (hdr_len s)"
    using two three length_l2tpv3_bytes [of t s] assms(6) by (simp add: v2 v3 length_l2tpv2_bytes)
  ultimately show ?thesis by blast
qed

theorem build_header_fills_hdr_len_witness:
  "call_build_header (build_header sample_session) sample_tunnel sample_session (replicate 16 0 @ [0xaa, 0xbb]) =
     Inr (16, sample_session\<lparr>ns := 1\<rparr>, [0, 3, 0, 0, 0, 0, 0, 9, 1, 2, 3, 4, 0x40, 0, 0, 0, 0xaa, 0xbb])"
  using build_header_fills_hdr_len [of sample_session sample_tunnel sample_session "replicate 16 0" True _ True _ "[0xaa, 0xbb]"]
  by (simp add: v3_ok_def v3_hdr_len_def l2tp_session_set_header_len_def put_be16_def put_be32_def)

end
