(* ===== verification/L2tp_Heap.thy ===== *)
theory L2tp_Heap
  imports L2tp_Wire
begin

unbundle bit_operations_syntax

text \<open>
  The heap of the L2TP modules: tunnels and sessions by address, the per-namespace lists,
  the module's counters, the queue of tunnels waiting for \<^verbatim>\<open>l2tp_tunnel_del_work\<close> and the
  tunnels waiting for an RCU grace period. On it, the lookups of \<^verbatim>\<open>l2tp_core.c\<close>, reference
  counting, and the two kinds of hash table of sessions, whose laws are the locale
  \<open>session_hash\<close>.

  A socket whose count drops to zero stays in the store until its destructor runs, which
  is an operation of its own (\<^verbatim>\<open>sk_free\<close> in the lifecycle theory); in the kernel the last
  \<^verbatim>\<open>sock_put\<close> runs it. An access through a pointer to an object that is no longer in the
  store is the fault \<open>UseAfterFree\<close>.
\<close>

section \<open>State\<close>

record kst =
  k_tunnels :: "ptr \<Rightarrow> l2tp_tunnel option"
  k_sessions :: "ptr \<Rightarrow> l2tp_session option"
  k_world :: world
  k_nets :: "nat \<Rightarrow> l2tp_pernet"
  l2tp_tunnel_count :: int
  l2tp_session_count :: int
  l2tp_wq :: "ptr list"
  k_rcu :: "ptr list"
  k_wskbs :: "sk_buff list"
  k_trace :: "skb_event list"
  k_next :: ptr
  l2tp_nl_cmd_ops :: "nat \<Rightarrow> nl_cmd_ops option"

abbreviation (input) L2TP_HASH_BITS :: nat where "L2TP_HASH_BITS \<equiv> 4"
abbreviation (input) L2TP_HASH_SIZE :: nat where "L2TP_HASH_SIZE \<equiv> 16"
abbreviation (input) L2TP_HASH_BITS_2 :: nat where "L2TP_HASH_BITS_2 \<equiv> 8"
abbreviation (input) L2TP_HASH_SIZE_2 :: nat where "L2TP_HASH_SIZE_2 \<equiv> 256"

definition set_tunnel :: "ptr \<Rightarrow> l2tp_tunnel \<Rightarrow> kst \<Rightarrow> kst" where
  "set_tunnel p t st = st\<lparr>k_tunnels := (k_tunnels st)(p \<mapsto> t)\<rparr>"

definition set_session :: "ptr \<Rightarrow> l2tp_session \<Rightarrow> kst \<Rightarrow> kst" where
  "set_session p s st = st\<lparr>k_sessions := (k_sessions st)(p \<mapsto> s)\<rparr>"

definition on_world :: "(world \<Rightarrow> world kres) \<Rightarrow> kst \<Rightarrow> kst kres" where
  "on_world f st = bind_res (f (k_world st)) (\<lambda>w. Inr (st\<lparr>k_world := w\<rparr>))"

definition upd_net :: "nat \<Rightarrow> (l2tp_pernet \<Rightarrow> l2tp_pernet) \<Rightarrow> kst \<Rightarrow> kst" where
  "upd_net n f st = st\<lparr>k_nets := (k_nets st)(n := f (k_nets st n))\<rparr>"

section \<open>Lookups\<close>

text \<open>The walk along a chain that reads every entry until one matches.\<close>

fun chain_find :: "(ptr \<Rightarrow> 'a option) \<Rightarrow> ('a \<Rightarrow> bool) \<Rightarrow> ptr list \<Rightarrow> ptr option kres" where
  "chain_find h P [] = Inr None"
| "chain_find h P (p # ps) =
     bind_res (deref_ptr h (Some p)) (\<lambda>(a, x). if P x then Inr (Some a) else chain_find h P ps)"

text \<open>The same over the chains of a table, and the walk to the entry with a given index.\<close>

fun table_find :: "(ptr \<Rightarrow> 'a option) \<Rightarrow> ('a \<Rightarrow> bool) \<Rightarrow> ptr list list \<Rightarrow> ptr option kres" where
  "table_find h P [] = Inr None"
| "table_find h P (c # cs) =
     bind_res (chain_find h P c) (\<lambda>r. case r of Some a \<Rightarrow> Inr (Some a) | None \<Rightarrow> table_find h P cs)"

fun chain_nth :: "nat \<Rightarrow> nat \<Rightarrow> ptr list \<Rightarrow> nat + ptr" where
  "chain_nth n cnt [] = Inl cnt"
| "chain_nth n cnt (p # ps) = (if cnt + 1 > n then Inr p else chain_nth n (cnt + 1) ps)"

fun table_nth :: "nat \<Rightarrow> nat \<Rightarrow> ptr list list \<Rightarrow> ptr option" where
  "table_nth n cnt [] = None"
| "table_nth n cnt (c # cs) = (case chain_nth n cnt c of Inr p \<Rightarrow> Some p | Inl k \<Rightarrow> table_nth n k cs)"

definition l2tp_session_id_hash_2 :: "kenv \<Rightarrow> u32 \<Rightarrow> nat" where
  "l2tp_session_id_hash_2 E sid = hash_32 E sid L2TP_HASH_BITS_2"

definition l2tp_session_id_hash :: "kenv \<Rightarrow> u32 \<Rightarrow> nat" where
  "l2tp_session_id_hash E sid = hash_32 E sid L2TP_HASH_BITS"

definition l2tp_session_find_2 :: "kenv \<Rightarrow> nat \<Rightarrow> u32 \<Rightarrow> kst \<Rightarrow> ptr option kres" where
  "l2tp_session_find_2 E net sid st =
     chain_find (k_sessions st) (\<lambda>s. session_id s = sid)
       (l2tp_session_hlist (k_nets st net) ! l2tp_session_id_hash_2 E sid)"

definition l2tp_session_find :: "kenv \<Rightarrow> nat \<Rightarrow> ptr option \<Rightarrow> u32 \<Rightarrow> kst \<Rightarrow> ptr option kres" where
  "l2tp_session_find E net tp sid st =
     (case tp of
        None \<Rightarrow> l2tp_session_find_2 E net sid st
      | Some a \<Rightarrow> bind_res (deref_ptr (k_tunnels st) (Some a)) (\<lambda>(_, t).
          chain_find (k_sessions st) (\<lambda>s. session_id s = sid) (session_hlist t ! l2tp_session_id_hash E sid)))"

definition l2tp_session_find_nth :: "ptr \<Rightarrow> nat \<Rightarrow> kst \<Rightarrow> ptr option kres" where
  "l2tp_session_find_nth tp n st =
     bind_res (deref_ptr (k_tunnels st) (Some tp)) (\<lambda>(_, t). Inr (table_nth n 0 (session_hlist t)))"

definition l2tp_session_find_by_ifname :: "nat \<Rightarrow> string \<Rightarrow> kst \<Rightarrow> ptr option kres" where
  "l2tp_session_find_by_ifname net name st =
     table_find (k_sessions st) (\<lambda>s. ifname s = name) (l2tp_session_hlist (k_nets st net))"

definition l2tp_tunnel_find :: "nat \<Rightarrow> u32 \<Rightarrow> kst \<Rightarrow> ptr option kres" where
  "l2tp_tunnel_find net sid st =
     chain_find (k_tunnels st) (\<lambda>t. tunnel_id t = sid) (l2tp_tunnel_list (k_nets st net))"

definition l2tp_tunnel_find_nth :: "nat \<Rightarrow> nat \<Rightarrow> kst \<Rightarrow> ptr option" where
  "l2tp_tunnel_find_nth net n st =
     (case chain_nth n 0 (l2tp_tunnel_list (k_nets st net)) of Inr p \<Rightarrow> Some p | Inl _ \<Rightarrow> None)"

section \<open>Hash chains\<close>

text \<open>\<^verbatim>\<open>hlist_add_head\<close> on a bucket, \<^verbatim>\<open>hlist_del_init\<close> on an entry wherever it is linked.\<close>

definition hlist_add_head :: "nat \<Rightarrow> ptr \<Rightarrow> ptr list list \<Rightarrow> ptr list list" where
  "hlist_add_head h p tbl = tbl[h := p # tbl ! h]"

definition hlist_del_init :: "ptr \<Rightarrow> ptr list list \<Rightarrow> ptr list list" where
  "hlist_del_init p tbl = map (filter (\<lambda>q. q \<noteq> p)) tbl"

section \<open>Reference counts\<close>

definition l2tp_tunnel_inc_refcount :: "ptr \<Rightarrow> kst \<Rightarrow> kst kres" where
  "l2tp_tunnel_inc_refcount p st =
     bind_res (deref_ptr (k_tunnels st) (Some p)) (\<lambda>(a, t).
       Inr (set_tunnel a (t\<lparr>t_ref_count := t_ref_count t + 1\<rparr>) st))"

definition l2tp_tunnel_free :: "ptr \<Rightarrow> kst \<Rightarrow> kst kres" where
  "l2tp_tunnel_free p st =
     bind_res (deref_ptr (k_tunnels st) (Some p)) (\<lambda>(a, t).
     bind_res (require BugOn (t_ref_count t = 0)) (\<lambda>_.
     bind_res (require BugOn (t_sock t = None)) (\<lambda>_.
       Inr (st\<lparr>k_rcu := k_rcu st @ [a]\<rparr>))))"

definition l2tp_tunnel_dec_refcount :: "ptr \<Rightarrow> kst \<Rightarrow> kst kres" where
  "l2tp_tunnel_dec_refcount p st =
     bind_res (deref_ptr (k_tunnels st) (Some p)) (\<lambda>(a, t).
       let st' = set_tunnel a (t\<lparr>t_ref_count := t_ref_count t - 1\<rparr>) st
       in if t_ref_count t - 1 = 0 then l2tp_tunnel_free a st' else Inr st')"

text \<open>The RCU callback: the tunnel's memory is given back.\<close>

definition free_percpu_and_l2tp_tunnel :: "ptr \<Rightarrow> kst \<Rightarrow> kst" where
  "free_percpu_and_l2tp_tunnel p st =
     st\<lparr>k_rcu := remove1 p (k_rcu st), k_tunnels := (k_tunnels st)(p := None)\<rparr>"

definition l2tp_session_free :: "ptr \<Rightarrow> kst \<Rightarrow> kst kres" where
  "l2tp_session_free p st =
     bind_res (deref_ptr (k_sessions st) (Some p)) (\<lambda>(a, s).
     bind_res (require BugOn (s_ref_count s = 0)) (\<lambda>_.
     bind_res
       (case s_tunnel s of
          None \<Rightarrow> Inr st
        | Some tp \<Rightarrow>
            bind_res (deref_ptr (k_tunnels st) (Some tp)) (\<lambda>(b, t).
            bind_res (require BugOn (t_magic t = L2TP_TUNNEL_MAGIC)) (\<lambda>_.
            bind_res (on_world (sock_put (t_sock t))
                (if session_id s \<noteq> 0 then st\<lparr>l2tp_session_count := l2tp_session_count st - 1\<rparr> else st))
              (\<lambda>st1. l2tp_tunnel_dec_refcount b st1))))
       (\<lambda>st2. Inr (st2\<lparr>k_sessions := (k_sessions st2)(a := None)\<rparr>))))"

definition l2tp_session_inc_refcount :: "ptr \<Rightarrow> kst \<Rightarrow> kst kres" where
  "l2tp_session_inc_refcount p st =
     bind_res (deref_ptr (k_sessions st) (Some p)) (\<lambda>(a, s).
       Inr (set_session a (s\<lparr>s_ref_count := s_ref_count s + 1\<rparr>) st))"

definition l2tp_session_dec_refcount :: "ptr \<Rightarrow> kst \<Rightarrow> kst kres" where
  "l2tp_session_dec_refcount p st =
     bind_res (deref_ptr (k_sessions st) (Some p)) (\<lambda>(a, s).
       let st' = set_session a (s\<lparr>s_ref_count := s_ref_count s - 1\<rparr>) st
       in if s_ref_count s - 1 = 0 then l2tp_session_free a st' else Inr st')"

text \<open>
  \<^verbatim>\<open>l2tp_sock_to_tunnel\<close>. What \<^verbatim>\<open>sk_user_data\<close> points to may be a tunnel or, on a PPP socket,
  a session; the \<^verbatim>\<open>BUG_ON\<close> on the magic number tells them apart.
\<close>

definition user_magic :: "kst \<Rightarrow> ptr \<Rightarrow> u32 kres" where
  "user_magic st p =
     (case k_tunnels st p of
        Some t \<Rightarrow> Inr (t_magic t)
      | None \<Rightarrow> (case k_sessions st p of Some s \<Rightarrow> Inr (s_magic s) | None \<Rightarrow> Inl UseAfterFree))"

definition l2tp_sock_to_tunnel :: "ptr option \<Rightarrow> kst \<Rightarrow> (ptr option \<times> kst) kres" where
  "l2tp_sock_to_tunnel skp st =
     (case skp of
        None \<Rightarrow> Inr (None, st)
      | Some a \<Rightarrow>
          bind_res (on_world (sock_hold (Some a)) st) (\<lambda>st1.
          bind_res (deref_ptr (socks (k_world st1)) (Some a)) (\<lambda>(_, sk).
          case sk_user_data sk of
            None \<Rightarrow> bind_res (on_world (sock_put (Some a)) st1) (\<lambda>st2. Inr (None, st2))
          | Some tp \<Rightarrow>
              bind_res (user_magic st1 tp) (\<lambda>m.
              bind_res (require BugOn (m = L2TP_TUNNEL_MAGIC)) (\<lambda>_. Inr (Some tp, st1))))))"

section \<open>The laws of the hash tables\<close>

text \<open>
  A table of sessions in order: every entry is a live session in the bucket of its id, and
  no session is linked twice.
\<close>

definition table_ok :: "(ptr \<Rightarrow> l2tp_session option) \<Rightarrow> (u32 \<Rightarrow> nat) \<Rightarrow> nat \<Rightarrow> ptr list list \<Rightarrow> bool" where
  "table_ok h f n tbl \<longleftrightarrow> length tbl = n \<and> distinct (concat tbl) \<and>
     (\<forall>b < n. \<forall>p \<in> set (tbl ! b). \<exists>s. h p = Some s \<and> f (session_id s) = b)"

definition linked :: "ptr list list \<Rightarrow> ptr set" where
  "linked tbl = set (concat tbl)"

lemma chain_find_returns:
  assumes "\<forall>p \<in> set ps. h p \<noteq> None"
  shows "chain_find h P ps = Inr (find (\<lambda>p. P (the (h p))) ps)"
  using assms by (induction ps) auto

lemma chain_nth_cases:
  "n \<ge> cnt \<Longrightarrow> chain_nth n cnt ps = (if n - cnt < length ps then Inr (ps ! (n - cnt)) else Inl (cnt + length ps))"
proof (induction ps arbitrary: cnt)
  case Nil
  then show ?case by simp
next
  case (Cons p ps)
  show ?case
  proof (cases "n = cnt")
    case True
    then show ?thesis by simp
  next
    case False
    then have "Suc cnt \<le> n" "n - cnt = Suc (n - Suc cnt)" using Cons.prems by simp_all
    then show ?thesis using Cons.IH [of "Suc cnt"] by simp
  qed
qed

text \<open>The walk by index is indexing into the chains put one after the other.\<close>

lemma table_nth_concat:
  "n \<ge> cnt \<Longrightarrow> table_nth n cnt tbl = (if n - cnt < length (concat tbl) then Some (concat tbl ! (n - cnt)) else None)"
proof (induction tbl arbitrary: cnt)
  case Nil
  then show ?case by simp
next
  case (Cons c tbl)
  show ?case
  proof (cases "n - cnt < length c")
    case True
    then show ?thesis using Cons.prems by (simp add: chain_nth_cases nth_append)
  next
    case False
    then have "cnt + length c \<le> n" using Cons.prems by simp
    with False Cons show ?thesis by (auto simp: chain_nth_cases nth_append)
  qed
qed

lemma linked_add [simp]: "b < length tbl \<Longrightarrow> linked (hlist_add_head b p tbl) = insert p (linked tbl)"
proof -
  assume b: "b < length tbl"
  have "tbl = take b tbl @ tbl ! b # drop (Suc b) tbl" by (rule id_take_nth_drop [OF b])
  then have "concat tbl = concat (take b tbl) @ tbl ! b @ concat (drop (Suc b) tbl)"
    by (metis concat.simps(2) concat_append)
  moreover have "concat (hlist_add_head b p tbl) = concat (take b tbl) @ p # tbl ! b @ concat (drop (Suc b) tbl)"
    using b by (simp add: hlist_add_head_def upd_conv_take_nth_drop)
  ultimately show ?thesis by (simp add: linked_def)
qed

lemma concat_del: "concat (hlist_del_init p tbl) = filter (\<lambda>q. q \<noteq> p) (concat tbl)"
  by (simp add: hlist_del_init_def filter_concat)

lemma linked_del [simp]: "linked (hlist_del_init p tbl) = linked tbl - {p}"
  unfolding linked_def concat_del by auto

lemma distinct_add:
  assumes b: "b < length tbl" and "distinct (concat tbl)" and "p \<notin> linked tbl"
  shows "distinct (concat (hlist_add_head b p tbl))"
proof -
  have "tbl = take b tbl @ tbl ! b # drop (Suc b) tbl" by (rule id_take_nth_drop [OF b])
  then have c: "concat tbl = concat (take b tbl) @ tbl ! b @ concat (drop (Suc b) tbl)"
    by (metis concat.simps(2) concat_append)
  have "concat (hlist_add_head b p tbl) = concat (take b tbl) @ p # tbl ! b @ concat (drop (Suc b) tbl)"
    using b by (simp add: hlist_add_head_def upd_conv_take_nth_drop)
  moreover have "p \<notin> set (concat tbl)" using assms(3) unfolding linked_def .
  ultimately show ?thesis using assms(2) unfolding c by auto
qed

lemma table_ok_add [wf_intros]:
  assumes "table_ok h f n tbl" and "p \<notin> linked tbl" and "f (session_id s) < n"
  shows "table_ok (h(p \<mapsto> s)) f n (hlist_add_head (f (session_id s)) p tbl)"
proof -
  have len: "length tbl = n" using assms(1) by (simp add: table_ok_def)
  have out: "q \<noteq> p" if "b < n" "q \<in> set (tbl ! b)" for q b
    using that assms(2) len by (auto simp: linked_def)
  have "\<exists>s'. (h(p \<mapsto> s)) q = Some s' \<and> f (session_id s') = b"
    if "b < n" "q \<in> set (hlist_add_head (f (session_id s)) p tbl ! b)" for q b
    using that assms(1,3) len out [OF that(1)]
    by (cases "b = f (session_id s)") (auto simp: hlist_add_head_def table_ok_def)
  moreover have "distinct (concat (hlist_add_head (f (session_id s)) p tbl))"
    using assms len by (intro distinct_add) (simp_all add: table_ok_def)
  ultimately show ?thesis using len by (simp add: table_ok_def hlist_add_head_def)
qed

lemma table_ok_del [wf_intros]:
  assumes "table_ok h f n tbl"
  shows "table_ok (h(p := x)) f n (hlist_del_init p tbl)"
proof -
  have "distinct (concat (hlist_del_init p tbl))" using assms by (simp add: concat_del table_ok_def)
  then show ?thesis using assms by (auto simp: table_ok_def hlist_del_init_def)
qed

lemma table_ok_del_same [wf_intros]: "table_ok h f n tbl \<Longrightarrow> table_ok h f n (hlist_del_init p tbl)"
  using table_ok_del [of h f n tbl p "h p"] by simp

lemma table_ok_upd [wf_intros]:
  assumes "table_ok h f n tbl" and "h p = Some s" and "session_id s' = session_id s"
  shows "table_ok (h(p \<mapsto> s')) f n tbl"
  using assms by (fastforce simp: table_ok_def)

lemma table_ok_free [wf_intros]:
  assumes "table_ok h f n tbl" and "p \<notin> linked tbl"
  shows "table_ok (h(p := x)) f n tbl"
proof -
  have "q \<noteq> p" if "b < n" "q \<in> set (tbl ! b)" for q b
    using that assms by (auto simp: linked_def table_ok_def)
  then show ?thesis using assms(1) by (fastforce simp: table_ok_def)
qed

locale session_hash =
  fixes bits :: nat and hash :: "kenv \<Rightarrow> u32 \<Rightarrow> nat"
  assumes hash_bound: "wf_env E \<Longrightarrow> hash E sid < 2 ^ bits"
begin

abbreviation ok :: "kenv \<Rightarrow> (ptr \<Rightarrow> l2tp_session option) \<Rightarrow> ptr list list \<Rightarrow> bool" where
  "ok E h tbl \<equiv> table_ok h (hash E) (2 ^ bits) tbl"

abbreviation look :: "kenv \<Rightarrow> (ptr \<Rightarrow> l2tp_session option) \<Rightarrow> ptr list list \<Rightarrow> u32 \<Rightarrow> ptr option kres" where
  "look E h tbl sid \<equiv> chain_find h (\<lambda>s. session_id s = sid) (tbl ! hash E sid)"

lemma linked_bucket:
  assumes "wf_env E" and "ok E h tbl" and "h p = Some s"
  shows "p \<in> linked tbl \<longleftrightarrow> p \<in> set (tbl ! hash E (session_id s))"
proof
  assume "p \<in> linked tbl"
  then obtain c where "c \<in> set tbl" "p \<in> set c" by (auto simp: linked_def)
  then obtain b where "b < length tbl" "p \<in> set (tbl ! b)" by (auto simp: in_set_conv_nth [of c])
  then show "p \<in> set (tbl ! hash E (session_id s))" using assms(2,3) by (fastforce simp: table_ok_def)
next
  assume "p \<in> set (tbl ! hash E (session_id s))"
  moreover have "hash E (session_id s) < length tbl" using hash_bound [OF assms(1)] assms(2) by (simp add: table_ok_def)
  ultimately show "p \<in> linked tbl" by (auto simp: linked_def intro: nth_mem)
qed

lemma look_returns:
  assumes "wf_env E" and "ok E h tbl"
  shows "look E h tbl sid = Inr (find (\<lambda>p. session_id (the (h p)) = sid) (tbl ! hash E sid))"
proof (rule chain_find_returns)
  have "hash E sid < 2 ^ bits" by (rule hash_bound [OF assms(1)])
  then show "\<forall>p \<in> set (tbl ! hash E sid). h p \<noteq> None" using assms(2) by (fastforce simp: table_ok_def)
qed

lemma look_None:
  assumes "wf_env E" and "ok E h tbl"
  shows "look E h tbl sid = Inr None \<longleftrightarrow> (\<forall>p \<in> linked tbl. \<forall>s. h p = Some s \<longrightarrow> session_id s \<noteq> sid)"
proof -
  have b: "hash E sid < 2 ^ bits" by (rule hash_bound [OF assms(1)])
  have "(\<forall>p \<in> set (tbl ! hash E sid). session_id (the (h p)) \<noteq> sid)
      \<longleftrightarrow> (\<forall>p \<in> linked tbl. \<forall>s. h p = Some s \<longrightarrow> session_id s \<noteq> sid)" (is "?l = ?r")
  proof
    assume ?l
    then show ?r using linked_bucket [OF assms] by fastforce
  next
    assume r: ?r
    show ?l
    proof
      fix p assume p: "p \<in> set (tbl ! hash E sid)"
      then obtain s where "h p = Some s" using assms(2) b by (fastforce simp: table_ok_def)
      moreover have "p \<in> linked tbl" using p b assms(2) by (auto simp: linked_def table_ok_def intro: nth_mem)
      ultimately show "session_id (the (h p)) \<noteq> sid" using r by simp
    qed
  qed
  then show ?thesis by (simp add: look_returns [OF assms] find_None_iff Ball_def)
qed

lemma look_Some:
  assumes "wf_env E" and "ok E h tbl" and "look E h tbl sid = Inr (Some p)"
  shows "p \<in> linked tbl" and "\<exists>s. h p = Some s \<and> session_id s = sid"
proof -
  have b: "hash E sid < 2 ^ bits" by (rule hash_bound [OF assms(1)])
  have "find (\<lambda>p. session_id (the (h p)) = sid) (tbl ! hash E sid) = Some p"
    using assms(3) by (simp add: look_returns [OF assms(1,2)])
  then have p: "p \<in> set (tbl ! hash E sid)" "session_id (the (h p)) = sid"
    by (auto simp: find_Some_iff)
  then obtain s where "h p = Some s" using assms(2) b by (fastforce simp: table_ok_def)
  with p show "\<exists>s. h p = Some s \<and> session_id s = sid" by simp
  show "p \<in> linked tbl" using p b assms(2) by (auto simp: linked_def table_ok_def intro: nth_mem)
qed

end

interpretation th: session_hash 4 l2tp_session_id_hash
  by unfold_locales (metis l2tp_session_id_hash_def wf_env_def)

interpretation gh: session_hash 8 l2tp_session_id_hash_2
  by unfold_locales (metis l2tp_session_id_hash_2_def wf_env_def)

end
