(* ===== verification/L2tp_Life.thy ===== *)
theory L2tp_Life
  imports L2tp_Heap
begin

unbundle bit_operations_syntax

text \<open>
  The life of tunnels and sessions: \<^verbatim>\<open>l2tp_session_create\<close>, \<^verbatim>\<open>l2tp_session_delete\<close>,
  \<^verbatim>\<open>l2tp_tunnel_create\<close>, \<^verbatim>\<open>l2tp_tunnel_delete\<close> with its work item, the socket destructor and
  the hooks of the pseudowires that they call. Operations on the heap are functions from
  state to state or to a fault; the loop of \<^verbatim>\<open>l2tp_tunnel_closeall\<close> terminates because every
  round unlinks the session at the head of the chain.
\<close>

named_theorems chain_simps

section \<open>Closing a pseudowire\<close>

text \<open>
  \<^verbatim>\<open>unregister_netdev\<close> of the kernel calls the device's \<^verbatim>\<open>ndo_uninit\<close> and, the last reference
  gone, frees the device.
\<close>

definition l2tp_eth_dev_uninit :: "ptr \<Rightarrow> world \<Rightarrow> world kres" where
  "l2tp_eth_dev_uninit d w =
     bind_res (deref_ptr (devs w) (Some d)) (\<lambda>(a, dev).
       Inr (w\<lparr>eth_dev_list := (eth_dev_list w)(dev_net dev := remove1 a (eth_dev_list w (dev_net dev))),
              devs := (devs w)(a \<mapsto> dev\<lparr>dstats := [], dev_refcnt := dev_refcnt dev - 1\<rparr>)\<rparr>))"

definition unregister_netdev :: "ptr \<Rightarrow> world \<Rightarrow> world kres" where
  "unregister_netdev d w =
     bind_res (l2tp_eth_dev_uninit d w) (\<lambda>w'. Inr (w'\<lparr>devs := (devs w')(d := None)\<rparr>))"

definition l2tp_eth_delete :: "ptr \<Rightarrow> kst \<Rightarrow> kst kres" where
  "l2tp_eth_delete p st =
     bind_res (deref_ptr (k_sessions st) (Some p)) (\<lambda>(a, s).
       case eth_dev_of s of
         None \<Rightarrow> Inr st
       | Some d \<Rightarrow> bind_res (on_world (unregister_netdev d) st)
           (\<lambda>st'. Inr (set_session a (s\<lparr>priv := PrivEth None\<rparr>) st')))"

definition pppol2tp_session_close :: "ptr \<Rightarrow> kst \<Rightarrow> kst kres" where
  "pppol2tp_session_close p st =
     bind_res (deref_ptr (k_sessions st) (Some p)) (\<lambda>(a, s).
     bind_res (deref_ptr (socks (k_world st)) (ppp_sock_of s)) (\<lambda>(b, sk).
     bind_res (require BugOn (s_magic s = L2TP_SESSION_MAGIC)) (\<lambda>_.
       if sk_socket sk
       then l2tp_session_inc_refcount a
              (st\<lparr>k_world := upd_sock b (\<lambda>x. x\<lparr>sk_shutdown := True\<rparr>) (k_world st)\<rparr>)
       else Inr st)))"

fun call_session_close :: "pw_close option \<Rightarrow> ptr \<Rightarrow> kst \<Rightarrow> kst kres" where
  "call_session_close None p st = Inr st"
| "call_session_close (Some L2tp_eth_delete) p st = l2tp_eth_delete p st"
| "call_session_close (Some Pppol2tp_session_close) p st = pppol2tp_session_close p st"

section \<open>Sessions\<close>

text \<open>The calls of a session's \<^verbatim>\<open>ref\<close>, \<^verbatim>\<open>deref\<close> and \<^verbatim>\<open>session_close\<close> and the purge, on the heap.\<close>

definition session_ref :: "ptr \<Rightarrow> kst \<Rightarrow> kst kres" where
  "session_ref p st =
     bind_res (deref_ptr (k_sessions st) (Some p)) (\<lambda>(_, s). on_world (call_ref pw s) st)"

definition session_deref :: "ptr \<Rightarrow> kst \<Rightarrow> kst kres" where
  "session_deref p st =
     bind_res (deref_ptr (k_sessions st) (Some p)) (\<lambda>(_, s). on_world (call_deref pw s) st)"

definition session_purge :: "kenv \<Rightarrow> ptr \<Rightarrow> kst \<Rightarrow> kst kres" where
  "session_purge E p st =
     bind_res (deref_ptr (k_sessions st) (Some p)) (\<lambda>(a, s).
     bind_res (l2tp_session_queue_purge pw E s (k_world st) (k_trace st)) (\<lambda>(s', w, tr).
       Inr (set_session a s' (st\<lparr>k_world := w, k_trace := tr\<rparr>))))"

definition session_shut :: "ptr \<Rightarrow> kst \<Rightarrow> kst kres" where
  "session_shut p st =
     bind_res (deref_ptr (k_sessions st) (Some p)) (\<lambda>(a, s). call_session_close (session_close s) a st)"

definition l2tp_session_unhash :: "ptr \<Rightarrow> kst \<Rightarrow> kst kres" where
  "l2tp_session_unhash p st =
     bind_res (deref_ptr (k_sessions st) (Some p)) (\<lambda>(a, s).
       case s_tunnel s of
         None \<Rightarrow> Inr st
       | Some tp \<Rightarrow>
           bind_res (deref_ptr (k_tunnels st) (Some tp)) (\<lambda>(b, t).
             let st1 = set_tunnel b (t\<lparr>session_hlist := hlist_del_init a (session_hlist t)\<rparr>) st
             in if version t \<noteq> L2TP_HDR_VER_2
                then Inr (upd_net (l2tp_net t)
                       (\<lambda>n. n\<lparr>l2tp_session_hlist := hlist_del_init a (l2tp_session_hlist n)\<rparr>) st1)
                else Inr st1))"

definition l2tp_session_delete :: "kenv \<Rightarrow> ptr \<Rightarrow> kst \<Rightarrow> kst kres" where
  "l2tp_session_delete E p st =
     bind_res (session_ref p st) (\<lambda>st1.
     bind_res (l2tp_session_unhash p st1) (\<lambda>st2.
     bind_res (session_purge E p st2) (\<lambda>st3.
     bind_res (session_shut p st3) (\<lambda>st4.
     bind_res (session_deref p st4) (\<lambda>st5.
     l2tp_session_dec_refcount p st5)))))"

text \<open>What \<^verbatim>\<open>kzalloc\<close> returns for a session: every field zero.\<close>

definition zero_session :: "session_priv \<Rightarrow> l2tp_session" where
  "zero_session pr = \<lparr>s_magic = 0, s_tunnel = None, session_id = 0, peer_session_id = 0,
     cookie = replicate 8 0, cookie_len = 0, peer_cookie = replicate 8 0, peer_cookie_len = 0,
     s_offset = 0, l2specific_len = 0, l2specific_type = 0, hdr_len = 0, nr = 0, ns = 0,
     reorder_q = [], nr_max = 0, nr_window_size = 0, nr_oos = 0, nr_oos_count = 0,
     nr_oos_count_max = 0, s_ref_count = 0, ifname = [], data_seq = 0, recv_seq = 0, send_seq = 0,
     lns_mode = 0, s_debug = 0, reorder_timeout = 0, reorder_skip = False, s_mtu = 0, s_mru = 0,
     pwtype = 0, s_stats = [], build_header = L2tp_build_l2tpv2_header, recv_skb = None,
     session_close = None, s_ref = False, s_deref = False, priv = pr\<rparr>"

definition memcpy8 :: "u8 list \<Rightarrow> nat \<Rightarrow> u8 list kres" where
  "memcpy8 src n = (if n \<le> 8 \<and> n \<le> length src then Inr (take n src @ replicate (8 - n) 0) else Inl OutOfBounds)"

definition apply_session_cfg :: "l2tp_session_cfg \<Rightarrow> l2tp_session \<Rightarrow> l2tp_session kres" where
  "apply_session_cfg cfg s =
     bind_res (memcpy8 (cfg_cookie cfg) (cfg_cookie_len cfg)) (\<lambda>c.
     bind_res (memcpy8 (cfg_peer_cookie cfg) (cfg_peer_cookie_len cfg)) (\<lambda>pc.
       Inr (s\<lparr>pwtype := cfg_pw_type cfg, s_debug := cfg_debug cfg, s_mtu := cfg_mtu cfg, s_mru := cfg_mru cfg,
              send_seq := cfg_send_seq cfg, recv_seq := cfg_recv_seq cfg, lns_mode := cfg_lns_mode cfg,
              reorder_timeout := cfg_reorder_timeout cfg, s_offset := cfg_offset cfg,
              l2specific_type := cfg_l2specific_type cfg, l2specific_len := cfg_l2specific_len cfg,
              cookie_len := cfg_cookie_len cfg, cookie := c,
              peer_cookie_len := cfg_peer_cookie_len cfg, peer_cookie := pc\<rparr>)))"

text \<open>
  The session \<^verbatim>\<open>l2tp_session_create\<close> sets up, before it is linked: the fields set before the
  configuration is applied, and those set after.
\<close>

definition new_session :: "kenv \<Rightarrow> session_priv \<Rightarrow> ptr \<Rightarrow> l2tp_tunnel \<Rightarrow> u32 \<Rightarrow> u32 \<Rightarrow> l2tp_session" where
  "new_session E pr tp t sid psid =
     (let M = (if version t = L2TP_HDR_VER_2 then 0xffff else 0xffffff)
      in (zero_session pr)\<lparr>s_stats := replicate (possible_cpus E) zero_stats, s_magic := L2TP_SESSION_MAGIC,
           s_tunnel := Some tp, session_id := sid, peer_session_id := psid, nr := 0, nr_max := M,
           nr_window_size := M div 2, nr_oos_count_max := 4, reorder_skip := True, reorder_q := [],
           s_debug := t_debug t\<rparr>)"

definition finish_session :: "l2tp_tunnel \<Rightarrow> l2tp_session \<Rightarrow> l2tp_session" where
  "finish_session t s =
     (let s1 = s\<lparr>build_header := (if version t = L2TP_HDR_VER_2 then L2tp_build_l2tpv2_header
                                  else L2tp_build_l2tpv3_header)\<rparr>;
          s2 = l2tp_session_set_header_len t s1 (version t)
      in s2\<lparr>s_ref_count := s_ref_count s2 + 1\<rparr>)"

definition link_session :: "kenv \<Rightarrow> ptr \<Rightarrow> ptr \<Rightarrow> u32 \<Rightarrow> kst \<Rightarrow> kst kres" where
  "link_session E p tp sid st =
     bind_res (l2tp_tunnel_inc_refcount tp st) (\<lambda>st1.
     bind_res (deref_ptr (k_tunnels st1) (Some tp)) (\<lambda>(b, t).
     bind_res (on_world (sock_hold (t_sock t)) st1) (\<lambda>st2.
       let st3 = set_tunnel b (t\<lparr>session_hlist := hlist_add_head (l2tp_session_id_hash E sid) p (session_hlist t)\<rparr>) st2;
           st4 = (if version t \<noteq> L2TP_HDR_VER_2
                  then upd_net (l2tp_net t) (\<lambda>n. n\<lparr>l2tp_session_hlist :=
                         hlist_add_head (l2tp_session_id_hash_2 E sid) p (l2tp_session_hlist n)\<rparr>) st3
                  else st3)
       in Inr (if sid \<noteq> 0 then st4\<lparr>l2tp_session_count := l2tp_session_count st4 + 1\<rparr> else st4))))"

definition l2tp_session_create :: "kenv \<Rightarrow> session_priv \<Rightarrow> ptr \<Rightarrow> u32 \<Rightarrow> u32 \<Rightarrow> l2tp_session_cfg option
    \<Rightarrow> kst \<Rightarrow> (ptr option \<times> kst) kres" where
  "l2tp_session_create E pr tp sid psid cfg st =
     (if \<not> kzalloc_ok E Alloc_session \<or> \<not> kzalloc_ok E Alloc_session_stats then Inr (None, st)
      else
        bind_res (deref_ptr (k_tunnels st) (Some tp)) (\<lambda>(_, t).
        bind_res (case cfg of None \<Rightarrow> Inr (new_session E pr tp t sid psid)
                  | Some c \<Rightarrow> apply_session_cfg c (new_session E pr tp t sid psid)) (\<lambda>s.
        let p = k_next st;
            st1 = set_session p (finish_session t s) (st\<lparr>k_next := p + 1\<rparr>)
        in bind_res (link_session E p tp sid st1) (\<lambda>st2. Inr (Some p, st2)))))"

section \<open>Closing a tunnel's sessions\<close>

text \<open>One round of the loop, for the session \<open>p\<close> at the head of the chain.\<close>

definition closeall_round :: "kenv \<Rightarrow> ptr \<Rightarrow> ptr \<Rightarrow> kst \<Rightarrow> kst kres" where
  "closeall_round E tp p st =
     bind_res (deref_ptr (k_tunnels st) (Some tp)) (\<lambda>(b, t).
     let st0 = set_tunnel b (t\<lparr>session_hlist := hlist_del_init p (session_hlist t)\<rparr>) st in
     bind_res (session_ref p st0) (\<lambda>st1.
     bind_res (l2tp_session_unhash p st1) (\<lambda>st2.
     bind_res (session_purge E p st2) (\<lambda>st3.
     bind_res (session_shut p st3) (\<lambda>st4.
     bind_res (session_deref p st4) (\<lambda>st5.
     l2tp_session_dec_refcount p st5))))))"

definition bucket :: "ptr list list \<Rightarrow> nat \<Rightarrow> ptr list" where
  "bucket tbl b = (if b < length tbl then tbl ! b else [])"

section \<open>Frames\<close>

text \<open>The tchains of every tunnel, which only linking and unlinking change.\<close>

definition tchains :: "kst \<Rightarrow> ptr \<Rightarrow> ptr list list option" where
  "tchains st tp = map_option session_hlist (k_tunnels st tp)"

lemma chains_simps [chain_simps]:
  "tchains (set_session p s st) = tchains st"
  "tchains (upd_net n f st) = tchains st"
  "tchains (st\<lparr>k_world := w\<rparr>) = tchains st"
  "tchains (st\<lparr>k_trace := tr\<rparr>) = tchains st"
  "tchains (st\<lparr>k_rcu := r\<rparr>) = tchains st"
  "tchains (st\<lparr>k_sessions := ss\<rparr>) = tchains st"
  "tchains (st\<lparr>l2tp_session_count := c\<rparr>) = tchains st"
  by (auto simp: tchains_def set_session_def upd_net_def set_tunnel_def fun_eq_iff)

lemma tchains_set_tunnel: "tchains (set_tunnel tp t st) = (tchains st)(tp \<mapsto> session_hlist t)"
  by (auto simp: tchains_def set_tunnel_def fun_eq_iff)

lemma chains_on_world: "on_world f st = Inr st' \<Longrightarrow> tchains st' = tchains st"
  by (auto simp: on_world_def bind_res_Inr_iff chain_simps)

lemma chains_same: "k_tunnels st tp = Some t \<Longrightarrow> session_hlist t' = session_hlist t \<Longrightarrow>
    tchains (set_tunnel tp t' st) = tchains st"
  by (auto simp: tchains_def set_tunnel_def fun_eq_iff)

lemma tunnel_dec_cases:
  assumes "l2tp_tunnel_dec_refcount tp st = Inr st'"
  obtains t where "k_tunnels st tp = Some t"
    and "st' = (set_tunnel tp (t\<lparr>t_ref_count := t_ref_count t - 1\<rparr>) st)
           \<lparr>k_rcu := k_rcu st @ (if t_ref_count t = 1 then [tp] else [])\<rparr>"
    and "t_ref_count t = 1 \<longrightarrow> t_sock t = None"
proof -
  from assms obtain t where t: "k_tunnels st tp = Some t"
    by (auto simp: l2tp_tunnel_dec_refcount_def bind_res_Inr_iff deref_ptr_Inr_iff)
  show thesis
    by (rule that [OF t]) (use assms t in \<open>auto simp: l2tp_tunnel_dec_refcount_def l2tp_tunnel_free_def
      set_tunnel_def Let_def bind_res_Inr_iff deref_ptr_Inr_iff split: if_splits\<close>)
qed

lemma chains_tunnel_dec: "l2tp_tunnel_dec_refcount tp st = Inr st' \<Longrightarrow> tchains st' = tchains st"
  by (erule tunnel_dec_cases) (simp add: chain_simps chains_same)

lemma chains_session_free: "l2tp_session_free p st = Inr st' \<Longrightarrow> tchains st' = tchains st"
  by (auto simp: l2tp_session_free_def bind_res_Inr_iff deref_ptr_Inr_iff chain_simps
      split: option.splits if_splits dest!: chains_tunnel_dec chains_on_world)

lemma chains_session_dec: "l2tp_session_dec_refcount p st = Inr st' \<Longrightarrow> tchains st' = tchains st"
  by (auto simp: l2tp_session_dec_refcount_def Let_def bind_res_Inr_iff deref_ptr_Inr_iff chain_simps
      split: if_splits dest!: chains_session_free)

lemma chains_session_inc: "l2tp_session_inc_refcount p st = Inr st' \<Longrightarrow> tchains st' = tchains st"
  by (auto simp: l2tp_session_inc_refcount_def bind_res_Inr_iff deref_ptr_Inr_iff chain_simps)

lemma chains_ref: "session_ref p st = Inr st' \<Longrightarrow> tchains st' = tchains st"
  by (auto simp: session_ref_def bind_res_Inr_iff deref_ptr_Inr_iff dest!: chains_on_world)

lemma chains_deref: "session_deref p st = Inr st' \<Longrightarrow> tchains st' = tchains st"
  by (auto simp: session_deref_def bind_res_Inr_iff deref_ptr_Inr_iff dest!: chains_on_world)

lemma chains_purge: "session_purge E p st = Inr st' \<Longrightarrow> tchains st' = tchains st"
  by (auto simp: session_purge_def bind_res_Inr_iff deref_ptr_Inr_iff chain_simps)

lemma chains_shut: "session_shut p st = Inr st' \<Longrightarrow> tchains st' = tchains st"
proof -
  assume "session_shut p st = Inr st'"
  then obtain s :: l2tp_session where "call_session_close (session_close s) p st = Inr st'"
    by (auto simp: session_shut_def bind_res_Inr_iff deref_ptr_Inr_iff)
  then show ?thesis
    by (cases "(session_close s, p, st)" rule: call_session_close.cases)
       (auto simp: l2tp_eth_delete_def pppol2tp_session_close_def bind_res_Inr_iff deref_ptr_Inr_iff chain_simps
          split: option.splits if_splits dest!: chains_on_world chains_session_inc)
qed

lemmas chains_keep = chains_ref chains_deref chains_purge chains_shut chains_session_dec

text \<open>Unlinking never makes a chain longer.\<close>

definition links :: "kst \<Rightarrow> ptr \<Rightarrow> nat" where
  "links st tp = (case tchains st tp of None \<Rightarrow> 0 | Some tbl \<Rightarrow> length (concat tbl))"

lemma links_cong: "tchains st' = tchains st \<Longrightarrow> links st' tp = links st tp"
  by (simp add: links_def)

lemma length_concat_del: "length (concat (hlist_del_init p tbl)) \<le> length (concat tbl)"
  by (simp add: concat_del)

lemma length_concat_del_less: "p \<in> linked tbl \<Longrightarrow> length (concat (hlist_del_init p tbl)) < length (concat tbl)"
  unfolding concat_del linked_def by (rule length_filter_less) auto

lemma unhash_cases:
  assumes "l2tp_session_unhash p st = Inr st'"
  obtains (no_tunnel) s where "k_sessions st p = Some s" and "s_tunnel s = None" and "st' = st"
  | (tunnel) s tp t where "k_sessions st p = Some s" and "s_tunnel s = Some tp" and "k_tunnels st tp = Some t"
    and "st' = (if version t = L2TP_HDR_VER_2 then id else upd_net (l2tp_net t)
           (\<lambda>n. n\<lparr>l2tp_session_hlist := hlist_del_init p (l2tp_session_hlist n)\<rparr>))
         (set_tunnel tp (t\<lparr>session_hlist := hlist_del_init p (session_hlist t)\<rparr>) st)"
proof -
  from assms obtain s where s: "k_sessions st p = Some s"
    by (auto simp: l2tp_session_unhash_def bind_res_Inr_iff deref_ptr_Inr_iff)
  show thesis
  proof (cases "s_tunnel s")
    case None
    with assms s show thesis by (intro no_tunnel) (auto simp: l2tp_session_unhash_def)
  next
    case (Some tp)
    with assms s obtain t where "k_tunnels st tp = Some t"
      by (auto simp: l2tp_session_unhash_def bind_res_Inr_iff deref_ptr_Inr_iff)
    with assms s Some show thesis by (intro tunnel) (auto simp: l2tp_session_unhash_def Let_def)
  qed
qed

lemma links_unhash:
  assumes "l2tp_session_unhash p st = Inr st'"
  shows "links st' tp \<le> links st tp"
  using assms
proof (cases rule: unhash_cases)
  case no_tunnel
  then show ?thesis by simp
next
  case (tunnel s tp' t)
  then have "tchains st' = (tchains st)(tp' \<mapsto> hlist_del_init p (session_hlist t))"
    and "tchains st tp' = Some (session_hlist t)"
    by (simp_all add: chain_simps tchains_set_tunnel) (simp add: tchains_def)
  then show ?thesis using length_concat_del [of p "session_hlist t"]
    by (cases "tp = tp'") (simp_all add: links_def)
qed

lemma closeall_round_links:
  assumes "closeall_round E tp p st = Inr st'" and "tchains st tp = Some tbl" and "p \<in> linked tbl"
  shows "links st' tp < links st tp"
proof -
  from assms(2) obtain t where t: "k_tunnels st tp = Some t" "session_hlist t = tbl" by (auto simp: tchains_def)
  let ?st0 = "set_tunnel tp (t\<lparr>session_hlist := hlist_del_init p (session_hlist t)\<rparr>) st"
  from assms(1) t(1) obtain st1 st2 st3 st4 st5 where r: "session_ref p ?st0 = Inr st1"
    "l2tp_session_unhash p st1 = Inr st2" "session_purge E p st2 = Inr st3" "session_shut p st3 = Inr st4"
    "session_deref p st4 = Inr st5" "l2tp_session_dec_refcount p st5 = Inr st'"
    by (auto simp: closeall_round_def bind_res_Inr_iff Let_def)
  have "links ?st0 tp < links st tp"
    using length_concat_del_less [OF assms(3)] assms(2) t by (simp add: links_def tchains_set_tunnel)
  moreover have "links st' tp \<le> links ?st0 tp"
    using links_unhash [OF r(2), of tp] links_cong [OF chains_ref [OF r(1)], of tp]
      links_cong [OF chains_purge [OF r(3)], of tp] links_cong [OF chains_shut [OF r(4)], of tp]
      links_cong [OF chains_deref [OF r(5)], of tp] links_cong [OF chains_session_dec [OF r(6)], of tp] by simp
  ultimately show ?thesis by simp
qed

lemma bucket_linked: "p \<in> set (bucket tbl b) \<Longrightarrow> p \<in> linked tbl"
  by (auto simp: bucket_def linked_def split: if_splits)

function closeall_bucket :: "kenv \<Rightarrow> ptr \<Rightarrow> nat \<Rightarrow> kst \<Rightarrow> kst kres" where
  "closeall_bucket E tp b st =
     bind_res (deref_ptr (k_tunnels st) (Some tp)) (\<lambda>(_, t).
       case bucket (session_hlist t) b of
         [] \<Rightarrow> Inr st
       | p # _ \<Rightarrow> bind_res (closeall_round E tp p st) (\<lambda>st'. closeall_bucket E tp b st'))"
  by pat_completeness auto
termination
proof (relation "measure (\<lambda>(E, tp, b, st). links st tp)")
  fix E tp b st x a t p ps st'
  assume "deref_ptr (k_tunnels st) (Some tp) = Inr x" "(a, t) = x" "bucket (session_hlist t) b = p # ps"
    "closeall_round E tp p st = Inr st'"
  moreover from this have "tchains st tp = Some (session_hlist t)" by (auto simp: deref_ptr_Inr_iff tchains_def)
  moreover have "p \<in> linked (session_hlist t)" using calculation by (intro bucket_linked [of _ _ b]) simp
  ultimately show "((E, tp, b, st'), E, tp, b, st) \<in> measure (\<lambda>(E, tp, b, st). links st tp)"
    using closeall_round_links by simp
qed simp

declare closeall_bucket.simps [simp del]

fun closeall_from :: "kenv \<Rightarrow> ptr \<Rightarrow> nat list \<Rightarrow> kst \<Rightarrow> kst kres" where
  "closeall_from E tp [] st = Inr st"
| "closeall_from E tp (b # bs) st = bind_res (closeall_bucket E tp b st) (closeall_from E tp bs)"

definition l2tp_tunnel_closeall :: "kenv \<Rightarrow> ptr \<Rightarrow> kst \<Rightarrow> kst kres" where
  "l2tp_tunnel_closeall E tp st = closeall_from E tp [0..<L2TP_HASH_SIZE] st"

section \<open>Tunnel sockets\<close>

text \<open>
  The destructor the tunnel hooks into its socket. Its last step, the destructor the socket
  had before, belongs to the kernel.
\<close>

definition l2tp_tunnel_destruct :: "kenv \<Rightarrow> ptr \<Rightarrow> kst \<Rightarrow> kst kres" where
  "l2tp_tunnel_destruct E a st =
     bind_res (deref_ptr (socks (k_world st)) (Some a)) (\<lambda>(_, sk).
     case sk_user_data sk of
       None \<Rightarrow> Inr st
     | Some tp \<Rightarrow>
         bind_res (deref_ptr (k_tunnels st) (Some tp)) (\<lambda>(b, t).
         let w1 = (if encap t = L2TP_ENCAPTYPE_UDP
                   then upd_sock a (\<lambda>x. x\<lparr>encap_type := 0, encap_rcv := False, encap_destroy := False\<rparr>) (k_world st)
                   else k_world st);
             w2 = upd_sock a (\<lambda>x. x\<lparr>sk_destruct := old_sk_destruct t, sk_user_data := None\<rparr>) w1;
             st1 = set_tunnel b (t\<lparr>t_sock := None\<rparr>) (st\<lparr>k_world := w2\<rparr>);
             st2 = upd_net (l2tp_net t) (\<lambda>n. n\<lparr>l2tp_tunnel_list := remove1 b (l2tp_tunnel_list n)\<rparr>) st1;
             st3 = st2\<lparr>l2tp_tunnel_count := l2tp_tunnel_count st2 - 1\<rparr>
         in bind_res (l2tp_tunnel_closeall E b st3) (l2tp_tunnel_dec_refcount b)))"

definition l2tp_udp_encap_destroy :: "kenv \<Rightarrow> ptr \<Rightarrow> kst \<Rightarrow> kst kres" where
  "l2tp_udp_encap_destroy E a st =
     bind_res (l2tp_sock_to_tunnel (Some a) st) (\<lambda>(tp, st1).
     case tp of
       None \<Rightarrow> Inr st1
     | Some b \<Rightarrow> bind_res (l2tp_tunnel_closeall E b st1) (on_world (sock_put (Some a))))"

definition pppol2tp_session_destruct :: "ptr \<Rightarrow> kst \<Rightarrow> kst kres" where
  "pppol2tp_session_destruct a st =
     bind_res (deref_ptr (socks (k_world st)) (Some a)) (\<lambda>(_, sk).
     case sk_user_data sk of
       None \<Rightarrow> Inr st
     | Some p \<Rightarrow>
         let st1 = st\<lparr>k_world := upd_sock a (\<lambda>x. x\<lparr>sk_user_data := None\<rparr>) (k_world st)\<rparr> in
         bind_res (user_magic st1 p) (\<lambda>m.
         bind_res (require BugOn (m = L2TP_SESSION_MAGIC)) (\<lambda>_. l2tp_session_dec_refcount p st1)))"

text \<open>
  What the kernel does when the last reference to a socket is gone: its destructor runs
  and the socket is freed.
\<close>

definition sk_free :: "kenv \<Rightarrow> ptr \<Rightarrow> kst \<Rightarrow> kst kres" where
  "sk_free E a st =
     bind_res (deref_ptr (socks (k_world st)) (Some a)) (\<lambda>(_, sk).
     bind_res
       (case sk_destruct sk of
          Some L2tp_tunnel_destruct \<Rightarrow> l2tp_tunnel_destruct E a st
        | Some Pppol2tp_session_destruct \<Rightarrow> pppol2tp_session_destruct a st
        | _ \<Rightarrow> Inr st)
       (\<lambda>st1. Inr (st1\<lparr>k_world := (k_world st1)\<lparr>socks := (socks (k_world st1))(a := None)\<rparr>\<rparr>)))"

definition l2tp_tunnel_sock_lookup :: "kenv \<Rightarrow> ptr \<Rightarrow> kst \<Rightarrow> (ptr option \<times> kst) kres" where
  "l2tp_tunnel_sock_lookup E tp st =
     bind_res (deref_ptr (k_tunnels st) (Some tp)) (\<lambda>(_, t).
       if t_fd t \<ge> 0
       then (case sockfd_lookup E (t_fd t) of
               None \<Rightarrow> Inr (None, st)
             | Some a \<Rightarrow> bind_res (deref_ptr (socks (k_world st)) (Some a)) (\<lambda>_.
                 Inr (Some a, st\<lparr>k_world := upd_sock a (\<lambda>x. x\<lparr>file_refs := file_refs x + 1\<rparr>) (k_world st)\<rparr>)))
       else bind_res (on_world (sock_hold (t_sock t)) st) (\<lambda>st1. Inr (t_sock t, st1)))"

definition sockfd_put :: "ptr \<Rightarrow> world \<Rightarrow> world kres" where
  "sockfd_put a w =
     bind_res (deref_ptr (socks w) (Some a)) (\<lambda>(_, sk).
     bind_res (require NullDeref (sk_socket sk)) (\<lambda>_.
       Inr (upd_sock a (\<lambda>x. x\<lparr>file_refs := file_refs x - 1\<rparr>) w)))"

definition l2tp_tunnel_sock_put :: "ptr \<Rightarrow> kst \<Rightarrow> kst kres" where
  "l2tp_tunnel_sock_put a st =
     bind_res (l2tp_sock_to_tunnel (Some a) st) (\<lambda>(tp, st1).
     bind_res
       (case tp of
          None \<Rightarrow> Inr st1
        | Some b \<Rightarrow>
            bind_res (deref_ptr (k_tunnels st1) (Some b)) (\<lambda>(_, t).
            bind_res (if t_fd t \<ge> 0 then on_world (sockfd_put a) st1 else Inr st1)
              (on_world (sock_put (Some a)))))
       (on_world (sock_put (Some a))))"

text \<open>The write queue and the tunnel of an L2TP/IP socket that is being destroyed.\<close>

definition l2tp_ip_destroy_sock :: "kenv \<Rightarrow> ptr \<Rightarrow> kst \<Rightarrow> kst kres" where
  "l2tp_ip_destroy_sock E a st =
     bind_res (l2tp_sock_to_tunnel (Some a) st) (\<lambda>(tp, st1).
     bind_res (deref_ptr (socks (k_world st1)) (Some a)) (\<lambda>(_, sk).
     let st2 = st1\<lparr>k_trace := k_trace st1 @ map Kfree_skb (rev (sk_write_queue sk)),
                   k_world := upd_sock a (\<lambda>x. x\<lparr>sk_write_queue := []\<rparr>) (k_world st1)\<rparr> in
     case tp of
       None \<Rightarrow> Inr st2
     | Some b \<Rightarrow> bind_res (l2tp_tunnel_closeall E b st2) (on_world (sock_put (Some a)))))"

text \<open>
  \<^verbatim>\<open>sk_release_kernel\<close> of the kernel: the protocol's destroy hook runs, the socket loses its
  \<^verbatim>\<open>struct socket\<close> and the reference that came with it.
\<close>

definition sk_release_kernel :: "kenv \<Rightarrow> ptr \<Rightarrow> kst \<Rightarrow> kst kres" where
  "sk_release_kernel E a st =
     bind_res (deref_ptr (socks (k_world st)) (Some a)) (\<lambda>(_, sk).
     if \<not> sk_socket sk then Inr st
     else
       bind_res (on_world (sock_hold (Some a)) st) (\<lambda>st1.
       bind_res
         (if sk_protocol sk = IPPROTO_L2TP then l2tp_ip_destroy_sock E a st1
          else if encap_destroy sk then l2tp_udp_encap_destroy E a st1
          else Inr st1) (\<lambda>st2.
       bind_res (on_world (sock_put (Some a))
           (st2\<lparr>k_world := upd_sock a (\<lambda>x. x\<lparr>sk_socket := False, sk_dead := True\<rparr>) (k_world st2)\<rparr>))
         (on_world (sock_put (Some a))))))"

definition l2tp_tunnel_del_work :: "kenv \<Rightarrow> ptr \<Rightarrow> kst \<Rightarrow> kst kres" where
  "l2tp_tunnel_del_work E tp st0 =
     (let st = st0\<lparr>l2tp_wq := remove1 tp (l2tp_wq st0)\<rparr> in
      bind_res (l2tp_tunnel_sock_lookup E tp st) (\<lambda>(skp, st1).
      bind_res
        (case skp of
           None \<Rightarrow> Inr st1
         | Some a \<Rightarrow>
             bind_res (deref_ptr (k_tunnels st1) (Some tp)) (\<lambda>(_, t).
             bind_res (deref_ptr (socks (k_world st1)) (Some a)) (\<lambda>(_, sk).
             let st2 = (if sk_socket sk
                        then st1\<lparr>k_world := upd_sock a (\<lambda>x. x\<lparr>sk_shutdown := True\<rparr>) (k_world st1)\<rparr> else st1)
             in bind_res (if t_fd t \<ge> 0 then Inr st2 else sk_release_kernel E a st2)
                  (l2tp_tunnel_sock_put a))))
        (l2tp_tunnel_dec_refcount tp)))"

end
