(* ===== verification/L2tp_Tunnel.thy ===== *)
theory L2tp_Tunnel
  imports L2tp_Life
begin

unbundle bit_operations_syntax

text \<open>
  Creating and deleting tunnels: \<^verbatim>\<open>l2tp_tunnel_sock_create\<close>, \<^verbatim>\<open>l2tp_tunnel_create\<close>,
  \<^verbatim>\<open>l2tp_tunnel_delete\<close> and the namespace hooks of \<^verbatim>\<open>l2tp_core.c\<close>. An operation that returns an
  error number in C returns it here with the state it leaves, next to the faults.
\<close>

section \<open>The tunnel's socket\<close>

text \<open>
  The four branches of \<^verbatim>\<open>l2tp_tunnel_sock_create\<close> do the same with different addresses: create
  the socket, bind it to the local address, connect it to the peer and ignore whether that
  worked. A socket that cannot be bound is released.
\<close>

definition sock_create_bound :: "kenv \<Rightarrow> nat \<Rightarrow> nat \<Rightarrow> nat \<Rightarrow> sockaddr \<Rightarrow> sockaddr \<Rightarrow> (sock \<Rightarrow> sock) \<Rightarrow> kst
    \<Rightarrow> (int \<times> ptr option \<times> kst) kres" where
  "sock_create_bound E net family proto laddr paddr fin st =
     (case sock_create_kern E family proto of
        Inl e \<Rightarrow> Inr (e, None, st)
      | Inr sk0 \<Rightarrow>
          let a = k_next st;
              put = (\<lambda>sk. st\<lparr>k_next := a + 1, k_world := (k_world st)\<lparr>socks := (socks (k_world st))(a \<mapsto> sk)\<rparr>\<rparr>)
          in case kernel_bind E laddr (sk0\<lparr>sk_net := net, freebind := True\<rparr>) of
               (e, sk1) \<Rightarrow>
                 if e < 0
                 then bind_res (sk_release_kernel E a (put (sk1\<lparr>sk_shutdown := True\<rparr>))) (\<lambda>st1. Inr (e, None, st1))
                 else Inr (0, Some a,
                        put (fin (kernel_connect E paddr (sk1\<lparr>force_daddr_on_connect := True\<rparr>)))))"

definition l2tp_tunnel_sock_create :: "kenv \<Rightarrow> nat \<Rightarrow> u32 \<Rightarrow> u32 \<Rightarrow> l2tp_tunnel_cfg \<Rightarrow> kst
    \<Rightarrow> (int \<times> ptr option \<times> kst) kres" where
  "l2tp_tunnel_sock_create E net tid ptid cfg st =
     (let nocheck = (\<lambda>sk. if use_udp_checksums cfg then sk else sk\<lparr>sk_no_check := UDP_CSUM_NOXMIT\<rparr>) in
      if tcfg_encap cfg = L2TP_ENCAPTYPE_UDP
      then (case (local_ip6 cfg, peer_ip6 cfg) of
              (Some l6, Some p6) \<Rightarrow>
                sock_create_bound E net AF_INET6 0 (Sockaddr_in6 l6 (local_udp_port cfg))
                  (Sockaddr_in6 p6 (peer_udp_port cfg)) nocheck st
            | _ \<Rightarrow>
                sock_create_bound E net AF_INET 0 (Sockaddr_in (local_ip cfg) (local_udp_port cfg))
                  (Sockaddr_in (peer_ip cfg) (peer_udp_port cfg)) nocheck st)
      else if tcfg_encap cfg = L2TP_ENCAPTYPE_IP
      then (case (local_ip6 cfg, peer_ip6 cfg) of
              (Some l6, Some p6) \<Rightarrow>
                sock_create_bound E net AF_INET6 IPPROTO_L2TP (Sockaddr_l2tpip6 l6 tid)
                  (Sockaddr_l2tpip6 p6 ptid) (\<lambda>sk. sk) st
            | _ \<Rightarrow>
                sock_create_bound E net AF_INET IPPROTO_L2TP (Sockaddr_l2tpip (local_ip cfg) tid)
                  (Sockaddr_l2tpip (peer_ip cfg) ptid) (\<lambda>sk. sk) st)
      else Inr (- EINVAL, None, st))"

section \<open>Tunnels\<close>

definition zero_tunnel :: l2tp_tunnel where
  "zero_tunnel = \<lparr>t_magic = 0, session_hlist = replicate L2TP_HASH_SIZE [], tunnel_id = 0, peer_tunnel_id = 0,
     version = 0, t_debug = 0, encap = 0, t_stats = [], l2tp_net = 0, t_ref_count = 0,
     recv_payload_hook = None, old_sk_destruct = None, t_sock = None, t_fd = 0, v4mapped = False\<rparr>"

text \<open>An IPv4 address mapped into IPv6: the prefix \<^verbatim>\<open>::ffff:0:0/96\<close>.\<close>

definition ipv6_addr_v4mapped :: "128 word \<Rightarrow> bool" where
  "ipv6_addr_v4mapped a \<longleftrightarrow> drop_bit 32 a = 0xffff"

definition sock_v4mapped :: "sock \<Rightarrow> bool" where
  "sock_v4mapped sk \<longleftrightarrow> sk_family sk = AF_INET6 \<and> ipv6_addr_v4mapped (np_saddr sk) \<and>
     ipv6_addr_v4mapped (sk_v6_daddr sk)"

text \<open>What the new tunnel changes of its socket: the mapped addresses and the encapsulation hooks.\<close>

definition prep_sock :: "u16 \<Rightarrow> ptr \<Rightarrow> sock \<Rightarrow> sock" where
  "prep_sock enc tp sk =
     (let sk1 = (if sock_v4mapped sk
                 then sk\<lparr>inet_saddr := ucast (np_saddr sk), inet_rcv_saddr := ucast (sk_v6_rcv_saddr sk),
                         inet_daddr := ucast (sk_v6_daddr sk)\<rparr> else sk);
          sk2 = (if enc = L2TP_ENCAPTYPE_UDP
                 then sk1\<lparr>encap_type := UDP_ENCAP_L2TPINUDP, encap_rcv := True, encap_destroy := True\<rparr> else sk1)
      in sk2\<lparr>sk_user_data := Some tp, sk_destruct := Some L2tp_tunnel_destruct\<rparr>)"

definition new_tunnel :: "kenv \<Rightarrow> nat \<Rightarrow> int \<Rightarrow> int \<Rightarrow> u32 \<Rightarrow> u32 \<Rightarrow> l2tp_tunnel_cfg option \<Rightarrow> u16 \<Rightarrow> ptr \<Rightarrow> sock
    \<Rightarrow> l2tp_tunnel" where
  "new_tunnel E net fd ver tid ptid cfg enc a sk =
     zero_tunnel\<lparr>t_stats := replicate (possible_cpus E) zero_stats, version := ver, tunnel_id := tid,
       peer_tunnel_id := ptid, t_debug := (case cfg of None \<Rightarrow> 0 | Some c \<Rightarrow> tcfg_debug c),
       t_magic := L2TP_TUNNEL_MAGIC, l2tp_net := net, v4mapped := sock_v4mapped sk, encap := enc,
       old_sk_destruct := sk_destruct sk, t_sock := Some a, t_fd := fd, t_ref_count := 1\<rparr>"

text \<open>
  The second half of \<^verbatim>\<open>l2tp_tunnel_create\<close>, from the socket on. The pointer it hands back
  through \<^verbatim>\<open>tunnelp\<close> is what the variable \<^verbatim>\<open>tunnel\<close> holds, which after a failed allocation of the
  statistics is a tunnel that was already freed.
\<close>

definition tunnel_on_sock :: "kenv \<Rightarrow> nat \<Rightarrow> int \<Rightarrow> int \<Rightarrow> u32 \<Rightarrow> u32 \<Rightarrow> l2tp_tunnel_cfg option \<Rightarrow> ptr \<Rightarrow> kst
    \<Rightarrow> (int \<times> ptr option \<times> kst) kres" where
  "tunnel_on_sock E net fd ver tid ptid cfg a st =
     bind_res (deref_ptr (socks (k_world st)) (Some a)) (\<lambda>(_, sk).
     let enc = (case cfg of None \<Rightarrow> L2TP_ENCAPTYPE_UDP | Some c \<Rightarrow> tcfg_encap c) in
     if enc = L2TP_ENCAPTYPE_UDP \<and> sk_protocol sk \<noteq> IPPROTO_UDP then Inr (- EPROTONOSUPPORT, None, st)
     else if enc = L2TP_ENCAPTYPE_IP \<and> sk_protocol sk \<noteq> IPPROTO_L2TP then Inr (- EPROTONOSUPPORT, None, st)
     else if sk_user_data sk \<noteq> None then Inr (- EBUSY, sk_user_data sk, st)
     else if \<not> kzalloc_ok E Alloc_tunnel then Inr (- ENOMEM, None, st)
     else let p = k_next st; st0 = st\<lparr>k_next := p + 1\<rparr> in
     if \<not> kzalloc_ok E Alloc_tunnel_stats then Inr (- ENOMEM, Some p, st0)
     else
       let st1 = set_tunnel p (new_tunnel E net fd ver tid ptid cfg enc a sk)
                   (st0\<lparr>k_world := upd_sock a (prep_sock enc p) (k_world st0),
                        l2tp_tunnel_count := l2tp_tunnel_count st0 + 1\<rparr>)
       in Inr (0, Some p, upd_net net (\<lambda>n. n\<lparr>l2tp_tunnel_list := p # l2tp_tunnel_list n\<rparr>) st1))"

text \<open>The label \<^verbatim>\<open>err\<close>: a socket that came from a file gives the file back.\<close>

definition tunnel_create_done :: "ptr option \<Rightarrow> int \<times> ptr option \<times> kst \<Rightarrow> (int \<times> ptr option \<times> kst) kres" where
  "tunnel_create_done skp r =
     (case (skp, r) of
        (None, r) \<Rightarrow> Inr r
      | (Some a, (err, tp, st)) \<Rightarrow>
          bind_res (deref_ptr (socks (k_world st)) (Some a)) (\<lambda>(_, sk).
            if sk_file sk then bind_res (on_world (sockfd_put a) st) (\<lambda>st'. Inr (err, tp, st'))
            else Inr (err, tp, st)))"

definition l2tp_tunnel_create :: "kenv \<Rightarrow> nat \<Rightarrow> int \<Rightarrow> int \<Rightarrow> u32 \<Rightarrow> u32 \<Rightarrow> l2tp_tunnel_cfg option \<Rightarrow> kst
    \<Rightarrow> (int \<times> ptr option \<times> kst) kres" where
  "l2tp_tunnel_create E net fd ver tid ptid cfg st =
     (if fd < 0
      then (case cfg of
              None \<Rightarrow> Inl NullDeref
            | Some c \<Rightarrow>
                bind_res (l2tp_tunnel_sock_create E net tid ptid c st) (\<lambda>(err, skp, st1).
                  case (if err < 0 then None else skp) of
                    None \<Rightarrow> Inr (err, None, st1)
                  | Some a \<Rightarrow> bind_res (tunnel_on_sock E net fd ver tid ptid cfg a st1) (tunnel_create_done (Some a))))
      else (case sockfd_lookup E fd of
              None \<Rightarrow> Inr (- EBADF, None, st)
            | Some a \<Rightarrow>
                bind_res (deref_ptr (socks (k_world st)) (Some a)) (\<lambda>(_, sk).
                let st1 = st\<lparr>k_world := upd_sock a (\<lambda>x. x\<lparr>file_refs := file_refs x + 1\<rparr>) (k_world st)\<rparr> in
                bind_res
                  (if sk_net sk \<noteq> net then Inr (- EINVAL, None, st1)
                   else tunnel_on_sock E net fd ver tid ptid cfg a st1)
                  (tunnel_create_done (Some a)))))"

definition l2tp_tunnel_delete :: "kenv \<Rightarrow> ptr \<Rightarrow> kst \<Rightarrow> (int \<times> kst) kres" where
  "l2tp_tunnel_delete E tp st =
     bind_res (l2tp_tunnel_inc_refcount tp st) (\<lambda>st1.
     bind_res (l2tp_tunnel_closeall E tp st1) (\<lambda>st2.
       if tp \<in> set (l2tp_wq st2)
       then bind_res (l2tp_tunnel_dec_refcount tp st2) (\<lambda>st3. Inr (1, st3))
       else Inr (0, st2\<lparr>l2tp_wq := l2tp_wq st2 @ [tp]\<rparr>)))"

section \<open>Namespaces\<close>

definition l2tp_init_net :: "nat \<Rightarrow> kst \<Rightarrow> kst" where
  "l2tp_init_net net =
     upd_net net (\<lambda>n. n\<lparr>l2tp_tunnel_list := [], l2tp_session_hlist := replicate L2TP_HASH_SIZE_2 []\<rparr>)"

fun delete_tunnels :: "kenv \<Rightarrow> ptr list \<Rightarrow> kst \<Rightarrow> kst kres" where
  "delete_tunnels E [] st = Inr st"
| "delete_tunnels E (tp # tps) st = bind_res (l2tp_tunnel_delete E tp st) (\<lambda>(_, st'). delete_tunnels E tps st')"

definition l2tp_exit_net :: "kenv \<Rightarrow> nat \<Rightarrow> kst \<Rightarrow> kst kres" where
  "l2tp_exit_net E net st = delete_tunnels E (l2tp_tunnel_list (k_nets st net)) st"

end
