(* ===== verification/L2tp_Path.thy ===== *)
theory L2tp_Path
  imports L2tp_Tunnel
begin

unbundle bit_operations_syntax

text \<open>
  The data paths of \<^verbatim>\<open>l2tp_core.c\<close> on the heap. Receiving: the UDP encapsulation handler, the
  checksum, the demultiplexer and \<^verbatim>\<open>l2tp_recv_common\<close>, which runs the session's receive path
  between taking and dropping a reference. Sending: \<^verbatim>\<open>l2tp_xmit_skb\<close> with the UDP header, the
  checksum and the counters. A packet that IP accepted keeps a reference to the tunnel's socket
  until it is freed; those packets are \<open>k_wskbs\<close>.
\<close>

abbreviation (input) NET_XMIT_SUCCESS :: int where "NET_XMIT_SUCCESS \<equiv> 0"
abbreviation (input) NET_XMIT_DROP :: int where "NET_XMIT_DROP \<equiv> 1"
abbreviation (input) CSUM_MANGLED_0 :: u16 where "CSUM_MANGLED_0 \<equiv> 0xffff"
abbreviation (input) L2TP_HDR_SIZE_SEQ :: nat where "L2TP_HDR_SIZE_SEQ \<equiv> 10"
abbreviation (input) UDP_HLEN :: nat where "UDP_HLEN \<equiv> 8"
abbreviation (input) IP_HLEN :: nat where "IP_HLEN \<equiv> 20"

section \<open>Receiving\<close>

text \<open>The receive state of a session and its tunnel, taken from the heap and put back.\<close>

definition with_rx :: "(rx \<Rightarrow> rx kres) \<Rightarrow> ptr \<Rightarrow> kst \<Rightarrow> kst kres" where
  "with_rx f p st =
     bind_res (deref_ptr (k_sessions st) (Some p)) (\<lambda>(a, s).
     bind_res (deref_ptr (k_tunnels st) (s_tunnel s)) (\<lambda>(b, t).
     bind_res (f \<lparr>rx_tunnel = t, rx_session = s, rx_world = k_world st, rx_trace = k_trace st\<rparr>) (\<lambda>r.
       Inr (set_session a (rx_session r) (set_tunnel b (rx_tunnel r)
              (st\<lparr>k_world := rx_world r, k_trace := rx_trace r\<rparr>))))))"

definition l2tp_recv_common :: "kenv \<Rightarrow> ptr \<Rightarrow> sk_buff \<Rightarrow> nat \<Rightarrow> u16 \<Rightarrow> int \<Rightarrow> payload_hook option \<Rightarrow> kst
    \<Rightarrow> kst kres" where
  "l2tp_recv_common E p skb i hdrflags len hook st =
     bind_res (l2tp_session_inc_refcount p st) (\<lambda>st1.
     bind_res (with_rx (\<lambda>r. recv_body pw E r skb i hdrflags len hook) p st1)
       (l2tp_session_dec_refcount p))"

text \<open>
  The verification of the UDP checksum; the flag is the function's non-zero result. The UDP
  header is at the start of the packet.
\<close>

definition udp_csum_v6 :: "kenv \<Rightarrow> u16 \<Rightarrow> u16 \<Rightarrow> sk_buff \<Rightarrow> bool \<times> sk_buff" where
  "udp_csum_v6 E ulen check skb =
     (if check = 0 then (True, skb)
      else if ip_summed skb = CHECKSUM_COMPLETE \<and>
              csum_ipv6_magic E (ipv6_saddr E skb) (ipv6_daddr E skb) (unat ulen) (skb_csum skb) = 0
      then (False, skb\<lparr>ip_summed := CHECKSUM_UNNECESSARY\<rparr>)
      else let skb' = skb\<lparr>skb_csum :=
                 NOT (ucast (csum_ipv6_magic E (ipv6_saddr E skb) (ipv6_daddr E skb) (skb_len skb) 0))\<rparr>
           in (skb_checksum_complete E skb', skb'))"

definition udp_csum_v4 :: "kenv \<Rightarrow> sock \<Rightarrow> u16 \<Rightarrow> u16 \<Rightarrow> sk_buff \<Rightarrow> bool \<times> sk_buff" where
  "udp_csum_v4 E sk ulen check skb =
     (if check = 0 then (False, skb)
      else let psum = csum_tcpudp_nofold E (inet_saddr sk) (inet_daddr sk) (unat ulen) in
           if ip_summed skb = CHECKSUM_COMPLETE \<and> csum_fold E (csum_add E psum (skb_csum skb)) = 0
           then (False, skb)
           else let skb' = skb\<lparr>skb_csum := psum\<rparr> in (skb_checksum_complete E skb', skb'))"

definition l2tp_verify_udp_checksum :: "kenv \<Rightarrow> ptr \<Rightarrow> sk_buff \<Rightarrow> kst \<Rightarrow> (bool \<times> sk_buff) kres" where
  "l2tp_verify_udp_checksum E a skb st =
     bind_res (get_be16 (linear skb) 4) (\<lambda>ulen.
     bind_res (deref_ptr (socks (k_world st)) (Some a)) (\<lambda>(_, sk).
     if sk_no_check sk \<noteq> 0 \<or> skb_csum_unnecessary E skb then Inr (False, skb)
     else
       bind_res (get_be16 (linear skb) 6) (\<lambda>check.
       if sk_family sk = AF_INET6
       then bind_res (deref_ptr (k_tunnels st) (sk_user_data sk)) (\<lambda>(_, t).
              Inr (if v4mapped t then udp_csum_v4 E sk ulen check skb else udp_csum_v6 E ulen check skb))
       else Inr (udp_csum_v4 E sk ulen check skb))))"

text \<open>
  The ids and flags of a packet: the offset of the data behind them and the session id; what
  the demultiplexer does not take goes back with its UDP header.
\<close>

definition parse_udp_header :: "l2tp_tunnel \<Rightarrow> sk_buff \<Rightarrow> u16 \<Rightarrow> (nat \<times> u32) kres" where
  "parse_udp_header t skb hdrflags =
     (if version t = L2TP_HDR_VER_2
      then let i = (if hdrflags AND L2TP_HDRFLAG_L \<noteq> 0 then 4 else 2) in
           bind_res (get_be16 (linear skb) i) (\<lambda>_.
           bind_res (get_be16 (linear skb) (i + 2)) (\<lambda>sid. Inr (i + 4, ucast sid)))
      else bind_res (get_be32 (linear skb) 4) (\<lambda>sid. Inr (8, sid)))"

definition pass_up :: "sk_buff \<Rightarrow> kst \<Rightarrow> (int \<times> sk_buff \<times> kst) kres" where
  "pass_up skb st = bind_res (skb_push skb UDP_HLEN) (\<lambda>skb'. Inr (1, skb', st))"

text \<open>The two \<^verbatim>\<open>pskb_may_pull\<close> of the demultiplexer, the second one only for a traced tunnel.\<close>

definition pull_headers :: "kenv \<Rightarrow> l2tp_tunnel \<Rightarrow> sk_buff \<Rightarrow> bool \<times> sk_buff" where
  "pull_headers E t skb =
     (case pskb_may_pull E skb L2TP_HDR_SIZE_SEQ of
        (False, skb1) \<Rightarrow> (False, skb1)
      | (True, skb1) \<Rightarrow>
          if t_debug t AND L2TP_MSG_DATA \<noteq> 0
          then pskb_may_pull E skb1 (min 32 (skb_len skb1)) else (True, skb1))"

definition udp_demux :: "kenv \<Rightarrow> ptr \<Rightarrow> l2tp_tunnel \<Rightarrow> sk_buff \<Rightarrow> payload_hook option \<Rightarrow> kst
    \<Rightarrow> (int \<times> sk_buff \<times> kst) kres" where
  "udp_demux E tp t skb hook st =
     bind_res (get_be16 (linear skb) 0) (\<lambda>hdrflags.
     if int (unat (hdrflags AND L2TP_HDR_VER_MASK)) \<noteq> version t then pass_up skb st
     else if hdrflags AND L2TP_HDRFLAG_T \<noteq> 0 then pass_up skb st
     else
       bind_res (parse_udp_header t skb hdrflags) (\<lambda>(i, sid).
       bind_res (l2tp_session_find E (l2tp_net t) (Some tp) sid st) (\<lambda>found.
       case found of
         None \<Rightarrow> pass_up skb st
       | Some p \<Rightarrow>
           bind_res (deref_ptr (k_sessions st) (Some p)) (\<lambda>(_, s).
           if recv_skb s = None then pass_up skb st
           else bind_res (l2tp_recv_common E p skb i hdrflags (int (skb_len skb)) hook st)
                  (\<lambda>st'. Inr (0, skb, st'))))))"

text \<open>
  \<^verbatim>\<open>l2tp_udp_recv_core\<close>. On a bad checksum the code counts the packet in the statistics of a
  session it has not looked up yet: the pointer is still NULL there.
\<close>

definition l2tp_udp_recv_core :: "kenv \<Rightarrow> ptr \<Rightarrow> sk_buff \<Rightarrow> payload_hook option \<Rightarrow> kst
    \<Rightarrow> (int \<times> sk_buff \<times> kst) kres" where
  "l2tp_udp_recv_core E tp skb hook st =
     bind_res (deref_ptr (k_tunnels st) (Some tp)) (\<lambda>(_, t).
     bind_res (case t_sock t of None \<Rightarrow> Inr (False, skb) | Some a \<Rightarrow> l2tp_verify_udp_checksum E a skb st)
       (\<lambda>(bad, skb1).
        if bad then bind_res (deref_ptr (k_sessions st) None) (\<lambda>_. Inr (0, skb1, st))
        else
          bind_res (skb_pull skb1 UDP_HLEN) (\<lambda>skb2.
          case pull_headers E t skb2 of
            (False, skb3) \<Rightarrow> pass_up skb3 st
          | (True, skb3) \<Rightarrow> udp_demux E tp t skb3 hook st)))"

definition l2tp_udp_encap_recv :: "kenv \<Rightarrow> ptr \<Rightarrow> sk_buff \<Rightarrow> kst \<Rightarrow> (int \<times> sk_buff \<times> kst) kres" where
  "l2tp_udp_encap_recv E a skb st =
     bind_res (l2tp_sock_to_tunnel (Some a) st) (\<lambda>(tp, st1).
     case tp of
       None \<Rightarrow> Inr (1, skb, st1)
     | Some b \<Rightarrow>
         bind_res (deref_ptr (k_tunnels st1) (Some b)) (\<lambda>(_, t).
         bind_res (l2tp_udp_recv_core E b skb (recv_payload_hook t) st1) (\<lambda>(rc, skb', st2).
         bind_res (on_world (sock_put (Some a)) st2) (\<lambda>st3.
           Inr (if rc \<noteq> 0 then 1 else 0, skb', st3)))))"

section \<open>Sending\<close>

definition tx_ok :: "nat \<Rightarrow> l2tp_stats \<Rightarrow> l2tp_stats" where
  "tx_ok n st = st\<lparr>tx_packets := tx_packets st + 1, tx_bytes := tx_bytes st + of_nat n\<rparr>"

definition tx_err :: "l2tp_stats \<Rightarrow> l2tp_stats" where
  "tx_err st = st\<lparr>tx_errors := tx_errors st + 1\<rparr>"

definition count_tx :: "kenv \<Rightarrow> ptr \<Rightarrow> (l2tp_stats \<Rightarrow> l2tp_stats) \<Rightarrow> kst \<Rightarrow> kst kres" where
  "count_tx E p f st =
     bind_res (deref_ptr (k_sessions st) (Some p)) (\<lambda>(a, s).
     bind_res (deref_ptr (k_tunnels st) (s_tunnel s)) (\<lambda>(b, t).
       Inr (set_session a (upd_s_stats E f s) (set_tunnel b (upd_t_stats E f t) st))))"

definition l2tp_xmit_core :: "kenv \<Rightarrow> ptr \<Rightarrow> sk_buff \<Rightarrow> kst \<Rightarrow> (int \<times> kst) kres" where
  "l2tp_xmit_core E p skb st =
     bind_res (deref_ptr (k_sessions st) (Some p)) (\<lambda>(_, s).
     bind_res (deref_ptr (k_tunnels st) (s_tunnel s)) (\<lambda>(_, t).
     bind_res (deref_ptr (socks (k_world st)) (skb_sk skb)) (\<lambda>(_, sk).
     let error = (if sk_family sk = AF_INET6 \<and> \<not> v4mapped t then inet6_csk_xmit E skb else ip_queue_xmit E skb);
         st1 = st\<lparr>k_trace := k_trace st @ [Xmit_skb skb], k_wskbs := skb # k_wskbs st\<rparr>
     in bind_res (count_tx E p (if error \<ge> 0 then tx_ok (skb_len skb) else tx_err) st1) (\<lambda>st2. Inr (0, st2)))))"

text \<open>The destructor of a packet in flight.\<close>

definition l2tp_sock_wfree :: "sk_buff \<Rightarrow> kst \<Rightarrow> kst kres" where
  "l2tp_sock_wfree skb st = on_world (sock_put (skb_sk skb)) (st\<lparr>k_wskbs := remove1 skb (k_wskbs st)\<rparr>)"

definition l2tp_skb_set_owner_w :: "sk_buff \<Rightarrow> ptr \<Rightarrow> kst \<Rightarrow> (sk_buff \<times> kst) kres" where
  "l2tp_skb_set_owner_w skb a st =
     bind_res (on_world (sock_hold (Some a)) st) (\<lambda>st'. Inr (skb\<lparr>skb_sk := Some a\<rparr>, st'))"

definition put_check :: "sk_buff \<Rightarrow> u16 \<Rightarrow> sk_buff kres" where
  "put_check skb c = bind_res (put_at (linear skb) 6 (put_be16 c)) (\<lambda>b.
     Inr (skb\<lparr>skb_data := b @ drop (skb_headlen skb) (skb_data skb)\<rparr>))"

text \<open>Whether the device behind the packet's route computes the checksum itself.\<close>

definition route_dev_csum :: "kenv \<Rightarrow> sk_buff \<Rightarrow> bool option" where
  "route_dev_csum E skb = (case skb_dst skb of None \<Rightarrow> None | Some d \<Rightarrow> dst_dev_csum E d)"

definition l2tp_xmit_ipv6_csum :: "kenv \<Rightarrow> sock \<Rightarrow> sk_buff \<Rightarrow> nat \<Rightarrow> sk_buff kres" where
  "l2tp_xmit_ipv6_csum E sk skb udp_len =
     (if route_dev_csum E skb \<noteq> Some True
      then let c = csum_ipv6_magic E (np_saddr sk) (sk_v6_daddr sk) udp_len (skb_checksum E skb udp_len)
           in put_check (skb\<lparr>ip_summed := CHECKSUM_UNNECESSARY\<rparr>) (if c = 0 then CSUM_MANGLED_0 else c)
      else put_check (skb\<lparr>ip_summed := CHECKSUM_PARTIAL\<rparr>)
             (NOT (csum_ipv6_magic E (np_saddr sk) (sk_v6_daddr sk) udp_len 0)))"

definition xmit_ipv4_csum :: "kenv \<Rightarrow> sock \<Rightarrow> sk_buff \<Rightarrow> nat \<Rightarrow> sk_buff kres" where
  "xmit_ipv4_csum E sk skb udp_len =
     (if sk_no_check sk = UDP_CSUM_NOXMIT then Inr (skb\<lparr>ip_summed := CHECKSUM_NONE\<rparr>)
      else if route_dev_csum E skb = Some False
      then let c = csum_tcpudp_magic E (inet_saddr sk) (inet_daddr sk) udp_len (skb_checksum E skb udp_len)
           in put_check (skb\<lparr>ip_summed := CHECKSUM_COMPLETE\<rparr>) (if c = 0 then CSUM_MANGLED_0 else c)
      else put_check (skb\<lparr>ip_summed := CHECKSUM_PARTIAL\<rparr>)
             (NOT (csum_tcpudp_magic E (inet_saddr sk) (inet_daddr sk) udp_len 0)))"

text \<open>The UDP header in front of the L2TP header; the length field keeps 16 bits.\<close>

definition put_udp_header :: "kenv \<Rightarrow> l2tp_tunnel \<Rightarrow> sock \<Rightarrow> sk_buff \<Rightarrow> nat \<Rightarrow> sk_buff kres" where
  "put_udp_header E t sk skb udp_len =
     bind_res (skb_push skb UDP_HLEN) (\<lambda>skb1.
     bind_res (put_at (linear skb1) 0 (put_be16 (inet_sport sk) @ put_be16 (inet_dport sk) @
                 put_be16 (of_nat udp_len) @ put_be16 0)) (\<lambda>b.
     let skb2 = skb1\<lparr>skb_data := b @ drop (skb_headlen skb1) (skb_data skb1)\<rparr> in
     if sk_family sk = AF_INET6 \<and> \<not> v4mapped t then l2tp_xmit_ipv6_csum E sk skb2 udp_len
     else xmit_ipv4_csum E sk skb2 udp_len))"

text \<open>The L2TP header, built by the session into the space pushed for it.\<close>

definition put_l2tp_header :: "l2tp_tunnel \<Rightarrow> l2tp_session \<Rightarrow> sk_buff \<Rightarrow> nat \<Rightarrow> (l2tp_session \<times> sk_buff) kres" where
  "put_l2tp_header t s skb n =
     bind_res (skb_push skb n) (\<lambda>skb1.
     bind_res (call_build_header (build_header s) t s (take n (skb_data skb1))) (\<lambda>(_, s', b).
       Inr (s', skb1\<lparr>skb_data := b @ drop n (skb_data skb1)\<rparr>)))"

definition l2tp_xmit_skb :: "kenv \<Rightarrow> ptr \<Rightarrow> sk_buff \<Rightarrow> nat \<Rightarrow> kst \<Rightarrow> (int \<times> kst) kres" where
  "l2tp_xmit_skb E p skb hlen st =
     bind_res (deref_ptr (k_sessions st) (Some p)) (\<lambda>(a, s).
     bind_res (deref_ptr (k_tunnels st) (s_tunnel s)) (\<lambda>(b, t).
     let uhlen = (if encap t = L2TP_ENCAPTYPE_UDP then UDP_HLEN else 0) in
     case skb_cow_head E skb (NET_SKB_PAD E + IP_HLEN + uhlen + hlen) of
       None \<Rightarrow> Inr (NET_XMIT_DROP, st\<lparr>k_trace := k_trace st @ [Kfree_skb skb]\<rparr>)
     | Some skb0 \<Rightarrow>
         bind_res (put_l2tp_header t s (skb0\<lparr>skb_sk := None\<rparr>) hlen) (\<lambda>(s', skb1).
         let st1 = set_session a s' st in
         bind_res (deref_ptr (socks (k_world st1)) (t_sock t)) (\<lambda>(c, sk).
         if sock_owned_by_user E c
         then Inr (NET_XMIT_DROP, st1\<lparr>k_trace := k_trace st1 @ [Kfree_skb skb1]\<rparr>)
         else
           let skb2 = skb1\<lparr>skb_dst := sk_dst_check E c\<rparr> in
           bind_res (if encap t = L2TP_ENCAPTYPE_UDP
                     then put_udp_header E t sk skb2 (uhlen + hlen + skb_len skb) else Inr skb2) (\<lambda>skb3.
           bind_res (l2tp_skb_set_owner_w skb3 c st1) (\<lambda>(skb4, st2).
           bind_res (l2tp_xmit_core E p skb4 st2) (\<lambda>(_, st3). Inr (NET_XMIT_SUCCESS, st3))))))))"

end
