(* ===== verification/L2tp_Eth.thy ===== *)
theory L2tp_Eth
  imports L2tp_Path
begin

unbundle bit_operations_syntax

text \<open>
  The Ethernet pseudowire of \<^verbatim>\<open>l2tp_eth.c\<close>: its network device (creation, counters, sending)
  and the session that belongs to it. What the kernel does when a device is registered or
  freed is the environment's \<open>register_netdev\<close>, which also picks the device's name.
\<close>

abbreviation (input) IFNAMSIZ :: nat where "IFNAMSIZ \<equiv> 16"
abbreviation (input) ETH_DATA_LEN :: int where "ETH_DATA_LEN \<equiv> 1500"
abbreviation (input) L2TP_ETH_DEV_NAME :: string where "L2TP_ETH_DEV_NAME \<equiv> ''l2tpeth%d''"

section \<open>The device\<close>

text \<open>\<^verbatim>\<open>ndo_init\<close>, called by \<^verbatim>\<open>register_netdev\<close>.\<close>

definition l2tp_eth_dev_init :: "kenv \<Rightarrow> l2tp_eth \<Rightarrow> int \<times> l2tp_eth" where
  "l2tp_eth_dev_init E dev =
     (if \<not> kzalloc_ok E Alloc_dstats then (- ENOMEM, dev)
      else (0, dev\<lparr>dstats := replicate (possible_cpus E) zero_pcpu_stats\<rparr>))"

definition eth_tx_ok :: "nat \<Rightarrow> l2tp_pcpu_stats \<Rightarrow> l2tp_pcpu_stats" where
  "eth_tx_ok n st = st\<lparr>d_tx_bytes := d_tx_bytes st + of_nat n, d_tx_packets := d_tx_packets st + 1\<rparr>"

definition eth_tx_dropped :: "l2tp_pcpu_stats \<Rightarrow> l2tp_pcpu_stats" where
  "eth_tx_dropped st = st\<lparr>d_tx_dropped := d_tx_dropped st + 1\<rparr>"

definition l2tp_eth_dev_xmit :: "kenv \<Rightarrow> sk_buff \<Rightarrow> ptr \<Rightarrow> kst \<Rightarrow> kst kres" where
  "l2tp_eth_dev_xmit E skb d st =
     bind_res (deref_ptr (devs (k_world st)) (Some d)) (\<lambda>(_, dev).
     bind_res (deref_ptr (k_sessions st) (Some (eth_session dev))) (\<lambda>(p, s).
     bind_res (l2tp_xmit_skb E p skb (unat (hdr_len s)) st) (\<lambda>(rc, st1).
       Inr (st1\<lparr>k_world := upd_dstats E d
              (if rc = NET_XMIT_SUCCESS then eth_tx_ok (skb_len skb) else eth_tx_dropped) (k_world st1)\<rparr>))))"

text \<open>The counters of all possible CPUs, added up.\<close>

definition add_pcpu_stats :: "l2tp_pcpu_stats \<Rightarrow> l2tp_pcpu_stats \<Rightarrow> l2tp_pcpu_stats" where
  "add_pcpu_stats x y = \<lparr>d_tx_packets = d_tx_packets x + d_tx_packets y, d_tx_bytes = d_tx_bytes x + d_tx_bytes y,
     d_rx_packets = d_rx_packets x + d_rx_packets y, d_rx_bytes = d_rx_bytes x + d_rx_bytes y,
     d_tx_dropped = d_tx_dropped x + d_tx_dropped y, d_rx_errors = d_rx_errors x + d_rx_errors y\<rparr>"

definition l2tp_eth_get_stats64 :: "ptr \<Rightarrow> world \<Rightarrow> l2tp_pcpu_stats kres" where
  "l2tp_eth_get_stats64 d w =
     bind_res (deref_ptr (devs w) (Some d)) (\<lambda>(_, dev). Inr (foldl add_pcpu_stats zero_pcpu_stats (dstats dev)))"

text \<open>What \<^verbatim>\<open>alloc_netdev\<close> returns after \<^verbatim>\<open>l2tp_eth_dev_setup\<close>, in the namespace it is moved to.\<close>

definition new_netdev :: "nat \<Rightarrow> string \<Rightarrow> l2tp_eth" where
  "new_netdev net name = \<lparr>dev_name = name, dev_net = net, dev_mtu = ETH_DATA_LEN, needed_headroom = 0,
     dev_refcnt = 0, dstats = [], tunnel_sock = None, eth_session = 0\<rparr>"

section \<open>Creating a session\<close>

text \<open>Registration: \<^verbatim>\<open>ndo_init\<close> first, then the kernel's own part.\<close>

definition register_eth_dev :: "kenv \<Rightarrow> l2tp_eth \<Rightarrow> int \<times> l2tp_eth" where
  "register_eth_dev E dev =
     (case l2tp_eth_dev_init E dev of
        (err, dev1) \<Rightarrow>
          if err \<noteq> 0 then (err, dev1)
          else (case register_netdev E dev1 of
                  Inl e \<Rightarrow> (e, dev1\<lparr>dstats := []\<rparr>)
                | Inr name \<Rightarrow> (0, dev1\<lparr>dev_name := name, dev_refcnt := 1\<rparr>)))"

definition eth_attach :: "kenv \<Rightarrow> nat \<Rightarrow> ptr \<Rightarrow> ptr \<Rightarrow> string \<Rightarrow> kst \<Rightarrow> (int \<times> kst) kres" where
  "eth_attach E net tp p name st =
     (if \<not> kzalloc_ok E Alloc_netdev
      then bind_res (l2tp_session_delete E p st) (\<lambda>st'. Inr (- ENOMEM, st'))
      else
        bind_res (deref_ptr (k_sessions st) (Some p)) (\<lambda>(_, s).
        bind_res (deref_ptr (k_tunnels st) (Some tp)) (\<lambda>(_, t).
        let d = k_next st;
            dev0 = new_netdev net name;
            s1 = (if s_mtu s = 0 then s\<lparr>s_mtu := dev_mtu dev0 - int (unat (hdr_len s))\<rparr> else s);
            dev1 = dev0\<lparr>dev_mtu := s_mtu s1, needed_headroom := needed_headroom dev0 + unat (hdr_len s1),
                        eth_session := p, tunnel_sock := t_sock t\<rparr>;
            s2 = s1\<lparr>recv_skb := Some L2tp_eth_dev_recv, session_close := Some L2tp_eth_delete,
                    priv := PrivEth (Some d)\<rparr>;
            st1 = st\<lparr>k_next := d + 1\<rparr>
        in case register_eth_dev E dev1 of
             (rc, dev2) \<Rightarrow>
               if rc < 0
               then bind_res (l2tp_session_delete E p (set_session p (s2\<lparr>priv := PrivEth None\<rparr>) st1))
                      (\<lambda>st'. Inr (rc, st'))
               else Inr (0, set_session p (s2\<lparr>ifname := take (IFNAMSIZ - 1) (dev_name dev2)\<rparr>)
                      (st1\<lparr>k_world := (k_world st1)
                         \<lparr>devs := (devs (k_world st1))(d \<mapsto> dev2\<lparr>dev_refcnt := dev_refcnt dev2 + 1\<rparr>),
                          eth_dev_list := (eth_dev_list (k_world st1))(net := d # eth_dev_list (k_world st1) net)\<rparr>\<rparr>)))))"

definition l2tp_eth_create :: "kenv \<Rightarrow> nat \<Rightarrow> u32 \<Rightarrow> u32 \<Rightarrow> u32 \<Rightarrow> l2tp_session_cfg \<Rightarrow> kst \<Rightarrow> (int \<times> kst) kres" where
  "l2tp_eth_create E net tid sid psid cfg st =
     bind_res (l2tp_tunnel_find net tid st) (\<lambda>tun.
     case tun of
       None \<Rightarrow> Inr (- ENODEV, st)
     | Some tp \<Rightarrow>
         bind_res (l2tp_session_find E net (Some tp) sid st) (\<lambda>old.
         if old \<noteq> None then Inr (- EEXIST, st)
         else if (case cfg_ifname cfg of None \<Rightarrow> False | Some n \<Rightarrow> dev_name_taken E net n) then Inr (- EEXIST, st)
         else
           let name = (case cfg_ifname cfg of None \<Rightarrow> L2TP_ETH_DEV_NAME | Some n \<Rightarrow> take (IFNAMSIZ - 1) n) in
           bind_res (l2tp_session_create E (PrivEth None) tp sid psid (Some cfg) st) (\<lambda>(sp, st1).
           case sp of
             None \<Rightarrow> Inr (- ENOMEM, st1)
           | Some p \<Rightarrow> eth_attach E net tp p name st1)))"

section \<open>The module\<close>

definition l2tp_eth_init_net :: "nat \<Rightarrow> world \<Rightarrow> world" where
  "l2tp_eth_init_net net w = w\<lparr>eth_dev_list := (eth_dev_list w)(net := [])\<rparr>"

end
