(* ===== verification/L2tp_Ppp.thy ===== *)
theory L2tp_Ppp
  imports L2tp_Eth
begin

unbundle bit_operations_syntax

text \<open>
  The sockets of the PPP pseudowire, \<^verbatim>\<open>l2tp_ppp.c\<close>: a PPPoX socket is connected to a session
  (or, with both ids zero, to a tunnel) and carries its PPP frames. What user space passes in,
  a byte list or the error of reading it, is an argument of the operations; so is the socket's
  address. The private area of a session is a \<^verbatim>\<open>struct pppol2tp_session\<close> only for sessions this
  module created; reading it on another session is a read outside the structure.
\<close>

abbreviation (input) PPPOX_NONE :: nat where "PPPOX_NONE \<equiv> 0"
abbreviation (input) PPPOX_CONNECTED :: nat where "PPPOX_CONNECTED \<equiv> 1"
abbreviation (input) PPPOX_DEAD :: nat where "PPPOX_DEAD \<equiv> 16"
abbreviation (input) AF_PPPOX :: nat where "AF_PPPOX \<equiv> 24"
abbreviation (input) PX_PROTO_OL2TP :: nat where "PX_PROTO_OL2TP \<equiv> 1"
abbreviation (input) PPPOL2TP_HEADER_OVERHEAD :: int where "PPPOL2TP_HEADER_OVERHEAD \<equiv> 40"
abbreviation (input) PPPOL2TP_L2TP_HDR_SIZE_SEQ :: nat where "PPPOL2TP_L2TP_HDR_SIZE_SEQ \<equiv> 10"
abbreviation (input) PPPOL2TP_L2TP_HDR_SIZE_NOSEQ :: nat where "PPPOL2TP_L2TP_HDR_SIZE_NOSEQ \<equiv> 6"

section \<open>Sessions of sockets\<close>

definition zero_ppp_session :: pppol2tp_session where
  "zero_ppp_session = \<lparr>ps_owner = 0, ps_sock = None, ps_tunnel_sock = None, ps_flags = 0\<rparr>"

definition ppp_priv :: "l2tp_session \<Rightarrow> pppol2tp_session kres" where
  "ppp_priv s = (case priv s of PrivPpp ps \<Rightarrow> Inr ps | _ \<Rightarrow> Inl OutOfBounds)"

definition pppol2tp_sock_to_session :: "ptr option \<Rightarrow> kst \<Rightarrow> (ptr option \<times> kst) kres" where
  "pppol2tp_sock_to_session skp st =
     (case skp of
        None \<Rightarrow> Inr (None, st)
      | Some a \<Rightarrow>
          bind_res (on_world (sock_hold (Some a)) st) (\<lambda>st1.
          bind_res (deref_ptr (socks (k_world st1)) (Some a)) (\<lambda>(_, sk).
          case sk_user_data sk of
            None \<Rightarrow> bind_res (on_world (sock_put (Some a)) st1) (\<lambda>st2. Inr (None, st2))
          | Some p \<Rightarrow>
              bind_res (user_magic st1 p) (\<lambda>m.
              bind_res (require BugOn (m = L2TP_SESSION_MAGIC)) (\<lambda>_. Inr (Some p, st1))))))"

text \<open>
  The handlers that need the session of a socket and its private area; the reference taken on
  the socket is dropped when the handler is done.
\<close>

definition with_ppp_session :: "ptr \<Rightarrow> (ptr \<Rightarrow> l2tp_session \<Rightarrow> pppol2tp_session \<Rightarrow> kst \<Rightarrow> ('a \<times> kst) kres) \<Rightarrow> 'a \<Rightarrow> kst
    \<Rightarrow> ('a \<times> kst) kres" where
  "with_ppp_session a f none st =
     bind_res (pppol2tp_sock_to_session (Some a) st) (\<lambda>(sp, st1).
     case sp of
       None \<Rightarrow> Inr (none, st1)
     | Some p \<Rightarrow>
         bind_res (deref_ptr (k_sessions st1) (Some p)) (\<lambda>(_, s).
         bind_res (ppp_priv s) (\<lambda>ps.
         bind_res (f p s ps st1) (\<lambda>(x, st2).
         bind_res (on_world (sock_put (Some a)) st2) (\<lambda>st3. Inr (x, st3))))))"

section \<open>Messages\<close>

text \<open>The result, the bytes copied, whether the packet was cut.\<close>

definition pppol2tp_recvmsg :: "kenv \<Rightarrow> ptr \<Rightarrow> nat \<Rightarrow> kst \<Rightarrow> ((int \<times> u8 list \<times> bool) \<times> kst) kres" where
  "pppol2tp_recvmsg E a len st =
     bind_res (deref_ptr (socks (k_world st)) (Some a)) (\<lambda>(_, sk).
     if sk_state sk AND PPPOX_BOUND \<noteq> 0 then Inr ((- EIO, [], False), st)
     else case sk_receive_queue sk of
       [] \<Rightarrow> Inr ((recv_datagram_err E a, [], False), st)
     | skb # q \<Rightarrow>
         let n = min len (skb_len skb);
             bytes = take n (skb_data skb);
             err = skb_copy_to_user E bytes;
             st1 = st\<lparr>k_world := upd_sock a (\<lambda>x. x\<lparr>sk_receive_queue := q\<rparr>) (k_world st),
                      k_trace := k_trace st @ [Kfree_skb skb]\<rparr>
         in Inr ((if err = 0 then int n else err, if err = 0 then bytes else [], len < skb_len skb), st1))"

text \<open>A packet built from scratch: the headroom reserved and the bytes put behind it.\<close>

definition new_skb :: "ptr \<Rightarrow> nat \<Rightarrow> u8 list \<Rightarrow> sk_buff" where
  "new_skb a headroom bs = \<lparr>skb_head = replicate headroom 0, skb_data = bs, skb_headlen = length bs,
     skb_cb = \<lparr>cb_ns = 0, cb_has_seq = False, cb_length = 0, cb_expires = 0\<rparr>,
     ip_summed = CHECKSUM_NONE, skb_csum = 0, skb_sk = Some a, skb_dst = None\<rparr>"

definition ppph :: "u8 list" where "ppph = [0xff, 0x03]"

definition sendmsg_session :: "kenv \<Rightarrow> ptr \<Rightarrow> int + u8 list \<Rightarrow> ptr \<Rightarrow> l2tp_session \<Rightarrow> pppol2tp_session \<Rightarrow> kst
    \<Rightarrow> (int \<times> kst) kres" where
  "sendmsg_session E a iov p s ps st =
     bind_res (l2tp_sock_to_tunnel (ps_tunnel_sock ps) st) (\<lambda>(tp, st1).
     case tp of
       None \<Rightarrow> Inr (- EBADF, st1)
     | Some b \<Rightarrow>
         bind_res (deref_ptr (k_tunnels st1) (Some b)) (\<lambda>(_, t).
         let uhlen = (if encap t = L2TP_ENCAPTYPE_UDP then UDP_HLEN else 0) in
         bind_res
           (if \<not> kzalloc_ok E Alloc_skb then Inr (- ENOMEM, st1)
            else case iov of
              Inl e \<Rightarrow> Inr (e, st1\<lparr>k_trace := k_trace st1 @ [Kfree_skb (new_skb a (NET_SKB_PAD E + IP_HLEN + uhlen) ppph)]\<rparr>)
            | Inr bs \<Rightarrow>
                bind_res (l2tp_xmit_skb E p (new_skb a (NET_SKB_PAD E + IP_HLEN + uhlen) (ppph @ bs)) (unat (hdr_len s)) st1)
                  (\<lambda>(_, st2). Inr (int (length bs), st2)))
           (\<lambda>(rc, st3). bind_res (on_world (sock_put (ps_tunnel_sock ps)) st3) (\<lambda>st4. Inr (rc, st4)))))"

definition pppol2tp_sendmsg :: "kenv \<Rightarrow> ptr \<Rightarrow> int + u8 list \<Rightarrow> kst \<Rightarrow> (int \<times> kst) kres" where
  "pppol2tp_sendmsg E a iov st =
     bind_res (deref_ptr (socks (k_world st)) (Some a)) (\<lambda>(_, sk).
     if sk_dead sk \<or> sk_state sk AND PPPOX_CONNECTED = 0 then Inr (- ENOTCONN, st)
     else with_ppp_session a (sendmsg_session E a iov) (- EBADF) st)"

text \<open>The transmit function of the PPP channel; what it does not send it frees.\<close>

definition kfree_abort :: "sk_buff \<Rightarrow> kst \<Rightarrow> (int \<times> kst) kres" where
  "kfree_abort skb st = Inr (1, st\<lparr>k_trace := k_trace st @ [Kfree_skb skb]\<rparr>)"

definition xmit_session :: "kenv \<Rightarrow> sk_buff \<Rightarrow> ptr \<Rightarrow> l2tp_session \<Rightarrow> pppol2tp_session \<Rightarrow> kst \<Rightarrow> (bool \<times> kst) kres" where
  "xmit_session E skb p s ps st =
     (case ps_tunnel_sock ps of
        None \<Rightarrow> Inr (False, st)
      | Some c \<Rightarrow>
          bind_res (l2tp_sock_to_tunnel (Some c) st) (\<lambda>(tp, st1).
          case tp of
            None \<Rightarrow> Inr (False, st1)
          | Some b \<Rightarrow>
              bind_res (deref_ptr (k_tunnels st1) (Some b)) (\<lambda>(_, t).
              let uhlen = (if encap t = L2TP_ENCAPTYPE_UDP then UDP_HLEN else 0) in
              bind_res
                (case skb_cow_head E skb (NET_SKB_PAD E + IP_HLEN + uhlen + unat (hdr_len s) + length ppph) of
                   None \<Rightarrow> Inr (False, st1)
                 | Some skb0 \<Rightarrow>
                     bind_res (skb_push skb0 (length ppph)) (\<lambda>skb1.
                     bind_res (l2tp_xmit_skb E p (skb1\<lparr>skb_data := ppph @ drop 2 (skb_data skb1)\<rparr>) (unat (hdr_len s)) st1)
                       (\<lambda>(_, st2). Inr (True, st2))))
                (\<lambda>(sent, st3). bind_res (on_world (sock_put (Some c)) st3) (\<lambda>st4. Inr (sent, st4))))))"

definition pppol2tp_xmit :: "kenv \<Rightarrow> ptr \<Rightarrow> sk_buff \<Rightarrow> kst \<Rightarrow> (int \<times> kst) kres" where
  "pppol2tp_xmit E a skb st =
     bind_res (deref_ptr (socks (k_world st)) (Some a)) (\<lambda>(_, sk).
     if sk_dead sk \<or> sk_state sk AND PPPOX_CONNECTED = 0 then kfree_abort skb st
     else bind_res (with_ppp_session a (xmit_session E skb) False st) (\<lambda>(sent, st1).
            if sent then Inr (1, st1) else kfree_abort skb st1))"

section \<open>Creating, connecting and closing sockets\<close>

definition pppol2tp_backlog_recv :: "kenv \<Rightarrow> ptr \<Rightarrow> sk_buff \<Rightarrow> kst \<Rightarrow> kst kres" where
  "pppol2tp_backlog_recv E a skb st =
     bind_res (l2tp_udp_encap_recv E a skb st) (\<lambda>(rc, skb', st').
       Inr (if rc \<noteq> 0 then st'\<lparr>k_trace := k_trace st' @ [Kfree_skb skb']\<rparr> else st'))"

definition new_pppox_sock :: "nat \<Rightarrow> sock" where
  "new_pppox_sock net = \<lparr>sk_refcnt = 1, sk_family = AF_PPPOX, sk_protocol = PX_PROTO_OL2TP, sk_state = PPPOX_NONE,
     sk_user_data = None, sk_destruct = Some Pppol2tp_session_destruct, sk_no_check = 0, sk_bound_dev_if = 0,
     sk_net = net, sk_socket = True, sk_file = True, file_refs = 0, sk_shutdown = False, sk_dead = False,
     sk_zapped = False, inet_saddr = 0, inet_rcv_saddr = 0, inet_daddr = 0, inet_sport = 0, inet_dport = 0,
     inet_num = 0, freebind = False, force_daddr_on_connect = False, np_saddr = 0, sk_v6_daddr = 0,
     sk_v6_rcv_saddr = 0, encap_type = 0, encap_rcv = False, encap_destroy = False, sk_receive_queue = [],
     sk_write_queue = [], conn_id = 0, peer_conn_id = 0, chan_hdrlen = 0, chan_mtu = 0, chan_registered = False\<rparr>"

definition pppol2tp_create :: "kenv \<Rightarrow> nat \<Rightarrow> kst \<Rightarrow> int \<times> ptr option \<times> kst" where
  "pppol2tp_create E net st =
     (if \<not> kzalloc_ok E Alloc_sock then (- ENOMEM, None, st)
      else let a = k_next st
           in (0, Some a, st\<lparr>k_next := a + 1,
                 k_world := (k_world st)\<lparr>socks := (socks (k_world st))(a \<mapsto> new_pppox_sock net)\<rparr>\<rparr>))"

definition pppol2tp_release :: "kenv \<Rightarrow> ptr option \<Rightarrow> kst \<Rightarrow> (int \<times> kst) kres" where
  "pppol2tp_release E skp st =
     (case skp of
        None \<Rightarrow> Inr (0, st)
      | Some a \<Rightarrow>
          bind_res (deref_ptr (socks (k_world st)) (Some a)) (\<lambda>(_, sk).
          if sk_dead sk then Inr (- EBADF, st)
          else
            let st1 = st\<lparr>k_world := upd_sock a (\<lambda>x. x\<lparr>chan_registered := False, sk_state := PPPOX_DEAD,
                          sk_dead := True, sk_socket := False\<rparr>) (k_world st)\<rparr> in
            bind_res (pppol2tp_sock_to_session (Some a) st1) (\<lambda>(sp, st2).
            bind_res
              (case sp of
                 None \<Rightarrow> Inr st2
               | Some p \<Rightarrow>
                   bind_res (l2tp_session_unhash p st2) (\<lambda>st3.
                   bind_res (session_purge E p st3) (on_world (sock_put (Some a))))) (\<lambda>st4.
            bind_res (deref_ptr (socks (k_world st4)) (Some a)) (\<lambda>(_, sk').
            let st5 = st4\<lparr>k_trace := k_trace st4 @ map Kfree_skb (sk_receive_queue sk' @ sk_write_queue sk'),
                          k_world := upd_sock a (\<lambda>x. x\<lparr>sk_receive_queue := [], sk_write_queue := []\<rparr>) (k_world st4)\<rparr> in
            bind_res (on_world (sock_put (Some a)) st5) (\<lambda>st6. Inr (0, st6)))))))"

text \<open>
  The address of \<^verbatim>\<open>connect\<close>. Which of the four structures it is, the code tells from its length;
  the ids of the version 2 structures have 16 bits.
\<close>

datatype sa_kind = Sockaddr_pppol2tp | Sockaddr_pppol2tpv3 | Sockaddr_pppol2tpin6 | Sockaddr_pppol2tpv3in6 | Sockaddr_bad_len

record sockaddr_pppol2tp =
  sa_protocol :: nat
  sa_kind :: sa_kind
  sa_fd :: int
  sa_s_tunnel :: u32
  sa_d_tunnel :: u32
  sa_s_session :: u32
  sa_d_session :: u32

definition sa_ver :: "sa_kind \<Rightarrow> int" where
  "sa_ver k = (if k = Sockaddr_pppol2tpv3 \<or> k = Sockaddr_pppol2tpv3in6 then 3 else 2)"

definition sa_id :: "sa_kind \<Rightarrow> u32 \<Rightarrow> u32" where
  "sa_id k x = (if sa_ver k = 3 then x else ucast (ucast x :: u16))"

definition connect_tcfg :: l2tp_tunnel_cfg where
  "connect_tcfg = \<lparr>tcfg_debug = 0, tcfg_encap = L2TP_ENCAPTYPE_UDP, local_ip = 0, peer_ip = 0, local_ip6 = None,
     peer_ip6 = None, local_udp_port = 0, peer_udp_port = 0, use_udp_checksums = False\<rparr>"

text \<open>The tunnel to attach to: looked up, or created for a tunnel management socket.\<close>

definition connect_tunnel :: "kenv \<Rightarrow> nat \<Rightarrow> sockaddr_pppol2tp \<Rightarrow> kst \<Rightarrow> ((int + ptr) \<times> kst) kres" where
  "connect_tunnel E net sp st =
     (let k = sa_kind sp; tid = sa_id k (sa_s_tunnel sp); ptid = sa_id k (sa_d_tunnel sp) in
      if tid = 0 then Inr (Inl (- EINVAL), st)
      else
        bind_res (l2tp_tunnel_find net tid st) (\<lambda>tun.
        if sa_id k (sa_s_session sp) = 0 \<and> sa_id k (sa_d_session sp) = 0
        then (case tun of
                Some tp \<Rightarrow> Inr (Inr tp, st)
              | None \<Rightarrow>
                  bind_res (l2tp_tunnel_create E net (sa_fd sp) (sa_ver k) tid ptid (Some connect_tcfg) st)
                    (\<lambda>(err, tp, st1).
                      if err < 0 then Inr (Inl err, st1)
                      else case tp of None \<Rightarrow> Inl NullDeref | Some b \<Rightarrow> Inr (Inr b, st1)))
        else (case tun of
                None \<Rightarrow> Inr (Inl (- ENOENT), st)
              | Some tp \<Rightarrow>
                  bind_res (deref_ptr (k_tunnels st) (Some tp)) (\<lambda>(_, t).
                    Inr (if t_sock t = None then Inl (- ENOENT) else Inr tp, st)))))"

text \<open>The session to attach to: found and free, or created.\<close>

definition ppp_cfg :: "int \<Rightarrow> l2tp_session_cfg" where
  "ppp_cfg mtu = \<lparr>cfg_pw_type = 0, cfg_data_seq = 0, cfg_recv_seq = 0, cfg_send_seq = 0, cfg_lns_mode = 0,
     cfg_debug = 0, cfg_vlan_id = 0, cfg_offset = 0, cfg_l2specific_len = 0, cfg_l2specific_type = 0,
     cfg_cookie = replicate 8 0, cfg_cookie_len = 0, cfg_peer_cookie = replicate 8 0, cfg_peer_cookie_len = 0,
     cfg_reorder_timeout = 0, cfg_mtu = mtu, cfg_mru = mtu, cfg_ifname = None\<rparr>"

definition connect_session :: "kenv \<Rightarrow> nat \<Rightarrow> ptr \<Rightarrow> u32 \<Rightarrow> u32 \<Rightarrow> kst \<Rightarrow> ((int + ptr) \<times> kst) kres" where
  "connect_session E net tp sid psid st =
     bind_res (l2tp_session_find E net (Some tp) sid st) (\<lambda>old.
     case old of
       None \<Rightarrow>
         bind_res (l2tp_session_create E (PrivPpp zero_ppp_session) tp sid psid
             (Some (ppp_cfg (1500 - PPPOL2TP_HEADER_OVERHEAD))) st) (\<lambda>(sp, st1).
           Inr (case sp of None \<Rightarrow> Inl (- ENOMEM) | Some p \<Rightarrow> Inr p, st1))
     | Some p \<Rightarrow>
         bind_res (deref_ptr (k_sessions st) (Some p)) (\<lambda>(_, s).
         bind_res (ppp_priv s) (\<lambda>ps.
         bind_res (deref_ptr (k_tunnels st) (Some tp)) (\<lambda>(_, t).
           Inr (if ps_sock ps \<noteq> None \<or> ps_tunnel_sock ps \<noteq> t_sock t then Inl (- EEXIST) else Inr p, st)))))"

text \<open>Attaching: the session's hooks, the MTU the route allows, the PPP channel.\<close>

definition ppp_attach :: "kenv \<Rightarrow> ptr \<Rightarrow> l2tp_tunnel \<Rightarrow> pppol2tp_session \<Rightarrow> l2tp_session \<Rightarrow> l2tp_session" where
  "ppp_attach E a t ps s =
     s\<lparr>priv := PrivPpp (ps\<lparr>ps_owner := current_pid E, ps_sock := Some a, ps_tunnel_sock := t_sock t\<rparr>),
       recv_skb := Some Pppol2tp_recv, session_close := Some Pppol2tp_session_close, s_ref := True, s_deref := True\<rparr>"

definition use_pmtu :: "nat option \<Rightarrow> l2tp_session \<Rightarrow> l2tp_session" where
  "use_pmtu pmtu s =
     (case pmtu of
        None \<Rightarrow> s
      | Some m \<Rightarrow> if m \<noteq> 0 then s\<lparr>s_mtu := int m - PPPOL2TP_HEADER_OVERHEAD, s_mru := int m - PPPOL2TP_HEADER_OVERHEAD\<rparr> else s)"

definition connect_attach :: "kenv \<Rightarrow> ptr \<Rightarrow> ptr \<Rightarrow> ptr \<Rightarrow> kst \<Rightarrow> (int \<times> kst) kres" where
  "connect_attach E a tp p st =
     bind_res (deref_ptr (k_tunnels st) (Some tp)) (\<lambda>(_, t).
     bind_res (deref_ptr (k_sessions st) (Some p)) (\<lambda>(_, s).
     bind_res (ppp_priv s) (\<lambda>ps.
     bind_res (deref_ptr (socks (k_world st)) (t_sock t)) (\<lambda>(c, _).
     let s1 = use_pmtu (dst_pmtu E c) (ppp_attach E a t ps s);
         st1 = set_session p s1 st;
         done = (\<lambda>w. upd_sock a (\<lambda>x. x\<lparr>sk_user_data := Some p, sk_state := PPPOX_CONNECTED\<rparr>) w)
     in if session_id s1 = 0 \<and> peer_session_id s1 = 0
        then Inr (0, st1\<lparr>k_world := done (k_world st1)\<rparr>)
        else
          let st2 = st1\<lparr>k_world := upd_sock a (\<lambda>x. x\<lparr>chan_hdrlen := PPPOL2TP_L2TP_HDR_SIZE_NOSEQ,
                        chan_mtu := s_mtu s1\<rparr>) (k_world st1)\<rparr>;
              err = ppp_register_net_channel E a
          in if err \<noteq> 0 then Inr (err, st2)
             else Inr (0, st2\<lparr>k_world := done (upd_sock a (\<lambda>x. x\<lparr>chan_registered := True\<rparr>) (k_world st2))\<rparr>)))))"

definition connect_hooks :: "u32 \<Rightarrow> ptr \<Rightarrow> kst \<Rightarrow> kst kres" where
  "connect_hooks ptid tp st =
     bind_res (deref_ptr (k_tunnels st) (Some tp)) (\<lambda>(_, t).
       let t1 = (if recv_payload_hook t = None then t\<lparr>recv_payload_hook := Some Pppol2tp_recv_payload_hook\<rparr> else t)
       in Inr (set_tunnel tp (if peer_tunnel_id t1 = 0 then t1\<lparr>peer_tunnel_id := ptid\<rparr> else t1) st))"

definition pppol2tp_connect :: "kenv \<Rightarrow> ptr \<Rightarrow> sockaddr_pppol2tp \<Rightarrow> kst \<Rightarrow> (int \<times> kst) kres" where
  "pppol2tp_connect E a sp st =
     bind_res (deref_ptr (socks (k_world st)) (Some a)) (\<lambda>(_, sk).
     if sa_protocol sp \<noteq> PX_PROTO_OL2TP then Inr (- EINVAL, st)
     else if sk_state sk AND PPPOX_CONNECTED \<noteq> 0 then Inr (- EBUSY, st)
     else if sk_user_data sk \<noteq> None then Inr (- EALREADY, st)
     else if sa_kind sp = Sockaddr_bad_len then Inr (- EINVAL, st)
     else
       bind_res (connect_tunnel E (sk_net sk) sp st) (\<lambda>(tun, st1).
       case tun of
         Inl e \<Rightarrow> Inr (e, st1)
       | Inr tp \<Rightarrow>
           let k = sa_kind sp in
           bind_res (connect_hooks (sa_id k (sa_d_tunnel sp)) tp st1) (\<lambda>st2.
           bind_res (connect_session E (sk_net sk) tp (sa_id k (sa_s_session sp)) (sa_id k (sa_d_session sp)) st2)
             (\<lambda>(sess, st3).
               case sess of
                 Inl e \<Rightarrow> Inr (e, st3)
               | Inr p \<Rightarrow> connect_attach E a tp p st3))))"

text \<open>Sessions created through netlink, without a socket.\<close>

definition pppol2tp_session_create :: "kenv \<Rightarrow> nat \<Rightarrow> u32 \<Rightarrow> u32 \<Rightarrow> u32 \<Rightarrow> l2tp_session_cfg \<Rightarrow> kst
    \<Rightarrow> (int \<times> kst) kres" where
  "pppol2tp_session_create E net tid sid psid cfg0 st =
     bind_res (l2tp_tunnel_find net tid st) (\<lambda>tun.
     case tun of
       None \<Rightarrow> Inr (- ENOENT, st)
     | Some tp \<Rightarrow>
         bind_res (deref_ptr (k_tunnels st) (Some tp)) (\<lambda>(_, t).
         if t_sock t = None then Inr (- ENOENT, st)
         else
           bind_res (l2tp_session_find E net (Some tp) sid st) (\<lambda>old.
           if old \<noteq> None then Inr (- EEXIST, st)
           else
             let cfg1 = (if cfg_mtu cfg0 = 0 then cfg0\<lparr>cfg_mtu := 1500 - PPPOL2TP_HEADER_OVERHEAD\<rparr> else cfg0);
                 cfg = (if cfg_mru cfg1 = 0 then cfg1\<lparr>cfg_mru := cfg_mtu cfg1\<rparr> else cfg1)
             in bind_res (l2tp_session_create E (PrivPpp zero_ppp_session) tp sid psid (Some cfg) st) (\<lambda>(sp, st1).
                case sp of
                  None \<Rightarrow> Inr (- ENOMEM, st1)
                | Some p \<Rightarrow>
                    bind_res (deref_ptr (k_sessions st1) (Some p)) (\<lambda>(_, s).
                    bind_res (ppp_priv s) (\<lambda>ps.
                      Inr (0, set_session p (s\<lparr>priv := PrivPpp (ps\<lparr>ps_tunnel_sock := t_sock t\<rparr>)\<rparr>) st1)))))))"

end
