(* ===== verification/L2tp_Ppp_Ctl.thy ===== *)
theory L2tp_Ppp_Ctl
  imports L2tp_Ppp
begin

unbundle bit_operations_syntax

text \<open>
  The control side of the PPP sockets: \<^verbatim>\<open>getname\<close>, the ioctls, the socket options and the file
  \<^verbatim>\<open>/proc/net/pppol2tp\<close>. User memory is an argument: what can be read from it (nothing, when the
  read faults) and whether it can be written; what is written is part of the result. A handler
  that copies out a variable it never set copies \<open>Uninit\<close>.
\<close>

section \<open>Statistics\<close>

text \<open>The sums over the CPUs; \<^verbatim>\<open>rx_cookie_discards\<close> is not reported.\<close>

definition add_stats :: "l2tp_stats \<Rightarrow> l2tp_stats \<Rightarrow> l2tp_stats" where
  "add_stats x y = \<lparr>tx_packets = tx_packets x + tx_packets y, tx_bytes = tx_bytes x + tx_bytes y,
     tx_errors = tx_errors x + tx_errors y, rx_packets = rx_packets x + rx_packets y,
     rx_bytes = rx_bytes x + rx_bytes y, rx_seq_discards = rx_seq_discards x + rx_seq_discards y,
     rx_oos_packets = rx_oos_packets x + rx_oos_packets y, rx_errors = rx_errors x + rx_errors y,
     rx_cookie_discards = 0\<rparr>"

definition pppol2tp_copy_stats :: "l2tp_stats list \<Rightarrow> l2tp_stats" where
  "pppol2tp_copy_stats xs = foldl add_stats zero_stats xs"

section \<open>Names\<close>

record pppol2tp_name =
  pn_kind :: sa_kind
  pn_fd :: int
  pn_pid :: int
  pn_s_tunnel :: u32
  pn_d_tunnel :: u32
  pn_s_session :: u32
  pn_d_session :: u32
  pn_port :: u16
  pn_addr :: "u32 + 128 word"

definition name_kind :: "int \<Rightarrow> nat \<Rightarrow> sa_kind option" where
  "name_kind ver family =
     (if ver = 2 \<and> family = AF_INET then Some Sockaddr_pppol2tp
      else if ver = 2 \<and> family = AF_INET6 then Some Sockaddr_pppol2tpin6
      else if ver = 3 \<and> family = AF_INET6 then Some Sockaddr_pppol2tpv3in6
      else if ver = 3 then Some Sockaddr_pppol2tpv3 else None)"

definition ppp_name :: "l2tp_tunnel \<Rightarrow> sock \<Rightarrow> l2tp_session \<Rightarrow> pppol2tp_session \<Rightarrow> sa_kind \<Rightarrow> pppol2tp_name" where
  "ppp_name t tsk s ps k = \<lparr>pn_kind = k, pn_fd = t_fd t, pn_pid = ps_owner ps,
     pn_s_tunnel = sa_id k (tunnel_id t), pn_d_tunnel = sa_id k (peer_tunnel_id t),
     pn_s_session = sa_id k (session_id s), pn_d_session = sa_id k (peer_session_id s), pn_port = inet_dport tsk,
     pn_addr = (if k = Sockaddr_pppol2tpin6 \<or> k = Sockaddr_pppol2tpv3in6
                then Inr (sk_v6_daddr tsk) else Inl (inet_daddr tsk))\<rparr>"

text \<open>The result is zero whenever a session was found, also where the tunnel was not.\<close>

definition getname_session :: "ptr \<Rightarrow> l2tp_session \<Rightarrow> pppol2tp_session \<Rightarrow> kst
    \<Rightarrow> ((int \<times> pppol2tp_name option) \<times> kst) kres" where
  "getname_session p s ps st =
     bind_res (l2tp_sock_to_tunnel (ps_tunnel_sock ps) st) (\<lambda>(tp, st1).
     case tp of
       None \<Rightarrow> Inr ((0, None), st1)
     | Some b \<Rightarrow>
         bind_res (deref_ptr (k_tunnels st1) (Some b)) (\<lambda>(_, t).
         bind_res (deref_ptr (socks (k_world st1)) (t_sock t)) (\<lambda>(_, tsk).
         bind_res (on_world (sock_put (ps_tunnel_sock ps)) st1) (\<lambda>st2.
           Inr ((0, map_option (ppp_name t tsk s ps) (name_kind (version t) (sk_family tsk))), st2)))))"

definition pppol2tp_getname :: "ptr option \<Rightarrow> kst \<Rightarrow> ((int \<times> pppol2tp_name option) \<times> kst) kres" where
  "pppol2tp_getname skp st =
     (case skp of
        None \<Rightarrow> Inr ((- ENOTCONN, None), st)
      | Some a \<Rightarrow>
          bind_res (deref_ptr (socks (k_world st)) (Some a)) (\<lambda>(_, sk).
          if sk_state sk \<noteq> PPPOX_CONNECTED then Inr ((- ENOTCONN, None), st)
          else with_ppp_session a getname_session (- EBADF, None) st))"

section \<open>Ioctls\<close>

datatype ppp_cmd = SIOCGIFMTU | SIOCSIFMTU | PPPIOCGMRU | PPPIOCSMRU | PPPIOCGFLAGS | PPPIOCSFLAGS
  | PPPIOCGL2TPSTATS | Other_cmd

record pppol2tp_ioc_stats =
  ioc_tunnel_id :: u16
  ioc_session_id :: u16
  ioc_using_ipsec :: bool
  ioc_stats :: l2tp_stats

datatype user_out = Nothing | Out_int int | Out_stats pppol2tp_ioc_stats | Uninit nat

record user_mem =
  um_int :: "int option"
  um_stats :: "pppol2tp_ioc_stats option"
  um_writable :: bool

definition put_out :: "user_mem \<Rightarrow> user_out \<Rightarrow> int \<times> user_out" where
  "put_out um x = (if um_writable um then (0, x) else (- EFAULT, Nothing))"

text \<open>
  The answer and the session after a command on a session whose socket is \<open>sk\<close>. The commands
  that read or set the MTU read an \<^verbatim>\<open>ifreq\<close> from user space first.
\<close>

definition session_cmd :: "l2tp_tunnel \<Rightarrow> sock \<Rightarrow> pppol2tp_session \<Rightarrow> ppp_cmd \<Rightarrow> user_mem \<Rightarrow> l2tp_session
    \<Rightarrow> (int \<times> user_out) \<times> l2tp_session" where
  "session_cmd t sk ps cmd um s =
     (let connected = (sk_state sk AND PPPOX_CONNECTED \<noteq> 0) in
      case cmd of
        SIOCGIFMTU \<Rightarrow> (if \<not> connected then (- ENXIO, Nothing) else
                        case um_int um of None \<Rightarrow> (- EFAULT, Nothing) | Some _ \<Rightarrow> put_out um (Out_int (s_mtu s)), s)
      | SIOCSIFMTU \<Rightarrow> (if \<not> connected then ((- ENXIO, Nothing), s) else
                        case um_int um of None \<Rightarrow> ((- EFAULT, Nothing), s) | Some v \<Rightarrow> ((0, Nothing), s\<lparr>s_mtu := v\<rparr>))
      | PPPIOCGMRU \<Rightarrow> (if \<not> connected then (- ENXIO, Nothing) else put_out um (Out_int (s_mru s)), s)
      | PPPIOCSMRU \<Rightarrow> (if \<not> connected then ((- ENXIO, Nothing), s) else
                        case um_int um of None \<Rightarrow> ((- EFAULT, Nothing), s) | Some v \<Rightarrow> ((0, Nothing), s\<lparr>s_mru := v\<rparr>))
      | PPPIOCGFLAGS \<Rightarrow> (put_out um (Out_int (ps_flags ps)), s)
      | PPPIOCSFLAGS \<Rightarrow> (case um_int um of None \<Rightarrow> ((- EFAULT, Nothing), s)
                        | Some v \<Rightarrow> ((0, Nothing), s\<lparr>priv := PrivPpp (ps\<lparr>ps_flags := v\<rparr>)\<rparr>))
      | PPPIOCGL2TPSTATS \<Rightarrow> (if \<not> connected then (- ENXIO, Nothing)
                        else case put_out um (Out_stats \<lparr>ioc_tunnel_id = ucast (tunnel_id t),
                               ioc_session_id = ucast (session_id s), ioc_using_ipsec = False,
                               ioc_stats = pppol2tp_copy_stats (s_stats s)\<rparr>) of
                             (err, x) \<Rightarrow> (if err < 0 then - ENXIO else err, x), s)
      | Other_cmd \<Rightarrow> ((- ENOSYS, Nothing), s))"

definition pppol2tp_session_ioctl :: "ptr \<Rightarrow> ppp_cmd \<Rightarrow> user_mem \<Rightarrow> kst \<Rightarrow> ((int \<times> user_out) \<times> kst) kres" where
  "pppol2tp_session_ioctl p cmd um st =
     bind_res (deref_ptr (k_sessions st) (Some p)) (\<lambda>(_, s).
     bind_res (ppp_priv s) (\<lambda>ps.
     bind_res (on_world (sock_hold (ps_sock ps)) st) (\<lambda>st1.
     bind_res (deref_ptr (socks (k_world st1)) (ps_sock ps)) (\<lambda>(_, sk).
     bind_res (deref_ptr (k_tunnels st1) (s_tunnel s)) (\<lambda>(_, t).
     case session_cmd t sk ps cmd um s of
       (r, s') \<Rightarrow>
         bind_res (on_world (sock_put (ps_sock ps)) (set_session p s' st1)) (\<lambda>st2. Inr (r, st2)))))))"

definition tunnel_stats_cmd :: "kenv \<Rightarrow> ptr \<Rightarrow> l2tp_tunnel \<Rightarrow> ptr \<Rightarrow> sock \<Rightarrow> user_mem \<Rightarrow> kst
    \<Rightarrow> ((int \<times> user_out) \<times> kst) kres" where
  "tunnel_stats_cmd E tp t a sk um st =
     (if sk_state sk AND PPPOX_CONNECTED = 0 then Inr ((- ENXIO, Nothing), st)
      else case um_stats um of
        None \<Rightarrow> Inr ((- EFAULT, Nothing), st)
      | Some u \<Rightarrow>
          if ioc_session_id u \<noteq> 0
          then bind_res (l2tp_session_find E (sk_net sk) (Some tp) (ucast (ioc_session_id u)) st) (\<lambda>found.
               case found of
                 None \<Rightarrow> Inr ((- EBADR, Nothing), st)
               | Some p \<Rightarrow> pppol2tp_session_ioctl p PPPIOCGL2TPSTATS um st)
          else Inr (put_out um (Out_stats (u\<lparr>ioc_using_ipsec := xfrm_policies E a,
                      ioc_stats := pppol2tp_copy_stats (t_stats t)\<rparr>)), st))"

definition pppol2tp_tunnel_ioctl :: "kenv \<Rightarrow> ptr \<Rightarrow> ppp_cmd \<Rightarrow> user_mem \<Rightarrow> kst \<Rightarrow> ((int \<times> user_out) \<times> kst) kres" where
  "pppol2tp_tunnel_ioctl E tp cmd um st =
     bind_res (deref_ptr (k_tunnels st) (Some tp)) (\<lambda>(_, t).
     bind_res (on_world (sock_hold (t_sock t)) st) (\<lambda>st1.
     bind_res (deref_ptr (socks (k_world st1)) (t_sock t)) (\<lambda>(a, sk).
     bind_res (if cmd = PPPIOCGL2TPSTATS then tunnel_stats_cmd E tp t a sk um st1
               else Inr ((- ENOSYS, Nothing), st1)) (\<lambda>(r, st2).
     bind_res (on_world (sock_put (Some a)) st2) (\<lambda>st3. Inr (r, st3))))))"

text \<open>
  The dispatch all three control calls share: with both ids zero the call goes to the tunnel
  behind the session's tunnel socket, otherwise to the session.
\<close>

definition on_tunnel :: "pppol2tp_session \<Rightarrow> (ptr \<Rightarrow> kst \<Rightarrow> ('a \<times> kst) kres) \<Rightarrow> 'a \<Rightarrow> kst \<Rightarrow> ('a \<times> kst) kres" where
  "on_tunnel ps f none st =
     bind_res (l2tp_sock_to_tunnel (ps_tunnel_sock ps) st) (\<lambda>(tp, st1).
     case tp of
       None \<Rightarrow> Inr (none, st1)
     | Some b \<Rightarrow>
         bind_res (f b st1) (\<lambda>(r, st2).
         bind_res (on_world (sock_put (ps_tunnel_sock ps)) st2) (\<lambda>st3. Inr (r, st3))))"

definition pppol2tp_ioctl :: "kenv \<Rightarrow> ptr option \<Rightarrow> ppp_cmd \<Rightarrow> user_mem \<Rightarrow> kst \<Rightarrow> ((int \<times> user_out) \<times> kst) kres" where
  "pppol2tp_ioctl E skp cmd um st =
     (case skp of
        None \<Rightarrow> Inr ((0, Nothing), st)
      | Some a \<Rightarrow>
          bind_res (deref_ptr (socks (k_world st)) (Some a)) (\<lambda>(_, sk).
          if sk_dead sk then Inr ((- EBADF, Nothing), st)
          else if sk_user_data sk = None \<or> sk_state sk AND (PPPOX_CONNECTED OR PPPOX_BOUND) = 0
          then Inr ((- ENOTCONN, Nothing), st)
          else with_ppp_session a (\<lambda>p s ps st1.
                 if session_id s = 0 \<and> peer_session_id s = 0
                 then on_tunnel ps (\<lambda>b. pppol2tp_tunnel_ioctl E b cmd um) (- EBADF, Nothing) st1
                 else pppol2tp_session_ioctl p cmd um st1) (- EBADF, Nothing) st))"

section \<open>Socket options\<close>

datatype ppp_opt = PPPOL2TP_SO_DEBUG | PPPOL2TP_SO_RECVSEQ | PPPOL2TP_SO_SENDSEQ | PPPOL2TP_SO_LNSMODE
  | PPPOL2TP_SO_REORDERTO | Other_opt

definition pppol2tp_tunnel_setsockopt :: "ptr \<Rightarrow> ppp_opt \<Rightarrow> int \<Rightarrow> kst \<Rightarrow> (int \<times> kst) kres" where
  "pppol2tp_tunnel_setsockopt tp opt v st =
     bind_res (deref_ptr (k_tunnels st) (Some tp)) (\<lambda>(_, t).
       Inr (if opt = PPPOL2TP_SO_DEBUG then (0, set_tunnel tp (t\<lparr>t_debug := of_int v\<rparr>) st)
            else (- ENOPROTOOPT, st)))"

definition set_send_seq :: "ptr \<Rightarrow> l2tp_session \<Rightarrow> int \<Rightarrow> kst \<Rightarrow> (int \<times> kst) kres" where
  "set_send_seq p s v st =
     bind_res (ppp_priv s) (\<lambda>ps.
     bind_res (deref_ptr (socks (k_world st)) (ps_sock ps)) (\<lambda>(c, _).
     bind_res (deref_ptr (k_tunnels st) (s_tunnel s)) (\<lambda>(_, t).
       Inr (0, set_session p (l2tp_session_set_header_len t (s\<lparr>send_seq := (if v \<noteq> 0 then - 1 else 0)\<rparr>) (version t))
              (st\<lparr>k_world := upd_sock c (\<lambda>x. x\<lparr>chan_hdrlen := (if v \<noteq> 0 then PPPOL2TP_L2TP_HDR_SIZE_SEQ
                    else PPPOL2TP_L2TP_HDR_SIZE_NOSEQ)\<rparr>) (k_world st)\<rparr>)))))"

definition pppol2tp_session_setsockopt :: "kenv \<Rightarrow> ptr \<Rightarrow> ppp_opt \<Rightarrow> int \<Rightarrow> kst \<Rightarrow> (int \<times> kst) kres" where
  "pppol2tp_session_setsockopt E p opt v st =
     bind_res (deref_ptr (k_sessions st) (Some p)) (\<lambda>(_, s).
     case opt of
       PPPOL2TP_SO_RECVSEQ \<Rightarrow>
         Inr (if v \<noteq> 0 \<and> v \<noteq> 1 then (- EINVAL, st)
              else (0, set_session p (s\<lparr>recv_seq := (if v \<noteq> 0 then - 1 else 0)\<rparr>) st))
     | PPPOL2TP_SO_SENDSEQ \<Rightarrow> if v \<noteq> 0 \<and> v \<noteq> 1 then Inr (- EINVAL, st) else set_send_seq p s v st
     | PPPOL2TP_SO_LNSMODE \<Rightarrow>
         Inr (if v \<noteq> 0 \<and> v \<noteq> 1 then (- EINVAL, st)
              else (0, set_session p (s\<lparr>lns_mode := (if v \<noteq> 0 then - 1 else 0)\<rparr>) st))
     | PPPOL2TP_SO_DEBUG \<Rightarrow> Inr (0, set_session p (s\<lparr>s_debug := of_int v\<rparr>) st)
     | PPPOL2TP_SO_REORDERTO \<Rightarrow> Inr (0, set_session p (s\<lparr>reorder_timeout := msecs_to_jiffies E (of_int v)\<rparr>) st)
     | Other_opt \<Rightarrow> Inr (- ENOPROTOOPT, st))"

text \<open>The helper's result is thrown away: the call returns zero once the session was found.\<close>

definition pppol2tp_setsockopt :: "kenv \<Rightarrow> ptr \<Rightarrow> bool \<Rightarrow> ppp_opt \<Rightarrow> int option \<Rightarrow> nat \<Rightarrow> kst \<Rightarrow> (int \<times> kst) kres" where
  "pppol2tp_setsockopt E a level_ok opt optval optlen st =
     (if \<not> level_ok \<or> optlen < 4 then Inr (- EINVAL, st)
      else case optval of
        None \<Rightarrow> Inr (- EFAULT, st)
      | Some v \<Rightarrow>
          bind_res (deref_ptr (socks (k_world st)) (Some a)) (\<lambda>(_, sk).
          if sk_user_data sk = None then Inr (- ENOTCONN, st)
          else with_ppp_session a (\<lambda>p s ps st1.
                 if session_id s = 0 \<and> peer_session_id s = 0
                 then on_tunnel ps (\<lambda>b st2. bind_res (pppol2tp_tunnel_setsockopt b opt v st2)
                        (\<lambda>(_, st3). Inr (0, st3))) (- EBADF) st1
                 else bind_res (pppol2tp_session_setsockopt E p opt v st1) (\<lambda>(_, st2). Inr (0, st2)))
               (- EBADF) st))"

text \<open>The value a helper stores through its pointer; \<open>None\<close> where it leaves it alone.\<close>

definition pppol2tp_tunnel_getsockopt :: "l2tp_tunnel \<Rightarrow> ppp_opt \<Rightarrow> int \<times> int option" where
  "pppol2tp_tunnel_getsockopt t opt =
     (if opt = PPPOL2TP_SO_DEBUG then (0, Some (sint (t_debug t))) else (- ENOPROTOOPT, None))"

definition pppol2tp_session_getsockopt :: "kenv \<Rightarrow> l2tp_session \<Rightarrow> ppp_opt \<Rightarrow> int \<times> int option" where
  "pppol2tp_session_getsockopt E s opt =
     (case opt of
        PPPOL2TP_SO_RECVSEQ \<Rightarrow> (0, Some (uint (recv_seq s)))
      | PPPOL2TP_SO_SENDSEQ \<Rightarrow> (0, Some (uint (send_seq s)))
      | PPPOL2TP_SO_LNSMODE \<Rightarrow> (0, Some (uint (lns_mode s)))
      | PPPOL2TP_SO_DEBUG \<Rightarrow> (0, Some (sint (s_debug s)))
      | PPPOL2TP_SO_REORDERTO \<Rightarrow> (0, Some (sint (jiffies_to_msecs E (reorder_timeout s))))
      | Other_opt \<Rightarrow> (- ENOPROTOOPT, None))"

text \<open>\<^verbatim>\<open>min_t(unsigned int, len, sizeof(int))\<close>: a negative length is a large unsigned one.\<close>

definition opt_len :: "int \<Rightarrow> int" where
  "opt_len len = (if 0 \<le> len \<and> len < 4 then len else 4)"

definition pppol2tp_getsockopt :: "kenv \<Rightarrow> ptr \<Rightarrow> bool \<Rightarrow> ppp_opt \<Rightarrow> int option \<Rightarrow> bool \<Rightarrow> kst
    \<Rightarrow> ((int \<times> user_out) \<times> kst) kres" where
  "pppol2tp_getsockopt E a level_ok opt optlen writable st =
     (if \<not> level_ok then Inr ((- EINVAL, Nothing), st)
      else case optlen of
        None \<Rightarrow> Inr ((- EFAULT, Nothing), st)
      | Some len0 \<Rightarrow>
          let len = opt_len len0;
              out = (\<lambda>v. if writable then (0, case v of Some x \<Rightarrow> Out_int x | None \<Rightarrow> Uninit (nat len))
                         else (- EFAULT, Nothing)) in
          if len < 0 then Inr ((- EINVAL, Nothing), st)
          else
            bind_res (deref_ptr (socks (k_world st)) (Some a)) (\<lambda>(_, sk).
            if sk_user_data sk = None then Inr ((- ENOTCONN, Nothing), st)
            else with_ppp_session a (\<lambda>p s ps st1.
                   if session_id s = 0 \<and> peer_session_id s = 0
                   then on_tunnel ps (\<lambda>b st2. bind_res (deref_ptr (k_tunnels st2) (Some b)) (\<lambda>(_, t).
                          Inr (out (snd (pppol2tp_tunnel_getsockopt t opt)), st2))) (- EBADF, Nothing) st1
                   else Inr (out (snd (pppol2tp_session_getsockopt E s opt)), st1)) (- EBADF, Nothing) st))"

section \<open>The proc file\<close>

record pppol2tp_seq_data =
  tunnel_idx :: nat
  session_idx :: nat
  sd_tunnel :: "ptr option"
  sd_session :: "ptr option"

lemma find_nth_bound: "l2tp_tunnel_find_nth net n st = Some p \<Longrightarrow> n < length (l2tp_tunnel_list (k_nets st net))"
  by (auto simp: l2tp_tunnel_find_nth_def chain_nth_cases split: sum.splits if_splits)

function pppol2tp_next_tunnel :: "nat \<Rightarrow> kst \<Rightarrow> pppol2tp_seq_data \<Rightarrow> pppol2tp_seq_data kres" where
  "pppol2tp_next_tunnel net st pd =
     (case l2tp_tunnel_find_nth net (tunnel_idx pd) st of
        None \<Rightarrow> Inr (pd\<lparr>sd_tunnel := None, tunnel_idx := tunnel_idx pd + 1\<rparr>)
      | Some tp \<Rightarrow>
          bind_res (deref_ptr (k_tunnels st) (Some tp)) (\<lambda>(_, t).
            if version t < 3 then Inr (pd\<lparr>sd_tunnel := Some tp, tunnel_idx := tunnel_idx pd + 1\<rparr>)
            else pppol2tp_next_tunnel net st (pd\<lparr>sd_tunnel := Some tp, tunnel_idx := tunnel_idx pd + 1\<rparr>)))"
  by pat_completeness auto
termination
  by (relation "measure (\<lambda>(net, st, pd). length (l2tp_tunnel_list (k_nets st net)) - tunnel_idx pd)")
     (auto dest: find_nth_bound)

declare pppol2tp_next_tunnel.simps [simp del]

definition pppol2tp_next_session :: "nat \<Rightarrow> kst \<Rightarrow> pppol2tp_seq_data \<Rightarrow> pppol2tp_seq_data kres" where
  "pppol2tp_next_session net st pd =
     bind_res (case sd_tunnel pd of None \<Rightarrow> Inl NullDeref | Some tp \<Rightarrow> l2tp_session_find_nth tp (session_idx pd) st) (\<lambda>sp.
     let pd1 = pd\<lparr>sd_session := sp, session_idx := session_idx pd + 1\<rparr> in
     if sp = None then pppol2tp_next_tunnel net st (pd1\<lparr>session_idx := 0\<rparr>) else Inr pd1)"

text \<open>\<^verbatim>\<open>seq_start\<close> for a position behind the first; \<open>None\<close> ends the file.\<close>

definition pppol2tp_seq_start :: "nat \<Rightarrow> kst \<Rightarrow> pppol2tp_seq_data \<Rightarrow> (bool \<times> pppol2tp_seq_data) kres" where
  "pppol2tp_seq_start net st pd =
     bind_res (if sd_tunnel pd = None then pppol2tp_next_tunnel net st pd else pppol2tp_next_session net st pd) (\<lambda>pd1.
       Inr (\<not> (sd_tunnel pd1 = None \<and> sd_session pd1 = None), pd1))"

text \<open>The six sums a line of the file shows.\<close>

definition show_stats :: "l2tp_stats list \<Rightarrow> l2tp_stats" where
  "show_stats xs = (pppol2tp_copy_stats xs)\<lparr>rx_seq_discards := 0, rx_oos_packets := 0\<rparr>"

record seq_tunnel_line =
  l_user_data_ok :: bool
  l_refs :: int
  l_debug :: u32
  l_stats :: l2tp_stats

definition pppol2tp_seq_tunnel_show :: "ptr \<Rightarrow> kst \<Rightarrow> seq_tunnel_line kres" where
  "pppol2tp_seq_tunnel_show tp st =
     bind_res (deref_ptr (k_tunnels st) (Some tp)) (\<lambda>(_, t).
     bind_res (deref_ptr (socks (k_world st)) (t_sock t)) (\<lambda>(_, sk).
       Inr \<lparr>l_user_data_ok = (sk_user_data sk = Some tp), l_refs = t_ref_count t - 1, l_debug = t_debug t,
            l_stats = show_stats (t_stats t)\<rparr>))"

record seq_session_line =
  ls_ip :: u32
  ls_port :: u16
  ls_ids :: "u32 \<times> u32 \<times> u32 \<times> u32"
  ls_state :: nat
  ls_user_data_ok :: bool
  ls_mtu :: int
  ls_mru :: int
  ls_flags :: "bool \<times> bool \<times> bool"
  ls_debug :: u32
  ls_timeout :: u32
  ls_nr_ns :: "u16 \<times> u16"
  ls_stats :: l2tp_stats
  ls_interface :: string

definition pppol2tp_seq_session_show :: "kenv \<Rightarrow> ptr \<Rightarrow> kst \<Rightarrow> seq_session_line kres" where
  "pppol2tp_seq_session_show E p st =
     bind_res (deref_ptr (k_sessions st) (Some p)) (\<lambda>(_, s).
     bind_res (ppp_priv s) (\<lambda>ps.
     bind_res (deref_ptr (k_tunnels st) (s_tunnel s)) (\<lambda>(_, t).
     bind_res (case t_sock t of None \<Rightarrow> Inr (0, 0)
               | Some a \<Rightarrow> bind_res (deref_ptr (socks (k_world st)) (Some a)) (\<lambda>(_, tsk). Inr (inet_saddr tsk, inet_sport tsk)))
       (\<lambda>(ip, port).
     bind_res (deref_ptr (socks (k_world st)) (ps_sock ps)) (\<lambda>(c, sk).
       Inr \<lparr>ls_ip = ip, ls_port = port,
            ls_ids = (tunnel_id t, session_id s, peer_tunnel_id t, peer_session_id s), ls_state = sk_state sk,
            ls_user_data_ok = (sk_user_data sk = Some p), ls_mtu = s_mtu s, ls_mru = s_mru s,
            ls_flags = (recv_seq s \<noteq> 0, send_seq s \<noteq> 0, lns_mode s \<noteq> 0), ls_debug = s_debug s,
            ls_timeout = jiffies_to_msecs E (reorder_timeout s), ls_nr_ns = (ucast (nr s), ucast (ns s)),
            ls_stats = show_stats (s_stats s), ls_interface = ppp_dev_name E c\<rparr>)))))"

definition pppol2tp_seq_show :: "kenv \<Rightarrow> pppol2tp_seq_data \<Rightarrow> kst \<Rightarrow> (seq_tunnel_line + seq_session_line) kres" where
  "pppol2tp_seq_show E pd st =
     (case sd_session pd of
        None \<Rightarrow> (case sd_tunnel pd of None \<Rightarrow> Inl NullDeref
                | Some tp \<Rightarrow> bind_res (pppol2tp_seq_tunnel_show tp st) (\<lambda>l. Inr (Inl l)))
      | Some p \<Rightarrow> bind_res (pppol2tp_seq_session_show E p st) (\<lambda>l. Inr (Inr l)))"

end
