(* ===== verification/L2tp_Netlink.thy ===== *)
theory L2tp_Netlink
  imports L2tp_Ppp_Ctl
begin

unbundle bit_operations_syntax

text \<open>
  The generic netlink interface, \<^verbatim>\<open>l2tp_netlink.c\<close>: the commands that create, delete, modify and
  report tunnels and sessions. The attributes of a request are a function from attribute
  numbers to values that the netlink core has checked against \<^verbatim>\<open>l2tp_nl_policy\<close> (\<open>policy_ok\<close>).
  A reply is a list of attributes in a buffer with a given room; an attribute that does not fit
  makes the reply fail.
\<close>

section \<open>Attributes\<close>

datatype nlattr_id = L2TP_ATTR_PW_TYPE | L2TP_ATTR_ENCAP_TYPE | L2TP_ATTR_OFFSET | L2TP_ATTR_DATA_SEQ
  | L2TP_ATTR_L2SPEC_TYPE | L2TP_ATTR_L2SPEC_LEN | L2TP_ATTR_PROTO_VERSION | L2TP_ATTR_IFNAME
  | L2TP_ATTR_CONN_ID | L2TP_ATTR_PEER_CONN_ID | L2TP_ATTR_SESSION_ID | L2TP_ATTR_PEER_SESSION_ID
  | L2TP_ATTR_UDP_CSUM | L2TP_ATTR_VLAN_ID | L2TP_ATTR_COOKIE | L2TP_ATTR_PEER_COOKIE | L2TP_ATTR_DEBUG
  | L2TP_ATTR_RECV_SEQ | L2TP_ATTR_SEND_SEQ | L2TP_ATTR_LNS_MODE | L2TP_ATTR_USING_IPSEC
  | L2TP_ATTR_RECV_TIMEOUT | L2TP_ATTR_FD | L2TP_ATTR_IP_SADDR | L2TP_ATTR_IP_DADDR | L2TP_ATTR_UDP_SPORT
  | L2TP_ATTR_UDP_DPORT | L2TP_ATTR_MTU | L2TP_ATTR_MRU | L2TP_ATTR_STATS | L2TP_ATTR_IP6_SADDR
  | L2TP_ATTR_IP6_DADDR | L2TP_ATTR_TX_PACKETS | L2TP_ATTR_TX_BYTES | L2TP_ATTR_TX_ERRORS
  | L2TP_ATTR_RX_PACKETS | L2TP_ATTR_RX_BYTES | L2TP_ATTR_RX_SEQ_DISCARDS | L2TP_ATTR_RX_OOS_PACKETS
  | L2TP_ATTR_RX_ERRORS

datatype nl_val = Nl_u8 u8 | Nl_u16 u16 | Nl_u32 u32 | Nl_u64 u64 | Nl_msecs u32 | Nl_bytes "u8 list"
  | Nl_string string | Nl_in6 "128 word" | Nl_flag

type_synonym nl_attrs = "nlattr_id \<Rightarrow> nl_val option"

datatype nla_type = NLA_U8 | NLA_U16 | NLA_U32 | NLA_MSECS | NLA_BINARY nat | NLA_NUL_STRING nat | NLA_IN6 | NLA_NESTED

text \<open>The policy table; the counters inside \<^verbatim>\<open>L2TP_ATTR_STATS\<close> have no entry.\<close>

fun l2tp_nl_policy :: "nlattr_id \<Rightarrow> nla_type option" where
  "l2tp_nl_policy L2TP_ATTR_PW_TYPE = Some NLA_U16"
| "l2tp_nl_policy L2TP_ATTR_ENCAP_TYPE = Some NLA_U16"
| "l2tp_nl_policy L2TP_ATTR_OFFSET = Some NLA_U16"
| "l2tp_nl_policy L2TP_ATTR_DATA_SEQ = Some NLA_U8"
| "l2tp_nl_policy L2TP_ATTR_L2SPEC_TYPE = Some NLA_U8"
| "l2tp_nl_policy L2TP_ATTR_L2SPEC_LEN = Some NLA_U8"
| "l2tp_nl_policy L2TP_ATTR_PROTO_VERSION = Some NLA_U8"
| "l2tp_nl_policy L2TP_ATTR_CONN_ID = Some NLA_U32"
| "l2tp_nl_policy L2TP_ATTR_PEER_CONN_ID = Some NLA_U32"
| "l2tp_nl_policy L2TP_ATTR_SESSION_ID = Some NLA_U32"
| "l2tp_nl_policy L2TP_ATTR_PEER_SESSION_ID = Some NLA_U32"
| "l2tp_nl_policy L2TP_ATTR_UDP_CSUM = Some NLA_U8"
| "l2tp_nl_policy L2TP_ATTR_VLAN_ID = Some NLA_U16"
| "l2tp_nl_policy L2TP_ATTR_DEBUG = Some NLA_U32"
| "l2tp_nl_policy L2TP_ATTR_RECV_SEQ = Some NLA_U8"
| "l2tp_nl_policy L2TP_ATTR_SEND_SEQ = Some NLA_U8"
| "l2tp_nl_policy L2TP_ATTR_LNS_MODE = Some NLA_U8"
| "l2tp_nl_policy L2TP_ATTR_USING_IPSEC = Some NLA_U8"
| "l2tp_nl_policy L2TP_ATTR_RECV_TIMEOUT = Some NLA_MSECS"
| "l2tp_nl_policy L2TP_ATTR_FD = Some NLA_U32"
| "l2tp_nl_policy L2TP_ATTR_IP_SADDR = Some NLA_U32"
| "l2tp_nl_policy L2TP_ATTR_IP_DADDR = Some NLA_U32"
| "l2tp_nl_policy L2TP_ATTR_UDP_SPORT = Some NLA_U16"
| "l2tp_nl_policy L2TP_ATTR_UDP_DPORT = Some NLA_U16"
| "l2tp_nl_policy L2TP_ATTR_MTU = Some NLA_U16"
| "l2tp_nl_policy L2TP_ATTR_MRU = Some NLA_U16"
| "l2tp_nl_policy L2TP_ATTR_STATS = Some NLA_NESTED"
| "l2tp_nl_policy L2TP_ATTR_IP6_SADDR = Some NLA_IN6"
| "l2tp_nl_policy L2TP_ATTR_IP6_DADDR = Some NLA_IN6"
| "l2tp_nl_policy L2TP_ATTR_IFNAME = Some (NLA_NUL_STRING (IFNAMSIZ - 1))"
| "l2tp_nl_policy L2TP_ATTR_COOKIE = Some (NLA_BINARY 8)"
| "l2tp_nl_policy L2TP_ATTR_PEER_COOKIE = Some (NLA_BINARY 8)"
| "l2tp_nl_policy _ = None"

definition policy_ok :: "nl_attrs \<Rightarrow> bool" where
  "policy_ok at \<longleftrightarrow> (\<forall>i v ty. at i = Some v \<longrightarrow> l2tp_nl_policy i = Some ty \<longrightarrow>
     (case ty of
        NLA_U8 \<Rightarrow> \<exists>x. v = Nl_u8 x
      | NLA_U16 \<Rightarrow> \<exists>x. v = Nl_u16 x
      | NLA_U32 \<Rightarrow> \<exists>x. v = Nl_u32 x
      | NLA_MSECS \<Rightarrow> \<exists>x. v = Nl_msecs x
      | NLA_IN6 \<Rightarrow> \<exists>x. v = Nl_in6 x
      | NLA_BINARY n \<Rightarrow> \<exists>x. v = Nl_bytes x \<and> length x \<le> n
      | NLA_NUL_STRING n \<Rightarrow> \<exists>x. v = Nl_string x \<and> length x \<le> n
      | NLA_NESTED \<Rightarrow> True))"

text \<open>The accessors; a value the policy lets through has the type its accessor wants.\<close>

fun nla_get_u8 :: "nl_val \<Rightarrow> u8" where "nla_get_u8 (Nl_u8 x) = x" | "nla_get_u8 _ = 0"
fun nla_get_u16 :: "nl_val \<Rightarrow> u16" where "nla_get_u16 (Nl_u16 x) = x" | "nla_get_u16 _ = 0"
fun nla_get_u32 :: "nl_val \<Rightarrow> u32" where "nla_get_u32 (Nl_u32 x) = x" | "nla_get_u32 _ = 0"
fun nla_get_ms :: "nl_val \<Rightarrow> u32" where "nla_get_ms (Nl_msecs x) = x" | "nla_get_ms _ = 0"
fun nla_get_in6 :: "nl_val \<Rightarrow> 128 word" where "nla_get_in6 (Nl_in6 x) = x" | "nla_get_in6 _ = 0"
fun nla_bytes :: "nl_val \<Rightarrow> u8 list" where "nla_bytes (Nl_bytes x) = x" | "nla_bytes _ = []"
fun nla_string :: "nl_val \<Rightarrow> string" where "nla_string (Nl_string x) = x" | "nla_string _ = []"

text \<open>\<open>attr_or\<close>: the value of an attribute where the request has it, the old value otherwise.\<close>

definition attr_or :: "nl_attrs \<Rightarrow> nlattr_id \<Rightarrow> (nl_val \<Rightarrow> 'a) \<Rightarrow> 'a \<Rightarrow> 'a" where
  "attr_or at i f d = (case at i of None \<Rightarrow> d | Some v \<Rightarrow> f v)"

section \<open>Finding a session\<close>

definition l2tp_nl_session_find :: "kenv \<Rightarrow> nat \<Rightarrow> nl_attrs \<Rightarrow> kst \<Rightarrow> ptr option kres" where
  "l2tp_nl_session_find E net at st =
     (case at L2TP_ATTR_IFNAME of
        Some n \<Rightarrow> l2tp_session_find_by_ifname net (nla_string n) st
      | None \<Rightarrow>
          (case (at L2TP_ATTR_SESSION_ID, at L2TP_ATTR_CONN_ID) of
             (Some sid, Some tid) \<Rightarrow>
               bind_res (l2tp_tunnel_find net (nla_get_u32 tid) st) (\<lambda>tun.
               case tun of
                 None \<Rightarrow> Inr None
               | Some tp \<Rightarrow> l2tp_session_find E net (Some tp) (nla_get_u32 sid) st)
           | _ \<Rightarrow> Inr None))"

section \<open>Tunnel commands\<close>

text \<open>
  The addresses of a tunnel whose socket the kernel creates; \<open>None\<close> where neither pair is
  complete. The code reads the checksum attribute as a flag, which it is whenever present.
\<close>

definition tunnel_addrs :: "nl_attrs \<Rightarrow> l2tp_tunnel_cfg \<Rightarrow> l2tp_tunnel_cfg option" where
  "tunnel_addrs at cfg =
     (case (at L2TP_ATTR_IP6_SADDR, at L2TP_ATTR_IP6_DADDR) of
        (Some l, Some p) \<Rightarrow> Some (cfg\<lparr>local_ip6 := Some (nla_get_in6 l), peer_ip6 := Some (nla_get_in6 p)\<rparr>)
      | _ \<Rightarrow>
          (case (at L2TP_ATTR_IP_SADDR, at L2TP_ATTR_IP_DADDR) of
             (Some l, Some p) \<Rightarrow> Some (cfg\<lparr>local_ip := nla_get_u32 l, peer_ip := nla_get_u32 p\<rparr>)
           | _ \<Rightarrow> None))"

definition tunnel_ports :: "nl_attrs \<Rightarrow> l2tp_tunnel_cfg \<Rightarrow> l2tp_tunnel_cfg" where
  "tunnel_ports at cfg = cfg\<lparr>local_udp_port := attr_or at L2TP_ATTR_UDP_SPORT nla_get_u16 (local_udp_port cfg),
     peer_udp_port := attr_or at L2TP_ATTR_UDP_DPORT nla_get_u16 (peer_udp_port cfg),
     use_udp_checksums := attr_or at L2TP_ATTR_UDP_CSUM (\<lambda>_. True) (use_udp_checksums cfg)\<rparr>"

definition tunnel_cfg_of :: "nl_attrs \<Rightarrow> u16 \<Rightarrow> l2tp_tunnel_cfg option" where
  "tunnel_cfg_of at enc =
     (let cfg0 = connect_tcfg\<lparr>tcfg_encap := enc\<rparr>;
          dbg = (\<lambda>c. c\<lparr>tcfg_debug := attr_or at L2TP_ATTR_DEBUG nla_get_u32 (tcfg_debug c)\<rparr>)
      in case at L2TP_ATTR_FD of
           Some _ \<Rightarrow> Some (dbg cfg0)
         | None \<Rightarrow> map_option (\<lambda>c. dbg (tunnel_ports at c)) (tunnel_addrs at cfg0))"

definition l2tp_nl_cmd_tunnel_create :: "kenv \<Rightarrow> nat \<Rightarrow> nl_attrs \<Rightarrow> kst \<Rightarrow> (int \<times> kst) kres" where
  "l2tp_nl_cmd_tunnel_create E net at st =
     (case (at L2TP_ATTR_CONN_ID, at L2TP_ATTR_PEER_CONN_ID, at L2TP_ATTR_PROTO_VERSION, at L2TP_ATTR_ENCAP_TYPE) of
        (Some tid, Some ptid, Some ver, Some enc) \<Rightarrow>
          let fd = attr_or at L2TP_ATTR_FD (\<lambda>v. sint (nla_get_u32 v)) (- 1) in
          (case tunnel_cfg_of at (nla_get_u16 enc) of
             None \<Rightarrow> Inr (- EINVAL, st)
           | Some cfg \<Rightarrow>
               bind_res (l2tp_tunnel_find net (nla_get_u32 tid) st) (\<lambda>old.
               if old \<noteq> None then Inr (- EEXIST, st)
               else if tcfg_encap cfg = L2TP_ENCAPTYPE_UDP \<or> tcfg_encap cfg = L2TP_ENCAPTYPE_IP
               then bind_res (l2tp_tunnel_create E net fd (int (unat (nla_get_u8 ver))) (nla_get_u32 tid)
                       (nla_get_u32 ptid) (Some cfg) st) (\<lambda>(ret, _, st'). Inr (ret, st'))
               else Inr (- EINVAL, st)))
      | _ \<Rightarrow> Inr (- EINVAL, st))"

definition on_nl_tunnel :: "nat \<Rightarrow> nl_attrs \<Rightarrow> (ptr \<Rightarrow> (int \<times> kst) kres) \<Rightarrow> kst \<Rightarrow> (int \<times> kst) kres" where
  "on_nl_tunnel net at f st =
     (case at L2TP_ATTR_CONN_ID of
        None \<Rightarrow> Inr (- EINVAL, st)
      | Some tid \<Rightarrow>
          bind_res (l2tp_tunnel_find net (nla_get_u32 tid) st) (\<lambda>tun.
          case tun of None \<Rightarrow> Inr (- ENODEV, st) | Some tp \<Rightarrow> f tp))"

definition l2tp_nl_cmd_tunnel_delete :: "kenv \<Rightarrow> nat \<Rightarrow> nl_attrs \<Rightarrow> kst \<Rightarrow> (int \<times> kst) kres" where
  "l2tp_nl_cmd_tunnel_delete E net at st =
     on_nl_tunnel net at (\<lambda>tp. bind_res (l2tp_tunnel_delete E tp st) (\<lambda>(_, st'). Inr (0, st'))) st"

definition l2tp_nl_cmd_tunnel_modify :: "nat \<Rightarrow> nl_attrs \<Rightarrow> kst \<Rightarrow> (int \<times> kst) kres" where
  "l2tp_nl_cmd_tunnel_modify net at st =
     on_nl_tunnel net at (\<lambda>tp. bind_res (deref_ptr (k_tunnels st) (Some tp)) (\<lambda>(_, t).
       Inr (0, set_tunnel tp (t\<lparr>t_debug := attr_or at L2TP_ATTR_DEBUG nla_get_u32 (t_debug t)\<rparr>) st))) st"

section \<open>Replies\<close>

text \<open>
  The buffer of a reply: the attributes so far and the bytes left. An attribute takes a header
  of four bytes and its value, padded to a multiple of four.
\<close>

record nl_msg =
  nl_attrs :: "(nlattr_id \<times> nl_val) list"
  nl_room :: nat

fun val_len :: "nl_val \<Rightarrow> nat" where
  "val_len (Nl_u8 _) = 1" | "val_len (Nl_u16 _) = 2" | "val_len (Nl_u32 _) = 4" | "val_len (Nl_u64 _) = 8"
| "val_len (Nl_msecs _) = 8" | "val_len (Nl_bytes b) = length b" | "val_len (Nl_string s) = length s + 1"
| "val_len (Nl_in6 _) = 16" | "val_len Nl_flag = 0"

definition nla_total_size :: "nat \<Rightarrow> nat" where
  "nla_total_size n = (4 + n + 3) div 4 * 4"

definition nla_put :: "nlattr_id \<times> nl_val \<Rightarrow> nl_msg \<Rightarrow> nl_msg option" where
  "nla_put a m = (let n = nla_total_size (val_len (snd a)) in
     if n \<le> nl_room m then Some (m\<lparr>nl_attrs := nl_attrs m @ [a], nl_room := nl_room m - n\<rparr>) else None)"

fun nla_put_all :: "(nlattr_id \<times> nl_val) list \<Rightarrow> nl_msg \<Rightarrow> nl_msg option" where
  "nla_put_all [] m = Some m"
| "nla_put_all (a # as) m = (case nla_put a m of None \<Rightarrow> None | Some m' \<Rightarrow> nla_put_all as m')"

definition stats_attrs :: "l2tp_stats \<Rightarrow> (nlattr_id \<times> nl_val) list" where
  "stats_attrs x = [(L2TP_ATTR_TX_PACKETS, Nl_u64 (tx_packets x)), (L2TP_ATTR_TX_BYTES, Nl_u64 (tx_bytes x)),
     (L2TP_ATTR_TX_ERRORS, Nl_u64 (tx_errors x)), (L2TP_ATTR_RX_PACKETS, Nl_u64 (rx_packets x)),
     (L2TP_ATTR_RX_BYTES, Nl_u64 (rx_bytes x)), (L2TP_ATTR_RX_SEQ_DISCARDS, Nl_u64 (rx_seq_discards x)),
     (L2TP_ATTR_RX_OOS_PACKETS, Nl_u64 (rx_oos_packets x)), (L2TP_ATTR_RX_ERRORS, Nl_u64 (rx_errors x))]"

definition tunnel_attrs :: "l2tp_tunnel \<Rightarrow> (nlattr_id \<times> nl_val) list" where
  "tunnel_attrs t = [(L2TP_ATTR_PROTO_VERSION, Nl_u8 (of_int (version t))), (L2TP_ATTR_CONN_ID, Nl_u32 (tunnel_id t)),
     (L2TP_ATTR_PEER_CONN_ID, Nl_u32 (peer_tunnel_id t)), (L2TP_ATTR_DEBUG, Nl_u32 (t_debug t)),
     (L2TP_ATTR_ENCAP_TYPE, Nl_u16 (encap t)), (L2TP_ATTR_STATS, Nl_flag)] @ stats_attrs (pppol2tp_copy_stats (t_stats t))"

definition tunnel_addr_attrs :: "l2tp_tunnel \<Rightarrow> sock \<Rightarrow> (nlattr_id \<times> nl_val) list" where
  "tunnel_addr_attrs t sk =
     (if encap t = L2TP_ENCAPTYPE_UDP
      then [(L2TP_ATTR_UDP_SPORT, Nl_u16 (inet_sport sk)), (L2TP_ATTR_UDP_DPORT, Nl_u16 (inet_dport sk)),
            (L2TP_ATTR_UDP_CSUM, Nl_u8 (if sk_no_check sk \<noteq> UDP_CSUM_NOXMIT then 1 else 0))] else []) @
     (if encap t = L2TP_ENCAPTYPE_UDP \<or> encap t = L2TP_ENCAPTYPE_IP
      then (if sk_family sk = AF_INET6
            then [(L2TP_ATTR_IP6_SADDR, Nl_in6 (np_saddr sk)), (L2TP_ATTR_IP6_DADDR, Nl_in6 (sk_v6_daddr sk))]
            else [(L2TP_ATTR_IP_SADDR, Nl_u32 (inet_saddr sk)), (L2TP_ATTR_IP_DADDR, Nl_u32 (inet_daddr sk))]) else [])"

text \<open>
  A reply: the header of 20 bytes, then the attributes. What does not fit is taken back. The
  result is the length of the message.
\<close>

definition nl_reply :: "(nlattr_id \<times> nl_val) list \<Rightarrow> nl_msg \<Rightarrow> int \<times> nl_msg" where
  "nl_reply as m =
     (if nl_room m < 20 then (- EMSGSIZE, m)
      else case nla_put_all as (m\<lparr>nl_room := nl_room m - 20\<rparr>) of
             None \<Rightarrow> (- 1, m)
           | Some m' \<Rightarrow> (int (nl_room m - nl_room m'), m'))"

definition l2tp_nl_tunnel_send :: "ptr \<Rightarrow> nl_msg \<Rightarrow> kst \<Rightarrow> (int \<times> nl_msg) kres" where
  "l2tp_nl_tunnel_send tp m st =
     bind_res (deref_ptr (k_tunnels st) (Some tp)) (\<lambda>(_, t).
     bind_res (case t_sock t of None \<Rightarrow> Inr []
               | Some a \<Rightarrow> bind_res (deref_ptr (socks (k_world st)) (Some a)) (\<lambda>(_, sk). Inr (tunnel_addr_attrs t sk)))
       (\<lambda>addr. Inr (nl_reply (tunnel_attrs t @ addr) m)))"

definition nl_new_msg :: nl_msg where
  "nl_new_msg = \<lparr>nl_attrs = [], nl_room = 3776\<rparr>"

definition nl_answer :: "kenv \<Rightarrow> (nl_msg \<Rightarrow> (int \<times> nl_msg) kres) \<Rightarrow> (int \<times> nl_msg option) kres" where
  "nl_answer E send =
     (if \<not> kzalloc_ok E Alloc_skb then Inr (- ENOMEM, None)
      else bind_res (send nl_new_msg) (\<lambda>(ret, m).
             if ret < 0 then Inr (ret, None) else Inr (genlmsg_unicast E (length (nl_attrs m)), Some m)))"

definition l2tp_nl_cmd_noop :: "kenv \<Rightarrow> (int \<times> nl_msg option) kres" where
  "l2tp_nl_cmd_noop E = nl_answer E (\<lambda>m. Inr (nl_reply [] m))"

definition l2tp_nl_cmd_tunnel_get :: "kenv \<Rightarrow> nat \<Rightarrow> nl_attrs \<Rightarrow> kst \<Rightarrow> (int \<times> nl_msg option) kres" where
  "l2tp_nl_cmd_tunnel_get E net at st =
     (case at L2TP_ATTR_CONN_ID of
        None \<Rightarrow> Inr (- EINVAL, None)
      | Some tid \<Rightarrow>
          bind_res (l2tp_tunnel_find net (nla_get_u32 tid) st) (\<lambda>tun.
          case tun of None \<Rightarrow> Inr (- ENODEV, None) | Some tp \<Rightarrow> nl_answer E (\<lambda>m. l2tp_nl_tunnel_send tp m st)))"

text \<open>
  The dumps go on from the index the last call stopped at until the buffer is full; the index is
  stored for the next call.
\<close>

function l2tp_nl_cmd_tunnel_dump :: "nat \<Rightarrow> kst \<Rightarrow> nat \<Rightarrow> nl_msg \<Rightarrow> (nat \<times> nl_msg) kres" where
  "l2tp_nl_cmd_tunnel_dump net st ti m =
     (case l2tp_tunnel_find_nth net ti st of
        None \<Rightarrow> Inr (ti, m)
      | Some tp \<Rightarrow>
          bind_res (l2tp_nl_tunnel_send tp m st) (\<lambda>(ret, m').
            if ret \<le> 0 then Inr (ti, m') else l2tp_nl_cmd_tunnel_dump net st (ti + 1) m'))"
  by pat_completeness auto
termination
  by (relation "measure (\<lambda>(net, st, ti, m). length (l2tp_tunnel_list (k_nets st net)) - ti)")
     (auto dest: find_nth_bound)

declare l2tp_nl_cmd_tunnel_dump.simps [simp del]

section \<open>Session commands\<close>

text \<open>The version 3 part of a session's configuration; \<open>None\<close> where a cookie is too long.\<close>

definition cookie_attr :: "nl_attrs \<Rightarrow> nlattr_id \<Rightarrow> (u8 list \<times> nat) option" where
  "cookie_attr at i =
     (case at i of
        None \<Rightarrow> Some (replicate 8 0, 0)
      | Some v \<Rightarrow> let c = nla_bytes v in if length c > 8 then None else Some (c @ replicate (8 - length c) 0, length c))"

definition session_cfg_v3 :: "nl_attrs \<Rightarrow> l2tp_session_cfg \<Rightarrow> l2tp_session_cfg option" where
  "session_cfg_v3 at cfg =
     (case (cookie_attr at L2TP_ATTR_COOKIE, cookie_attr at L2TP_ATTR_PEER_COOKIE) of
        (Some (c, n), Some (pc, pn)) \<Rightarrow>
          Some (cfg\<lparr>cfg_offset := attr_or at L2TP_ATTR_OFFSET nla_get_u16 (cfg_offset cfg),
            cfg_data_seq := attr_or at L2TP_ATTR_DATA_SEQ (\<lambda>v. ucast (nla_get_u8 v)) (cfg_data_seq cfg),
            cfg_l2specific_type := attr_or at L2TP_ATTR_L2SPEC_TYPE (\<lambda>v. ucast (nla_get_u8 v)) L2TP_L2SPECTYPE_DEFAULT,
            cfg_l2specific_len := attr_or at L2TP_ATTR_L2SPEC_LEN (\<lambda>v. ucast (nla_get_u8 v)) 4,
            cfg_cookie := c, cfg_cookie_len := n, cfg_peer_cookie := pc, cfg_peer_cookie_len := pn,
            cfg_ifname := attr_or at L2TP_ATTR_IFNAME (\<lambda>v. Some (nla_string v)) (cfg_ifname cfg),
            cfg_vlan_id := attr_or at L2TP_ATTR_VLAN_ID nla_get_u16 (cfg_vlan_id cfg)\<rparr>)
      | _ \<Rightarrow> None)"

definition session_cfg_common :: "kenv \<Rightarrow> nl_attrs \<Rightarrow> l2tp_session_cfg \<Rightarrow> l2tp_session_cfg" where
  "session_cfg_common E at cfg = cfg\<lparr>cfg_debug := attr_or at L2TP_ATTR_DEBUG nla_get_u32 (cfg_debug cfg),
     cfg_recv_seq := attr_or at L2TP_ATTR_RECV_SEQ (\<lambda>v. ucast (nla_get_u8 v)) (cfg_recv_seq cfg),
     cfg_send_seq := attr_or at L2TP_ATTR_SEND_SEQ (\<lambda>v. ucast (nla_get_u8 v)) (cfg_send_seq cfg),
     cfg_lns_mode := attr_or at L2TP_ATTR_LNS_MODE (\<lambda>v. ucast (nla_get_u8 v)) (cfg_lns_mode cfg),
     cfg_reorder_timeout := attr_or at L2TP_ATTR_RECV_TIMEOUT (\<lambda>v. msecs_to_jiffies E (nla_get_ms v)) (cfg_reorder_timeout cfg),
     cfg_mtu := attr_or at L2TP_ATTR_MTU (\<lambda>v. uint (nla_get_u16 v)) (cfg_mtu cfg),
     cfg_mru := attr_or at L2TP_ATTR_MRU (\<lambda>v. uint (nla_get_u16 v)) (cfg_mru cfg)\<rparr>"

text \<open>The calls through the table of pseudowires.\<close>

fun call_nl_create :: "nl_cmd_ops \<Rightarrow> kenv \<Rightarrow> nat \<Rightarrow> u32 \<Rightarrow> u32 \<Rightarrow> u32 \<Rightarrow> l2tp_session_cfg \<Rightarrow> kst \<Rightarrow> (int \<times> kst) kres" where
  "call_nl_create L2tp_eth_nl_cmd_ops = l2tp_eth_create"
| "call_nl_create Pppol2tp_nl_cmd_ops = pppol2tp_session_create"

text \<open>
  Creating the session, once the configuration is read. Of the checks on the pseudowire type only
  the missing VLAN id stops the command; the error set for an unsupported type is overwritten.
\<close>

definition nl_create_pw :: "kenv \<Rightarrow> nat \<Rightarrow> nl_attrs \<Rightarrow> u32 \<Rightarrow> u32 \<Rightarrow> u32 \<Rightarrow> l2tp_session_cfg \<Rightarrow> kst \<Rightarrow> (int \<times> kst) kres" where
  "nl_create_pw E net at tid sid psid cfg st =
     (case l2tp_nl_cmd_ops st (unat (cfg_pw_type cfg)) of
        None \<Rightarrow> Inr (- EPROTONOSUPPORT, st)
      | Some ops \<Rightarrow>
          if cfg_pw_type cfg = L2TP_PWTYPE_ETH_VLAN \<and> at L2TP_ATTR_VLAN_ID = None then Inr (- EINVAL, st)
          else call_nl_create ops E net tid sid psid cfg st)"

definition nl_create_cfg :: "kenv \<Rightarrow> nl_attrs \<Rightarrow> l2tp_tunnel \<Rightarrow> u16 \<Rightarrow> l2tp_session_cfg option" where
  "nl_create_cfg E at t pwt =
     (let cfg0 = (ppp_cfg 0)\<lparr>cfg_pw_type := pwt\<rparr>
      in map_option (session_cfg_common E at) (if version t > 2 then session_cfg_v3 at cfg0 else Some cfg0))"

definition l2tp_nl_cmd_session_create :: "kenv \<Rightarrow> nat \<Rightarrow> nl_attrs \<Rightarrow> kst \<Rightarrow> (int \<times> kst) kres" where
  "l2tp_nl_cmd_session_create E net at st =
     on_nl_tunnel net at (\<lambda>tp.
       case at L2TP_ATTR_SESSION_ID of
         None \<Rightarrow> Inr (- EINVAL, st)
       | Some sid \<Rightarrow>
           bind_res (l2tp_session_find E net (Some tp) (nla_get_u32 sid) st) (\<lambda>old.
           if old \<noteq> None then Inr (- EEXIST, st)
           else case (at L2TP_ATTR_PEER_SESSION_ID, at L2TP_ATTR_PW_TYPE) of
             (Some psid, Some pwt) \<Rightarrow>
               if nla_get_u16 pwt \<ge> L2TP_PWTYPE_MAX then Inr (- EINVAL, st)
               else
                 bind_res (deref_ptr (k_tunnels st) (Some tp)) (\<lambda>(_, t).
                 case nl_create_cfg E at t (nla_get_u16 pwt) of
                   None \<Rightarrow> Inr (- EINVAL, st)
                 | Some cfg \<Rightarrow>
                     nl_create_pw E net at (attr_or at L2TP_ATTR_CONN_ID nla_get_u32 0) (nla_get_u32 sid)
                       (nla_get_u32 psid) cfg st)
           | _ \<Rightarrow> Inr (- EINVAL, st))) st"

definition l2tp_nl_cmd_session_delete :: "kenv \<Rightarrow> nat \<Rightarrow> nl_attrs \<Rightarrow> kst \<Rightarrow> (int \<times> kst) kres" where
  "l2tp_nl_cmd_session_delete E net at st =
     bind_res (l2tp_nl_session_find E net at st) (\<lambda>found.
     case found of
       None \<Rightarrow> Inr (- ENODEV, st)
     | Some p \<Rightarrow>
         bind_res (deref_ptr (k_sessions st) (Some p)) (\<lambda>(_, s).
         if pwtype s < L2TP_PWTYPE_MAX \<and> l2tp_nl_cmd_ops st (unat (pwtype s)) \<noteq> None
         then bind_res (l2tp_session_delete E p st) (\<lambda>st'. Inr (0, st'))
         else Inr (0, st)))"

definition modify_session :: "kenv \<Rightarrow> nl_attrs \<Rightarrow> l2tp_tunnel \<Rightarrow> l2tp_session \<Rightarrow> l2tp_session" where
  "modify_session E at t s =
     (let s1 = s\<lparr>s_debug := attr_or at L2TP_ATTR_DEBUG nla_get_u32 (s_debug s),
                 data_seq := attr_or at L2TP_ATTR_DATA_SEQ (\<lambda>v. ucast (nla_get_u8 v)) (data_seq s),
                 recv_seq := attr_or at L2TP_ATTR_RECV_SEQ (\<lambda>v. ucast (nla_get_u8 v)) (recv_seq s)\<rparr>;
          s2 = attr_or at L2TP_ATTR_SEND_SEQ
                 (\<lambda>v. l2tp_session_set_header_len t (s1\<lparr>send_seq := ucast (nla_get_u8 v)\<rparr>) (version t)) s1
      in s2\<lparr>lns_mode := attr_or at L2TP_ATTR_LNS_MODE (\<lambda>v. ucast (nla_get_u8 v)) (lns_mode s2),
            reorder_timeout := attr_or at L2TP_ATTR_RECV_TIMEOUT (\<lambda>v. msecs_to_jiffies E (nla_get_ms v)) (reorder_timeout s2),
            s_mtu := attr_or at L2TP_ATTR_MTU (\<lambda>v. uint (nla_get_u16 v)) (s_mtu s2),
            s_mru := attr_or at L2TP_ATTR_MRU (\<lambda>v. uint (nla_get_u16 v)) (s_mru s2)\<rparr>)"

definition l2tp_nl_cmd_session_modify :: "kenv \<Rightarrow> nat \<Rightarrow> nl_attrs \<Rightarrow> kst \<Rightarrow> (int \<times> kst) kres" where
  "l2tp_nl_cmd_session_modify E net at st =
     bind_res (l2tp_nl_session_find E net at st) (\<lambda>found.
     case found of
       None \<Rightarrow> Inr (- ENODEV, st)
     | Some p \<Rightarrow>
         bind_res (deref_ptr (k_sessions st) (Some p)) (\<lambda>(_, s).
         if at L2TP_ATTR_SEND_SEQ = None then Inr (0, set_session p (modify_session E at zero_tunnel s) st)
         else bind_res (deref_ptr (k_tunnels st) (s_tunnel s)) (\<lambda>(_, t).
                Inr (0, set_session p (modify_session E at t s) st))))"

definition session_attrs :: "kenv \<Rightarrow> l2tp_tunnel \<Rightarrow> l2tp_session \<Rightarrow> (nlattr_id \<times> nl_val) list" where
  "session_attrs E t s =
     [(L2TP_ATTR_CONN_ID, Nl_u32 (tunnel_id t)), (L2TP_ATTR_SESSION_ID, Nl_u32 (session_id s)),
      (L2TP_ATTR_PEER_CONN_ID, Nl_u32 (peer_tunnel_id t)), (L2TP_ATTR_PEER_SESSION_ID, Nl_u32 (peer_session_id s)),
      (L2TP_ATTR_DEBUG, Nl_u32 (s_debug s)), (L2TP_ATTR_PW_TYPE, Nl_u16 (pwtype s)),
      (L2TP_ATTR_MTU, Nl_u16 (of_int (s_mtu s)))] @
     (if s_mru s \<noteq> 0 then [(L2TP_ATTR_MRU, Nl_u16 (of_int (s_mru s)))] else []) @
     (if ifname s \<noteq> [] then [(L2TP_ATTR_IFNAME, Nl_string (ifname s))] else []) @
     (if cookie_len s > 0 then [(L2TP_ATTR_COOKIE, Nl_bytes (take (cookie_len s) (cookie s)))] else []) @
     (if peer_cookie_len s > 0 then [(L2TP_ATTR_PEER_COOKIE, Nl_bytes (take (peer_cookie_len s) (peer_cookie s)))] else []) @
     [(L2TP_ATTR_RECV_SEQ, Nl_u8 (ucast (recv_seq s))), (L2TP_ATTR_SEND_SEQ, Nl_u8 (ucast (send_seq s))),
      (L2TP_ATTR_LNS_MODE, Nl_u8 (ucast (lns_mode s)))] @
     (case t_sock t of None \<Rightarrow> [] | Some a \<Rightarrow> if xfrm_policies E a then [(L2TP_ATTR_USING_IPSEC, Nl_u8 1)] else []) @
     (if reorder_timeout s \<noteq> 0 then [(L2TP_ATTR_RECV_TIMEOUT, Nl_msecs (jiffies_to_msecs E (reorder_timeout s)))] else []) @
     [(L2TP_ATTR_STATS, Nl_flag)] @ stats_attrs (pppol2tp_copy_stats (s_stats s))"

definition l2tp_nl_session_send :: "kenv \<Rightarrow> ptr \<Rightarrow> nl_msg \<Rightarrow> kst \<Rightarrow> (int \<times> nl_msg) kres" where
  "l2tp_nl_session_send E p m st =
     bind_res (deref_ptr (k_sessions st) (Some p)) (\<lambda>(_, s).
     bind_res (deref_ptr (k_tunnels st) (s_tunnel s)) (\<lambda>(_, t). Inr (nl_reply (session_attrs E t s) m)))"

definition l2tp_nl_cmd_session_get :: "kenv \<Rightarrow> nat \<Rightarrow> nl_attrs \<Rightarrow> kst \<Rightarrow> (int \<times> nl_msg option) kres" where
  "l2tp_nl_cmd_session_get E net at st =
     bind_res (l2tp_nl_session_find E net at st) (\<lambda>found.
     case found of None \<Rightarrow> Inr (- ENODEV, None) | Some p \<Rightarrow> nl_answer E (\<lambda>m. l2tp_nl_session_send E p m st))"

lemma session_nth_bound:
  "l2tp_session_find_nth tp n st = Inr (Some p) \<Longrightarrow> n < links st tp"
  by (auto simp: l2tp_session_find_nth_def bind_res_Inr_iff deref_ptr_Inr_iff table_nth_concat links_def tchains_def
      split: if_splits)

text \<open>
  The dump of the sessions: tunnel index, session index, and the tunnel whose sessions are being
  walked.
\<close>

function session_dump_loop :: "kenv \<Rightarrow> nat \<Rightarrow> kst \<Rightarrow> ptr option \<Rightarrow> nat \<Rightarrow> nat \<Rightarrow> nl_msg \<Rightarrow> ((nat \<times> nat) \<times> nl_msg) kres" where
  "session_dump_loop E net st None ti si m =
     (case l2tp_tunnel_find_nth net ti st of
        None \<Rightarrow> Inr ((ti, si), m)
      | Some tp \<Rightarrow> session_dump_loop E net st (Some tp) ti si m)"
| "session_dump_loop E net st (Some tp) ti si m =
     bind_res (l2tp_session_find_nth tp si st) (\<lambda>sp.
     case sp of
       None \<Rightarrow> session_dump_loop E net st None (ti + 1) 0 m
     | Some p \<Rightarrow>
         bind_res (l2tp_nl_session_send E p m st) (\<lambda>(ret, m').
           if ret \<le> 0 then Inr ((ti, si), m')
           else session_dump_loop E net st (Some tp) ti (si + 1) m'))"
  by pat_completeness auto
termination
proof (relation "measures [\<lambda>(E, net, st, tun, ti, si, m).
      let n = length (l2tp_tunnel_list (k_nets st net)) in
      case tun of None \<Rightarrow> 2 * (n - ti) | Some _ \<Rightarrow> if ti < n then 2 * (n - ti) - 1 else 1,
    \<lambda>(E, net, st, tun, ti, si, m). case tun of None \<Rightarrow> 0 | Some tp \<Rightarrow> links st tp - si]", goal_cases)
  case (2 E net st ti si m tp)
  then show ?case using find_nth_bound [of net ti st tp] by (auto simp: Let_def)
next
  case (4 E net st tp ti si m x p y ret m')
  then show ?case using session_nth_bound [of tp si st p] by auto
qed (auto simp: Let_def)

definition l2tp_nl_cmd_session_dump :: "kenv \<Rightarrow> nat \<Rightarrow> kst \<Rightarrow> nat \<Rightarrow> nat \<Rightarrow> nl_msg \<Rightarrow> ((nat \<times> nat) \<times> nl_msg) kres" where
  "l2tp_nl_cmd_session_dump E net st ti si m = session_dump_loop E net st None ti si m"

section \<open>The table of pseudowires\<close>

definition l2tp_nl_register_ops :: "nat \<Rightarrow> nl_cmd_ops \<Rightarrow> kst \<Rightarrow> int \<times> kst" where
  "l2tp_nl_register_ops pwt ops st =
     (if pwt \<ge> 12 then (- EINVAL, st)
      else if l2tp_nl_cmd_ops st pwt \<noteq> None then (- EBUSY, st)
      else (0, st\<lparr>l2tp_nl_cmd_ops := (l2tp_nl_cmd_ops st)(pwt \<mapsto> ops)\<rparr>))"

definition l2tp_nl_unregister_ops :: "nat \<Rightarrow> kst \<Rightarrow> kst" where
  "l2tp_nl_unregister_ops pwt st =
     (if pwt < 12 then st\<lparr>l2tp_nl_cmd_ops := (l2tp_nl_cmd_ops st)(pwt := None)\<rparr> else st)"

text \<open>The Ethernet module: it registers its commands, and takes them back when the device hooks fail.\<close>

definition l2tp_eth_init :: "int \<Rightarrow> kst \<Rightarrow> int \<times> kst" where
  "l2tp_eth_init pernet_err st =
     (case l2tp_nl_register_ops (unat L2TP_PWTYPE_ETH) L2tp_eth_nl_cmd_ops st of
        (err, st1) \<Rightarrow>
          if err \<noteq> 0 then (err, st1)
          else if pernet_err \<noteq> 0 then (pernet_err, l2tp_nl_unregister_ops (unat L2TP_PWTYPE_ETH) st1)
          else (0, st1))"

definition l2tp_eth_exit :: "kst \<Rightarrow> kst" where
  "l2tp_eth_exit st = l2tp_nl_unregister_ops (unat L2TP_PWTYPE_ETH) st"

end
