(* ===== verification/L2tp_Ip.thy ===== *)
theory L2tp_Ip
  imports L2tp_Netlink
begin

unbundle bit_operations_syntax

text \<open>
  L2TP directly over IP, \<^verbatim>\<open>l2tp_ip.c\<close> and \<^verbatim>\<open>l2tp_ip6.c\<close>: the sockets of protocol 115, the tables
  they are found in, and the receive handlers that hand data packets to their session and
  control packets to a socket. The two tables of each module are \<open>ip_tables\<close>; being in the
  first holds a reference to the socket, being in the second does not.
\<close>

abbreviation (input) TCP_ESTABLISHED :: nat where "TCP_ESTABLISHED \<equiv> 1"
abbreviation (input) TCP_CLOSE :: nat where "TCP_CLOSE \<equiv> 7"
abbreviation (input) RTN_LOCAL :: nat where "RTN_LOCAL \<equiv> 2"
abbreviation (input) RTN_BROADCAST :: nat where "RTN_BROADCAST \<equiv> 3"
abbreviation (input) RTN_MULTICAST :: nat where "RTN_MULTICAST \<equiv> 5"
abbreviation (input) AF_UNSPEC :: nat where "AF_UNSPEC \<equiv> 0"
abbreviation (input) IPV6_ADDR_ANY :: nat where "IPV6_ADDR_ANY \<equiv> 0"
abbreviation (input) IPV6_ADDR_MULTICAST :: nat where "IPV6_ADDR_MULTICAST \<equiv> 2"
abbreviation (input) IPV6_ADDR_LINKLOCAL :: nat where "IPV6_ADDR_LINKLOCAL \<equiv> 0x20"
abbreviation (input) IPV6_ADDR_MAPPED :: nat where "IPV6_ADDR_MAPPED \<equiv> 0x1000"
abbreviation (input) LOOPBACK4_IPV6 :: u32 where "LOOPBACK4_IPV6 \<equiv> 0x7f000006"
abbreviation (input) init_net :: nat where "init_net \<equiv> 0"

record ip_tables =
  l2tp_ip_table :: "ptr list"
  l2tp_ip_bind_table :: "ptr list"

section \<open>Finding a bound socket\<close>

definition ip_bind_match :: "nat \<Rightarrow> u32 \<Rightarrow> int \<Rightarrow> u32 \<Rightarrow> sock \<Rightarrow> bool" where
  "ip_bind_match net laddr dif tid sk \<longleftrightarrow> conn_id sk = tid \<and> sk_net sk = net \<and>
     \<not> (inet_rcv_saddr sk \<noteq> 0 \<and> inet_rcv_saddr sk \<noteq> laddr) \<and>
     \<not> (sk_bound_dev_if sk \<noteq> 0 \<and> sk_bound_dev_if sk \<noteq> dif)"

definition l2tp_ip_bind_lookup_raw :: "nat \<Rightarrow> u32 \<Rightarrow> int \<Rightarrow> u32 \<Rightarrow> ip_tables \<Rightarrow> kst \<Rightarrow> ptr option kres" where
  "l2tp_ip_bind_lookup_raw net laddr dif tid tbs st =
     chain_find (socks (k_world st)) (ip_bind_match net laddr dif tid) (l2tp_ip_bind_table tbs)"

definition l2tp_ip_bind_lookup :: "nat \<Rightarrow> u32 \<Rightarrow> int \<Rightarrow> u32 \<Rightarrow> ip_tables \<Rightarrow> kst \<Rightarrow> (ptr option \<times> kst) kres" where
  "l2tp_ip_bind_lookup net laddr dif tid tbs st =
     bind_res (l2tp_ip_bind_lookup_raw net laddr dif tid tbs st) (\<lambda>skp.
     case skp of
       None \<Rightarrow> Inr (None, st)
     | Some a \<Rightarrow> bind_res (on_world (sock_hold (Some a)) st) (\<lambda>st'. Inr (Some a, st')))"

text \<open>
  The IPv6 lookup. The address of the socket is always there, so the third condition is that
  it differs from the address looked for.
\<close>

definition ip6_bind_match :: "nat \<Rightarrow> 128 word \<Rightarrow> int \<Rightarrow> u32 \<Rightarrow> sock \<Rightarrow> bool" where
  "ip6_bind_match net laddr dif tid sk \<longleftrightarrow> conn_id sk = tid \<and> sk_net sk = net \<and>
     \<not> (sk_v6_rcv_saddr sk = laddr) \<and> \<not> (sk_bound_dev_if sk \<noteq> 0 \<and> sk_bound_dev_if sk \<noteq> dif)"

definition l2tp_ip6_bind_lookup_raw :: "nat \<Rightarrow> 128 word \<Rightarrow> int \<Rightarrow> u32 \<Rightarrow> ip_tables \<Rightarrow> kst \<Rightarrow> ptr option kres" where
  "l2tp_ip6_bind_lookup_raw net laddr dif tid tbs st =
     chain_find (socks (k_world st)) (ip6_bind_match net laddr dif tid) (l2tp_ip_bind_table tbs)"

definition l2tp_ip6_bind_lookup :: "nat \<Rightarrow> 128 word \<Rightarrow> int \<Rightarrow> u32 \<Rightarrow> ip_tables \<Rightarrow> kst \<Rightarrow> (ptr option \<times> kst) kres" where
  "l2tp_ip6_bind_lookup net laddr dif tid tbs st =
     bind_res (l2tp_ip6_bind_lookup_raw net laddr dif tid tbs st) (\<lambda>skp.
     case skp of
       None \<Rightarrow> Inr (None, st)
     | Some a \<Rightarrow> bind_res (on_world (sock_hold (Some a)) st) (\<lambda>st'. Inr (Some a, st')))"

section \<open>Receiving\<close>

definition ip_discard :: "sk_buff \<Rightarrow> kst \<Rightarrow> (int \<times> kst) kres" where
  "ip_discard skb st = Inr (0, st\<lparr>k_trace := k_trace st @ [Kfree_skb skb]\<rparr>)"

text \<open>A data packet: the session is looked up by its id alone, then the common receive path.\<close>

definition ip_data :: "kenv \<Rightarrow> nat \<Rightarrow> u32 \<Rightarrow> sk_buff \<Rightarrow> kst \<Rightarrow> (int \<times> kst) kres" where
  "ip_data E net sid skb st =
     bind_res (l2tp_session_find E net None sid st) (\<lambda>found.
     case found of
       None \<Rightarrow> ip_discard skb st
     | Some p \<Rightarrow>
         bind_res (deref_ptr (k_sessions st) (Some p)) (\<lambda>(_, s).
         case s_tunnel s of
           None \<Rightarrow> ip_discard skb st
         | Some tp \<Rightarrow>
             bind_res (deref_ptr (k_tunnels st) (Some tp)) (\<lambda>(_, t).
             case (if t_debug t AND L2TP_MSG_DATA \<noteq> 0 then pskb_may_pull E skb (min 32 (skb_len skb)) else (True, skb)) of
               (False, skb1) \<Rightarrow> ip_discard skb1 st
             | (True, skb1) \<Rightarrow>
                 bind_res (l2tp_recv_common E p skb1 4 0 (int (skb_len skb1)) (recv_payload_hook t) st)
                   (\<lambda>st'. Inr (0, st')))))"

text \<open>
  A control packet goes to the socket of its tunnel or to the socket bound to its tunnel id, if
  the IPsec policy lets it. \<^verbatim>\<open>sk_receive_skb\<close> drops the reference when it is done.
\<close>

definition ip_control :: "kenv \<Rightarrow> nat \<Rightarrow> (u32 \<Rightarrow> ptr option kres) \<Rightarrow> sk_buff \<Rightarrow> kst \<Rightarrow> (int \<times> kst) kres" where
  "ip_control E net look skb0 st =
     bind_res (skb_pull skb0 4) (\<lambda>skb1.
     case pskb_may_pull E skb1 12 of
       (False, skb) \<Rightarrow> ip_discard skb st
     | (True, skb) \<Rightarrow>
         if skb_data skb ! 0 AND 0xc0 \<noteq> 0xc0 then ip_discard skb st
         else
           bind_res (get_be32 (linear skb) 4) (\<lambda>tid.
           bind_res (l2tp_tunnel_find net tid st) (\<lambda>tun.
           bind_res (case tun of
                       Some tp \<Rightarrow> bind_res (deref_ptr (k_tunnels st) (Some tp)) (\<lambda>(_, t). Inr (t_sock t))
                     | None \<Rightarrow> look tid) (\<lambda>skp.
           case skp of
             None \<Rightarrow> ip_discard skb st
           | Some a \<Rightarrow>
               bind_res (on_world (sock_hold (Some a)) st) (\<lambda>st1.
               if \<not> xfrm_policy_check E a skb
               then bind_res (on_world (sock_put (Some a)) st1) (ip_discard skb)
               else bind_res (on_world (sock_put (Some a)) (st1\<lparr>k_trace := k_trace st1 @ [Passed_up skb]\<rparr>))
                      (\<lambda>st2. Inr (sk_receive_skb E a skb, st2)))))))"

definition l2tp_ip_recv :: "kenv \<Rightarrow> nat \<Rightarrow> u32 \<Rightarrow> sk_buff \<Rightarrow> ip_tables \<Rightarrow> kst \<Rightarrow> (int \<times> kst) kres" where
  "l2tp_ip_recv E net daddr skb0 tbs st =
     (case pskb_may_pull E skb0 4 of
        (False, skb) \<Rightarrow> ip_discard skb st
      | (True, skb) \<Rightarrow>
          bind_res (get_be32 (linear skb) 0) (\<lambda>sid.
          if sid = 0 then ip_control E net (\<lambda>tid. l2tp_ip_bind_lookup_raw net daddr 0 tid tbs st) skb st
          else ip_data E net sid skb st))"

text \<open>The IPv6 handler looks everything up in the initial namespace.\<close>

definition l2tp_ip6_recv :: "kenv \<Rightarrow> 128 word \<Rightarrow> sk_buff \<Rightarrow> ip_tables \<Rightarrow> kst \<Rightarrow> (int \<times> kst) kres" where
  "l2tp_ip6_recv E daddr skb0 tbs st =
     (case pskb_may_pull E skb0 4 of
        (False, skb) \<Rightarrow> ip_discard skb st
      | (True, skb) \<Rightarrow>
          bind_res (get_be32 (linear skb) 0) (\<lambda>sid.
          if sid = 0
          then ip_control E init_net (\<lambda>tid. l2tp_ip6_bind_lookup_raw init_net daddr 0 tid tbs st) skb st
          else ip_data E init_net sid skb st))"

definition l2tp_ip_backlog_recv :: "kenv \<Rightarrow> ptr \<Rightarrow> sk_buff \<Rightarrow> kst \<Rightarrow> (int \<times> kst) kres" where
  "l2tp_ip_backlog_recv E a skb st =
     (if sock_queue_rcv_skb E a skb < 0
      then Inr (- 1, st\<lparr>k_trace := k_trace st @ [Kfree_skb skb]\<rparr>)
      else Inr (0, st\<lparr>k_world := upd_sock a (\<lambda>x. x\<lparr>sk_receive_queue := sk_receive_queue x @ [skb]\<rparr>) (k_world st)\<rparr>))"

section \<open>Sockets\<close>

definition sk_add_node :: "ptr \<Rightarrow> ip_tables \<times> kst \<Rightarrow> (ip_tables \<times> kst) kres" where
  "sk_add_node a = (\<lambda>(tbs, st).
     bind_res (on_world (sock_hold (Some a)) st) (\<lambda>st'. Inr (tbs\<lparr>l2tp_ip_table := a # l2tp_ip_table tbs\<rparr>, st')))"

definition sk_del_node_init :: "ptr \<Rightarrow> ip_tables \<times> kst \<Rightarrow> (ip_tables \<times> kst) kres" where
  "sk_del_node_init a = (\<lambda>(tbs, st).
     if a \<in> set (l2tp_ip_table tbs)
     then bind_res (on_world (sock_put (Some a)) st)
            (\<lambda>st'. Inr (tbs\<lparr>l2tp_ip_table := remove1 a (l2tp_ip_table tbs)\<rparr>, st'))
     else Inr (tbs, st))"

definition sk_add_bind_node :: "ptr \<Rightarrow> ip_tables \<Rightarrow> ip_tables" where
  "sk_add_bind_node a tbs = tbs\<lparr>l2tp_ip_bind_table := a # l2tp_ip_bind_table tbs\<rparr>"

definition del_bind_node :: "ptr \<Rightarrow> ip_tables \<Rightarrow> ip_tables" where
  "del_bind_node a tbs = tbs\<lparr>l2tp_ip_bind_table := remove1 a (l2tp_ip_bind_table tbs)\<rparr>"

text \<open>\<^verbatim>\<open>l2tp_ip_open\<close> and \<^verbatim>\<open>l2tp_ip6_open\<close> differ only in the tables they are given.\<close>

definition l2tp_ip_open :: "ptr \<Rightarrow> ip_tables \<Rightarrow> kst \<Rightarrow> (ip_tables \<times> kst) kres" where
  "l2tp_ip_open a tbs st =
     sk_add_node a (tbs, st\<lparr>k_world := upd_sock a (\<lambda>x. x\<lparr>inet_num := IPPROTO_L2TP\<rparr>) (k_world st)\<rparr>)"

definition l2tp_ip_close :: "kenv \<Rightarrow> ptr \<Rightarrow> ip_tables \<Rightarrow> kst \<Rightarrow> (ip_tables \<times> kst) kres" where
  "l2tp_ip_close E a tbs st =
     bind_res (sk_del_node_init a (del_bind_node a tbs, st)) (\<lambda>(tbs1, st1).
     bind_res (l2tp_ip_destroy_sock E a st1) (\<lambda>st2.
     bind_res (on_world (sock_put (Some a))
        (st2\<lparr>k_world := upd_sock a (\<lambda>x. x\<lparr>sk_socket := False, sk_dead := True\<rparr>) (k_world st2)\<rparr>))
       (\<lambda>st3. Inr (tbs1, st3))))"

record sockaddr_l2tpip =
  l2tp_family :: nat
  l2tp_addr :: u32
  l2tp_conn_id :: u32
  l2tp_len_ok :: bool

definition l2tp_ip_bind :: "kenv \<Rightarrow> ptr \<Rightarrow> sockaddr_l2tpip \<Rightarrow> ip_tables \<Rightarrow> kst \<Rightarrow> (int \<times> ip_tables \<times> kst) kres" where
  "l2tp_ip_bind E a addr tbs st =
     bind_res (deref_ptr (socks (k_world st)) (Some a)) (\<lambda>(_, sk).
     if \<not> sk_zapped sk \<or> \<not> l2tp_len_ok addr \<or> l2tp_family addr \<noteq> AF_INET then Inr (- EINVAL, tbs, st)
     else
       bind_res (l2tp_ip_bind_lookup_raw (sk_net sk) (l2tp_addr addr) (sk_bound_dev_if sk) (l2tp_conn_id addr) tbs st) (\<lambda>used.
       if used \<noteq> None \<or> sk_state sk \<noteq> TCP_CLOSE then Inr (- EADDRINUSE, tbs, st)
       else
         let ty = inet_addr_type E (sk_net sk) (l2tp_addr addr) in
         if l2tp_addr addr \<noteq> 0 \<and> ty \<noteq> RTN_LOCAL \<and> ty \<noteq> RTN_MULTICAST \<and> ty \<noteq> RTN_BROADCAST \<and> \<not> freebind sk
         then Inr (- EADDRNOTAVAIL, tbs, st)
         else
           let sk1 = (if l2tp_addr addr \<noteq> 0
                      then sk\<lparr>inet_rcv_saddr := l2tp_addr addr, inet_saddr := l2tp_addr addr\<rparr> else sk);
               sk2 = (if ty = RTN_MULTICAST \<or> ty = RTN_BROADCAST then sk1\<lparr>inet_saddr := 0\<rparr> else sk1);
               st1 = st\<lparr>k_world := upd_sock a (\<lambda>_. sk2\<lparr>conn_id := l2tp_conn_id addr\<rparr>) (k_world st)\<rparr>
           in bind_res (sk_del_node_init a (sk_add_bind_node a tbs, st1)) (\<lambda>(tbs2, st2).
                Inr (0, tbs2, st2\<lparr>k_world := upd_sock a (\<lambda>x. x\<lparr>sk_zapped := False\<rparr>) (k_world st2)\<rparr>))))"

definition ipv4_is_multicast :: "u32 \<Rightarrow> bool" where
  "ipv4_is_multicast addr \<longleftrightarrow> addr AND 0xf0000000 = 0xe0000000"

definition l2tp_ip_connect :: "kenv \<Rightarrow> ptr \<Rightarrow> sockaddr_l2tpip \<Rightarrow> ip_tables \<Rightarrow> kst \<Rightarrow> (int \<times> ip_tables \<times> kst) kres" where
  "l2tp_ip_connect E a addr tbs st =
     bind_res (deref_ptr (socks (k_world st)) (Some a)) (\<lambda>(_, sk).
     if sk_zapped sk \<or> \<not> l2tp_len_ok addr \<or> ipv4_is_multicast (l2tp_addr addr) then Inr (- EINVAL, tbs, st)
     else case datagram_connect E (Sockaddr_l2tpip (l2tp_addr addr) (l2tp_conn_id addr)) sk of
       (rc, sk1) \<Rightarrow>
         if rc < 0 then Inr (rc, tbs, st\<lparr>k_world := upd_sock a (\<lambda>_. sk1) (k_world st)\<rparr>)
         else Inr (rc, sk_add_bind_node a (del_bind_node a tbs),
                st\<lparr>k_world := upd_sock a (\<lambda>_. sk1\<lparr>peer_conn_id := l2tp_conn_id addr\<rparr>) (k_world st)\<rparr>))"

definition l2tp_ip_disconnect :: "kenv \<Rightarrow> ptr \<Rightarrow> kst \<Rightarrow> (int \<times> kst) kres" where
  "l2tp_ip_disconnect E a st =
     bind_res (deref_ptr (socks (k_world st)) (Some a)) (\<lambda>(_, sk).
     if sk_zapped sk then Inr (0, st)
     else case udp_disconnect E sk of (rc, sk1) \<Rightarrow> Inr (rc, st\<lparr>k_world := upd_sock a (\<lambda>_. sk1) (k_world st)\<rparr>))"

definition l2tp_ip_getname :: "sock \<Rightarrow> bool \<Rightarrow> int + sockaddr_l2tpip" where
  "l2tp_ip_getname sk peer =
     (if peer
      then (if inet_dport sk = 0 then Inl (- ENOTCONN)
            else Inr \<lparr>l2tp_family = AF_INET, l2tp_addr = inet_daddr sk, l2tp_conn_id = peer_conn_id sk, l2tp_len_ok = True\<rparr>)
      else Inr \<lparr>l2tp_family = AF_INET,
             l2tp_addr = (if inet_rcv_saddr sk = 0 then inet_saddr sk else inet_rcv_saddr sk),
             l2tp_conn_id = conn_id sk, l2tp_len_ok = True\<rparr>)"

section \<open>Messages\<close>

text \<open>
  Where a message goes: the address given with it, or the connected peer. An address of an
  unspecified family is taken like an IPv4 one.
\<close>

definition sendmsg_dest :: "sock \<Rightarrow> sockaddr_l2tpip option \<Rightarrow> int + u32 \<times> bool" where
  "sendmsg_dest sk name =
     (case name of
        Some lip \<Rightarrow>
          if \<not> l2tp_len_ok lip then Inl (- EINVAL)
          else if l2tp_family lip \<noteq> AF_INET \<and> l2tp_family lip \<noteq> AF_UNSPEC then Inl (- EAFNOSUPPORT)
          else Inr (l2tp_addr lip, False)
      | None \<Rightarrow> if sk_state sk \<noteq> TCP_ESTABLISHED then Inl (- EDESTADDRREQ) else Inr (inet_daddr sk, True))"

definition sendmsg_route :: "kenv \<Rightarrow> ptr \<Rightarrow> sock \<Rightarrow> u32 \<Rightarrow> bool \<Rightarrow> ptr option" where
  "sendmsg_route E a sk daddr connected =
     (case (if connected then sk_dst_check E a else None) of
        Some d \<Rightarrow> Some d
      | None \<Rightarrow> ip_route_output_ports E (case inet_srr_faddr E a of Some f \<Rightarrow> f | None \<Rightarrow> daddr) sk)"

definition l2tp_ip_sendmsg :: "kenv \<Rightarrow> ptr \<Rightarrow> sockaddr_l2tpip option \<Rightarrow> int + u8 list \<Rightarrow> kst \<Rightarrow> (int \<times> kst) kres" where
  "l2tp_ip_sendmsg E a name iov st =
     bind_res (deref_ptr (socks (k_world st)) (Some a)) (\<lambda>(_, sk).
     if sk_dead sk then Inr (- ENOTCONN, st)
     else case sendmsg_dest sk name of
       Inl e \<Rightarrow> Inr (e, st)
     | Inr (daddr, connected) \<Rightarrow>
         if \<not> kzalloc_ok E Alloc_skb then Inr (- ENOMEM, st)
         else
           let skb = (\<lambda>bs. new_skb a (2 + NET_SKB_PAD E + IP_HLEN) (put_be32 0 @ bs)) in
           case iov of
             Inl e \<Rightarrow> Inr (e, st\<lparr>k_trace := k_trace st @ [Kfree_skb (skb [])]\<rparr>)
           | Inr bs \<Rightarrow>
               (case sendmsg_route E a sk daddr connected of
                  None \<Rightarrow> Inr (- EHOSTUNREACH, st\<lparr>k_trace := k_trace st @ [Kfree_skb (skb bs)]\<rparr>)
                | Some d \<Rightarrow>
                    let skb' = (skb bs)\<lparr>skb_dst := Some d\<rparr>; rc = ip_queue_xmit E skb'
                    in Inr (if rc \<ge> 0 then int (length bs) else rc, st\<lparr>k_trace := k_trace st @ [Xmit_skb skb']\<rparr>)))"

text \<open>The result, the bytes copied, whether the packet was cut.\<close>

definition l2tp_ip_recvmsg :: "kenv \<Rightarrow> ptr \<Rightarrow> nat \<Rightarrow> bool \<Rightarrow> bool \<Rightarrow> kst \<Rightarrow> ((int \<times> u8 list \<times> bool) \<times> kst) kres" where
  "l2tp_ip_recvmsg E a len oob trunc st =
     (if oob then Inr ((- EOPNOTSUPP, [], False), st)
      else
        bind_res (deref_ptr (socks (k_world st)) (Some a)) (\<lambda>(_, sk).
        case sk_receive_queue sk of
          [] \<Rightarrow> Inr ((recv_datagram_err E a, [], False), st)
        | skb # q \<Rightarrow>
            let n = min len (skb_len skb);
                bytes = take n (skb_data skb);
                err = skb_copy_to_user E bytes;
                st1 = st\<lparr>k_world := upd_sock a (\<lambda>x. x\<lparr>sk_receive_queue := q\<rparr>) (k_world st),
                         k_trace := k_trace st @ [Kfree_skb skb]\<rparr>
            in Inr ((if err \<noteq> 0 then err else int (if trunc then skb_len skb else n),
                     if err = 0 then bytes else [], len < skb_len skb), st1)))"

section \<open>IPv6 sockets\<close>

record sockaddr_l2tpip6 =
  l2tp6_family :: nat
  l2tp6_addr :: "128 word"
  l2tp6_scope_id :: int
  l2tp6_conn_id :: u32
  l2tp6_len_ok :: bool

text \<open>
  The check that the address belongs to the host; the device of a link-local address is given
  by the scope or by an earlier binding. On success the IPv4 address the socket gets.
\<close>

definition ip6_host_check :: "kenv \<Rightarrow> nat \<Rightarrow> sockaddr_l2tpip6 \<Rightarrow> nat \<Rightarrow> (int \<Rightarrow> bool) \<Rightarrow> sock \<Rightarrow> (int + u32) \<times> sock" where
  "ip6_host_check E net addr ty dev_exists sk =
     (if ty = IPV6_ADDR_ANY then (Inr 0, sk)
      else
        let ll = (ty AND IPV6_ADDR_LINKLOCAL \<noteq> 0);
            sk1 = (if ll \<and> l2tp6_scope_id addr \<noteq> 0 then sk\<lparr>sk_bound_dev_if := l2tp6_scope_id addr\<rparr> else sk)
        in if ll \<and> sk_bound_dev_if sk1 = 0 then (Inl (- EINVAL), sk1)
           else if ll \<and> \<not> dev_exists (sk_bound_dev_if sk1) then (Inl (- ENODEV), sk1)
           else if \<not> ipv6_chk_addr E net (l2tp6_addr addr) (if ll then sk_bound_dev_if sk1 else 0)
           then (Inl (- EADDRNOTAVAIL), sk1)
           else (Inr LOOPBACK4_IPV6, sk1))"

definition l2tp_ip6_bind :: "kenv \<Rightarrow> (int \<Rightarrow> bool) \<Rightarrow> ptr \<Rightarrow> sockaddr_l2tpip6 \<Rightarrow> ip_tables \<Rightarrow> kst
    \<Rightarrow> (int \<times> ip_tables \<times> kst) kres" where
  "l2tp_ip6_bind E dev_exists a addr tbs st =
     bind_res (deref_ptr (socks (k_world st)) (Some a)) (\<lambda>(_, sk).
     if \<not> sk_zapped sk \<or> l2tp6_family addr \<noteq> AF_INET6 \<or> \<not> l2tp6_len_ok addr then Inr (- EINVAL, tbs, st)
     else
       let ty = ipv6_addr_type E (l2tp6_addr addr) in
       if ty = IPV6_ADDR_MAPPED \<or> ty AND IPV6_ADDR_MULTICAST \<noteq> 0 then Inr (- EADDRNOTAVAIL, tbs, st)
       else
         bind_res (l2tp_ip6_bind_lookup_raw init_net (l2tp6_addr addr) (sk_bound_dev_if sk) (l2tp6_conn_id addr) tbs st) (\<lambda>used.
         if used \<noteq> None then Inr (- EADDRINUSE, tbs, st)
         else if sk_state sk \<noteq> TCP_CLOSE then Inr (- EINVAL, tbs, st)
         else case ip6_host_check E (sk_net sk) addr ty dev_exists sk of
           (Inl e, sk1) \<Rightarrow> Inr (e, tbs, st\<lparr>k_world := upd_sock a (\<lambda>_. sk1) (k_world st)\<rparr>)
         | (Inr v4addr, sk1) \<Rightarrow>
             let sk2 = sk1\<lparr>inet_rcv_saddr := v4addr, inet_saddr := v4addr, sk_v6_rcv_saddr := l2tp6_addr addr,
                           np_saddr := l2tp6_addr addr, conn_id := l2tp6_conn_id addr\<rparr>;
                 st1 = st\<lparr>k_world := upd_sock a (\<lambda>_. sk2) (k_world st)\<rparr>
             in bind_res (sk_del_node_init a (sk_add_bind_node a tbs, st1)) (\<lambda>(tbs2, st2).
                  Inr (0, tbs2, st2\<lparr>k_world := upd_sock a (\<lambda>x. x\<lparr>sk_zapped := False\<rparr>) (k_world st2)\<rparr>))))"

text \<open>The IPv6 connect goes on when the datagram connect fails.\<close>

definition l2tp_ip6_connect :: "kenv \<Rightarrow> ptr \<Rightarrow> sockaddr_l2tpip6 \<Rightarrow> ip_tables \<Rightarrow> kst \<Rightarrow> (int \<times> ip_tables \<times> kst) kres" where
  "l2tp_ip6_connect E a addr tbs st =
     bind_res (deref_ptr (socks (k_world st)) (Some a)) (\<lambda>(_, sk).
     let ty = ipv6_addr_type E (l2tp6_addr addr) in
     if sk_zapped sk \<or> \<not> l2tp6_len_ok addr \<or> l2tp6_family addr \<noteq> AF_INET6 \<or> ty AND IPV6_ADDR_MULTICAST \<noteq> 0 \<or>
        (ty AND IPV6_ADDR_MAPPED \<noteq> 0 \<and> ipv4_is_multicast (ucast (l2tp6_addr addr)))
     then Inr (- EINVAL, tbs, st)
     else case datagram_connect E (Sockaddr_l2tpip6 (l2tp6_addr addr) (l2tp6_conn_id addr)) sk of
       (rc, sk1) \<Rightarrow>
         Inr (rc, sk_add_bind_node a (del_bind_node a tbs),
           st\<lparr>k_world := upd_sock a (\<lambda>_. sk1\<lparr>peer_conn_id := l2tp6_conn_id addr\<rparr>) (k_world st)\<rparr>))"

definition l2tp_ip6_getname :: "kenv \<Rightarrow> sock \<Rightarrow> bool \<Rightarrow> int + sockaddr_l2tpip6" where
  "l2tp_ip6_getname E sk peer =
     (let mk = (\<lambda>ad cid. \<lparr>l2tp6_family = AF_INET6, l2tp6_addr = ad,
                 l2tp6_scope_id = (if ipv6_addr_type E ad AND IPV6_ADDR_LINKLOCAL \<noteq> 0 then sk_bound_dev_if sk else 0),
                 l2tp6_conn_id = cid, l2tp6_len_ok = True\<rparr>)
      in if peer
         then (if peer_conn_id sk = 0 then Inl (- ENOTCONN) else Inr (mk (sk_v6_daddr sk) (peer_conn_id sk)))
         else Inr (mk (if sk_v6_rcv_saddr sk = 0 then np_saddr sk else sk_v6_rcv_saddr sk) (conn_id sk)))"

definition l2tp_ip6_destroy_sock :: "kenv \<Rightarrow> ptr \<Rightarrow> kst \<Rightarrow> kst kres" where
  "l2tp_ip6_destroy_sock E a st =
     bind_res (l2tp_sock_to_tunnel (Some a) st) (\<lambda>(tp, st1).
     bind_res (deref_ptr (socks (k_world st1)) (Some a)) (\<lambda>(_, sk).
     let st2 = st1\<lparr>k_trace := k_trace st1 @ map Kfree_skb (rev (sk_write_queue sk)),
                   k_world := upd_sock a (\<lambda>x. x\<lparr>sk_write_queue := []\<rparr>) (k_world st1)\<rparr> in
     case tp of
       None \<Rightarrow> Inr st2
     | Some b \<Rightarrow> bind_res (l2tp_tunnel_closeall E b st2) (on_world (sock_put (Some a)))))"

definition l2tp_ip6_close :: "kenv \<Rightarrow> ptr \<Rightarrow> ip_tables \<Rightarrow> kst \<Rightarrow> (ip_tables \<times> kst) kres" where
  "l2tp_ip6_close E a tbs st =
     bind_res (sk_del_node_init a (del_bind_node a tbs, st)) (\<lambda>(tbs1, st1).
     bind_res (l2tp_ip6_destroy_sock E a st1) (\<lambda>st2.
     bind_res (on_world (sock_put (Some a))
        (st2\<lparr>k_world := upd_sock a (\<lambda>x. x\<lparr>sk_socket := False, sk_dead := True\<rparr>) (k_world st2)\<rparr>))
       (\<lambda>st3. Inr (tbs1, st3))))"

end
