(* ===== verification/L2tp_Effect.thy ===== *)
theory L2tp_Effect
  imports L2tp_Ip
begin

unbundle bit_operations_syntax

text \<open>
  What the operations of the lifecycle do to the heap, as equations: for a state in which the
  objects they touch are there, each operation returns, and the state it returns is given field
  by field. The invariant of the next theory is proved from these equations.
\<close>

section \<open>References\<close>

text \<open>The count of a socket changed by \<open>k\<close>; nothing for the NULL pointer.\<close>

definition adj_refs :: "ptr option \<Rightarrow> int \<Rightarrow> world \<Rightarrow> world" where
  "adj_refs p k w = (case p of None \<Rightarrow> w | Some a \<Rightarrow> upd_sock a (\<lambda>x. x\<lparr>sk_refcnt := sk_refcnt x + k\<rparr>) w)"

lemma upd_sock_id [simp]: "upd_sock a (\<lambda>x. x) w = w"
  by (simp add: upd_sock_def option.map_ident)

lemma upd_sock_upd [simp]: "upd_sock a f (upd_sock a g w) = upd_sock a (\<lambda>x. f (g x)) w"
  by (simp add: upd_sock_def option.map_comp comp_def)

lemma devs_upd_sock [simp]: "devs (upd_sock a f w) = devs w" "eth_dev_list (upd_sock a f w) = eth_dev_list w"
  by (simp_all add: upd_sock_def)

lemma socks_upd_sock: "socks (upd_sock a f w) = (socks w)(a := map_option f (socks w a))"
  by (simp add: upd_sock_def)

lemma adj_refs_None [simp]: "adj_refs None k w = w"
  by (simp add: adj_refs_def)

lemma adj_refs_zero [simp]: "adj_refs p 0 w = w"
  by (simp add: adj_refs_def split: option.splits)

lemma adj_refs_adj [simp]: "adj_refs p i (adj_refs p j w) = adj_refs p (j + i) w"
  by (simp add: adj_refs_def add.assoc split: option.splits)

lemma devs_adj_refs [simp]: "devs (adj_refs p k w) = devs w" "eth_dev_list (adj_refs p k w) = eth_dev_list w"
  by (simp_all add: adj_refs_def split: option.splits)

lemma socks_adj_refs:
  "socks (adj_refs (Some a) k w) = (socks w)(a := map_option (\<lambda>x. x\<lparr>sk_refcnt := sk_refcnt x + k\<rparr>) (socks w a))"
  by (simp add: adj_refs_def socks_upd_sock)

lemma sock_alive_adj [simp]: "sock_alive (adj_refs p k w) q = sock_alive w q"
  by (simp add: adj_refs_def split: option.splits)

lemma dev_alive_adj [simp]: "dev_alive (adj_refs p k w) q = dev_alive w q"
  by (simp add: dev_alive_def split: option.split)

lemma sock_hold_eff: "socks w a \<noteq> None \<Longrightarrow> sock_hold (Some a) w = Inr (adj_refs (Some a) 1 w)"
  by (auto simp: sock_hold_def adj_refs_def)

lemma sock_put_eff: "socks w a \<noteq> None \<Longrightarrow> sock_put (Some a) w = Inr (adj_refs (Some a) (- 1) w)"
  by (auto simp: sock_put_def adj_refs_def)

lemma on_world_Inr [simp]: "on_world f st = Inr (st\<lparr>k_world := w\<rparr>) \<longleftrightarrow> f (k_world st) = Inr w"
  by (auto simp: on_world_def bind_res_Inr_iff) (metis kst.select_convs(3) kst.update_convs(3) kst.surjective)

lemma on_world_eff: "f (k_world st) = Inr w \<Longrightarrow> on_world f st = Inr (st\<lparr>k_world := w\<rparr>)"
  by simp

section \<open>The pseudowire's hooks\<close>

text \<open>A session with a PPP socket holds references through its hooks.\<close>

definition refs_ok :: "l2tp_session \<Rightarrow> bool" where
  "refs_ok s \<longleftrightarrow> (ppp_sock_of s \<noteq> None \<longrightarrow> s_ref s \<and> s_deref s)"

lemma call_ref_eff:
  assumes "refs_ok s" and "sock_alive w (ppp_sock_of s)"
  shows "call_ref pw s w = Inr (adj_refs (ppp_sock_of s) 1 w)"
  using assms
  by (cases "ppp_sock_of s") (auto simp: call_ref_def pw_def pppol2tp_session_sock_hold_def refs_ok_def sock_alive_def
      sock_hold_eff)

lemma call_deref_eff:
  assumes "refs_ok s" and "sock_alive w (ppp_sock_of s)"
  shows "call_deref pw s w = Inr (adj_refs (ppp_sock_of s) (- 1) w)"
  using assms
  by (cases "ppp_sock_of s") (auto simp: call_deref_def pw_def pppol2tp_session_sock_put_def refs_ok_def sock_alive_def
      sock_put_eff)

definition purged :: "kenv \<Rightarrow> nat \<Rightarrow> l2tp_session \<Rightarrow> l2tp_session" where
  "purged E n s = s\<lparr>reorder_q := [],
     s_stats := upd_cpu (cpu E) (\<lambda>st. st\<lparr>rx_errors := rx_errors st + of_nat n\<rparr>) (s_stats s)\<rparr>"

lemma upd_cpu_upd [simp]: "upd_cpu c f (upd_cpu c g xs) = upd_cpu c (\<lambda>x. f (g x)) xs"
  by (cases "c < length xs") (simp_all add: upd_cpu_def list_update_beyond)

lemma upd_cpu_id [simp]: "upd_cpu c (\<lambda>x. x) xs = xs"
  by (simp add: upd_cpu_def)

lemma purge_loop_eff:
  assumes "refs_ok s" and "sock_alive w (ppp_sock_of s)"
  shows "purge_loop pw E q s w tr =
    Inr (purged E (length q) s, adj_refs (ppp_sock_of s) (- int (length q)) w, tr @ map Kfree_skb q)"
  using assms
proof (induction q arbitrary: s w tr)
  case Nil
  then show ?case by (simp add: purged_def)
next
  case (Cons skb q)
  let ?s = "upd_s_stats E (\<lambda>st. st\<lparr>rx_errors := rx_errors st + 1\<rparr>) (s\<lparr>reorder_q := q\<rparr>)"
  have same: "ppp_sock_of ?s = ppp_sock_of s" "refs_ok ?s = refs_ok s"
    by (simp_all add: upd_s_stats_def ppp_sock_of_def refs_ok_def)
  have "purge_loop pw E q ?s (adj_refs (ppp_sock_of s) (- 1) w) (tr @ [Kfree_skb skb]) =
    Inr (purged E (length q) ?s, adj_refs (ppp_sock_of s) (- int (length q)) (adj_refs (ppp_sock_of s) (- 1) w),
         (tr @ [Kfree_skb skb]) @ map Kfree_skb q)"
    using Cons.IH [of ?s "adj_refs (ppp_sock_of s) (- 1) w"] Cons.prems same by simp
  moreover have "purged E (length q) ?s = purged E (length (skb # q)) s"
    by (simp add: purged_def upd_s_stats_def ac_simps)
  ultimately show ?case
    using call_deref_eff [of ?s w] Cons.prems same by simp
qed

section \<open>Steps of a deletion\<close>

definition on_sess_world :: "l2tp_session \<Rightarrow> int \<Rightarrow> kst \<Rightarrow> kst" where
  "on_sess_world s k st = st\<lparr>k_world := adj_refs (ppp_sock_of s) k (k_world st)\<rparr>"

lemma session_ref_eff:
  assumes "k_sessions st p = Some s" and "refs_ok s" and "sock_alive (k_world st) (ppp_sock_of s)"
  shows "session_ref p st = Inr (on_sess_world s 1 st)"
  using assms call_ref_eff [of s "k_world st"] by (simp add: session_ref_def on_sess_world_def)

lemma session_deref_eff:
  assumes "k_sessions st p = Some s" and "refs_ok s" and "sock_alive (k_world st) (ppp_sock_of s)"
  shows "session_deref p st = Inr (on_sess_world s (- 1) st)"
  using assms call_deref_eff [of s "k_world st"] by (simp add: session_deref_def on_sess_world_def)

lemma session_purge_eff:
  assumes "k_sessions st p = Some s" and "refs_ok s" and "sock_alive (k_world st) (ppp_sock_of s)"
    and "s_magic s = L2TP_SESSION_MAGIC"
  shows "session_purge E p st = Inr (set_session p (purged E (length (reorder_q s)) s)
    (st\<lparr>k_world := adj_refs (ppp_sock_of s) (- int (length (reorder_q s))) (k_world st),
        k_trace := k_trace st @ map Kfree_skb (reorder_q s)\<rparr>))"
  using assms purge_loop_eff [of s "k_world st" E "reorder_q s" "k_trace st"]
  by (simp add: session_purge_def l2tp_session_queue_purge_def)

text \<open>The tables without the session.\<close>

definition unlinked_tunnel :: "ptr \<Rightarrow> l2tp_tunnel \<Rightarrow> l2tp_tunnel" where
  "unlinked_tunnel p t = t\<lparr>session_hlist := hlist_del_init p (session_hlist t)\<rparr>"

definition unlinked_nets :: "ptr \<Rightarrow> l2tp_tunnel \<Rightarrow> (nat \<Rightarrow> l2tp_pernet) \<Rightarrow> nat \<Rightarrow> l2tp_pernet" where
  "unlinked_nets p t nets =
     (if version t = L2TP_HDR_VER_2 then nets
      else nets(l2tp_net t := (nets (l2tp_net t))\<lparr>l2tp_session_hlist := hlist_del_init p (l2tp_session_hlist (nets (l2tp_net t)))\<rparr>))"

lemma unhash_eff:
  assumes "k_sessions st p = Some s" and "s_tunnel s = Some tp" and "k_tunnels st tp = Some t"
  shows "l2tp_session_unhash p st =
    Inr (st\<lparr>k_tunnels := (k_tunnels st)(tp \<mapsto> unlinked_tunnel p t), k_nets := unlinked_nets p t (k_nets st)\<rparr>)"
  using assms
  by (simp add: l2tp_session_unhash_def unlinked_tunnel_def unlinked_nets_def set_tunnel_def upd_net_def Let_def)

text \<open>Closing the pseudowire: the device goes, the PPP socket is shut down and keeps the session.\<close>

definition drop_dev :: "ptr \<Rightarrow> world \<Rightarrow> world" where
  "drop_dev d w = (case devs w d of None \<Rightarrow> w | Some dev \<Rightarrow>
     w\<lparr>devs := (devs w)(d := None),
       eth_dev_list := (eth_dev_list w)(dev_net dev := remove1 d (eth_dev_list w (dev_net dev)))\<rparr>)"

lemma socks_drop_dev [simp]: "socks (drop_dev d w) = socks w"
  by (simp add: drop_dev_def split: option.splits)

lemma unregister_netdev_eff: "devs w d \<noteq> None \<Longrightarrow> unregister_netdev d w = Inr (drop_dev d w)"
  by (auto simp: unregister_netdev_def l2tp_eth_dev_uninit_def drop_dev_def)

definition close_ok :: "l2tp_session \<Rightarrow> world \<Rightarrow> bool" where
  "close_ok s w \<longleftrightarrow>
     (session_close s = Some L2tp_eth_delete \<longrightarrow> (\<forall>d. eth_dev_of s = Some d \<longrightarrow> devs w d \<noteq> None)) \<and>
     (session_close s = Some Pppol2tp_session_close \<longrightarrow> (\<exists>c sk. ppp_sock_of s = Some c \<and> socks w c = Some sk))"

definition held_by_socket :: "l2tp_session \<Rightarrow> world \<Rightarrow> bool" where
  "held_by_socket s w \<longleftrightarrow> session_close s = Some Pppol2tp_session_close \<and>
     (\<exists>c sk. ppp_sock_of s = Some c \<and> socks w c = Some sk \<and> sk_socket sk)"

definition shut_world :: "l2tp_session \<Rightarrow> world \<Rightarrow> world" where
  "shut_world s w =
     (if session_close s = Some L2tp_eth_delete then (case eth_dev_of s of None \<Rightarrow> w | Some d \<Rightarrow> drop_dev d w)
      else if held_by_socket s w then upd_sock (the (ppp_sock_of s)) (\<lambda>x. x\<lparr>sk_shutdown := True\<rparr>) w else w)"

definition shut_session :: "l2tp_session \<Rightarrow> world \<Rightarrow> l2tp_session" where
  "shut_session s w =
     (if session_close s = Some L2tp_eth_delete \<and> eth_dev_of s \<noteq> None then s\<lparr>priv := PrivEth None\<rparr>
      else if held_by_socket s w then s\<lparr>s_ref_count := s_ref_count s + 1\<rparr> else s)"

lemma set_session_same: "k_sessions st p = Some s \<Longrightarrow> set_session p s st = st"
  by (simp add: set_session_def fun_upd_idem)

lemma session_shut_eff:
  assumes s: "k_sessions st p = Some s" and "s_magic s = L2TP_SESSION_MAGIC" and ok: "close_ok s (k_world st)"
  shows "session_shut p st = Inr (set_session p (shut_session s (k_world st)) (st\<lparr>k_world := shut_world s (k_world st)\<rparr>))"
proof (cases "session_close s")
  case None
  then show ?thesis using s
    by (simp add: session_shut_def shut_session_def shut_world_def held_by_socket_def set_session_same)
next
  case (Some c)
  show ?thesis
  proof (cases c)
    case L2tp_eth_delete
    show ?thesis
    proof (cases "eth_dev_of s")
      case None
      with Some L2tp_eth_delete s show ?thesis
        by (simp add: session_shut_def l2tp_eth_delete_def shut_session_def shut_world_def held_by_socket_def set_session_same)
    next
      case (Some d)
      then have "unregister_netdev d (k_world st) = Inr (drop_dev d (k_world st))"
        using ok \<open>session_close s = Some c\<close> L2tp_eth_delete by (intro unregister_netdev_eff) (simp add: close_ok_def)
      with Some \<open>session_close s = Some c\<close> L2tp_eth_delete s show ?thesis
        by (simp add: session_shut_def l2tp_eth_delete_def shut_session_def shut_world_def on_world_def)
    qed
  next
    case Pppol2tp_session_close
    then obtain b sk where b: "ppp_sock_of s = Some b" "socks (k_world st) b = Some sk"
      using ok Some by (auto simp: close_ok_def)
    show ?thesis
      using Some Pppol2tp_session_close s b assms(2)
      by (cases "sk_socket sk")
         (simp_all add: session_shut_def pppol2tp_session_close_def shut_session_def shut_world_def held_by_socket_def
            l2tp_session_inc_refcount_def set_session_same)
  qed
qed

text \<open>The free of a session: the references it held on the tunnel's socket and on the tunnel go.\<close>

lemma tunnel_dec_eff:
  assumes "k_tunnels st tp = Some t" and "t_ref_count t = 1 \<longrightarrow> t_sock t = None"
  shows "l2tp_tunnel_dec_refcount tp st = Inr (st\<lparr>k_tunnels := (k_tunnels st)(tp \<mapsto> t\<lparr>t_ref_count := t_ref_count t - 1\<rparr>),
    k_rcu := k_rcu st @ (if t_ref_count t = 1 then [tp] else [])\<rparr>)"
  using assms by (simp add: l2tp_tunnel_dec_refcount_def l2tp_tunnel_free_def set_tunnel_def Let_def)

definition session_gone :: "ptr \<Rightarrow> l2tp_session \<Rightarrow> ptr \<Rightarrow> l2tp_tunnel \<Rightarrow> ptr \<Rightarrow> kst \<Rightarrow> kst" where
  "session_gone p s tp t a st = st\<lparr>k_sessions := (k_sessions st)(p := None),
     k_tunnels := (k_tunnels st)(tp \<mapsto> t\<lparr>t_ref_count := t_ref_count t - 1\<rparr>),
     k_world := adj_refs (Some a) (- 1) (k_world st),
     l2tp_session_count := (if session_id s \<noteq> 0 then l2tp_session_count st - 1 else l2tp_session_count st)\<rparr>"

lemma session_dec_last:
  assumes "k_sessions st p = Some s" and "s_ref_count s = 1" and "s_tunnel s = Some tp" and "k_tunnels st tp = Some t"
    and "t_magic t = L2TP_TUNNEL_MAGIC" and "t_sock t = Some a" and "socks (k_world st) a \<noteq> None" and "t_ref_count t \<noteq> 1"
  shows "l2tp_session_dec_refcount p st = Inr (session_gone p s tp t a st)"
  using assms
  by (cases "session_id s = 0")
     (simp_all add: l2tp_session_dec_refcount_def l2tp_session_free_def session_gone_def set_session_def Let_def
        on_world_def sock_put_eff tunnel_dec_eff)

lemma session_dec_more:
  assumes "k_sessions st p = Some s" and "s_ref_count s \<noteq> 1"
  shows "l2tp_session_dec_refcount p st = Inr (set_session p (s\<lparr>s_ref_count := s_ref_count s - 1\<rparr>) st)"
  using assms by (simp add: l2tp_session_dec_refcount_def Let_def)

section \<open>Deleting a session\<close>

lemma ppp_sock_cong: "priv s' = priv s \<Longrightarrow> ppp_sock_of s' = ppp_sock_of s" "priv s' = priv s \<Longrightarrow> eth_dev_of s' = eth_dev_of s"
  by (simp_all add: ppp_sock_of_def eth_dev_of_def)

lemma purged_simps [simp]:
  "priv (purged E n s) = priv s" "session_close (purged E n s) = session_close s" "s_magic (purged E n s) = s_magic s"
  "s_ref_count (purged E n s) = s_ref_count s" "s_tunnel (purged E n s) = s_tunnel s"
  "session_id (purged E n s) = session_id s" "reorder_q (purged E n s) = []" "s_ref (purged E n s) = s_ref s"
  "s_deref (purged E n s) = s_deref s" "recv_skb (purged E n s) = recv_skb s"
  "ppp_sock_of (purged E n s) = ppp_sock_of s" "eth_dev_of (purged E n s) = eth_dev_of s"
  by (simp_all add: purged_def ppp_sock_of_def eth_dev_of_def)

lemma held_adj [simp]: "held_by_socket s (adj_refs q k w) = held_by_socket s w"
  by (cases q) (auto simp: held_by_socket_def socks_adj_refs split: if_splits)

lemma held_purged [simp]: "held_by_socket (purged E n s) w = held_by_socket s w"
  by (simp add: held_by_socket_def)

lemma close_ok_adj [simp]: "close_ok s (adj_refs q k w) = close_ok s w"
  by (cases q) (auto simp: close_ok_def socks_adj_refs)

lemma close_ok_purged [simp]: "close_ok (purged E n s) w = close_ok s w"
  by (simp add: close_ok_def)

lemma refs_ok_purged [simp]: "refs_ok (purged E n s) = refs_ok s"
  by (simp add: refs_ok_def)

lemma shut_session_simps [simp]:
  "ppp_sock_of (shut_session s w) = ppp_sock_of s" "s_tunnel (shut_session s w) = s_tunnel s"
  "session_id (shut_session s w) = session_id s" "s_magic (shut_session s w) = s_magic s"
  by (auto simp: shut_session_def ppp_sock_of_def eth_dev_of_def split: session_priv.splits)

lemma refs_ok_shut [simp]: "refs_ok (shut_session s w) \<longleftrightarrow> refs_ok s"
  by (auto simp: refs_ok_def) (auto simp: shut_session_def split: if_splits)

lemma sock_alive_shut [simp]: "sock_alive (shut_world s w) q = sock_alive w q"
  by (auto simp: shut_world_def sock_alive_def socks_upd_sock split: option.splits)

text \<open>A live session of a live tunnel, with everything a deletion looks at.\<close>

definition session_live :: "kst \<Rightarrow> ptr \<Rightarrow> l2tp_session \<Rightarrow> ptr \<Rightarrow> l2tp_tunnel \<Rightarrow> ptr \<Rightarrow> bool" where
  "session_live st p s tp t a \<longleftrightarrow> k_sessions st p = Some s \<and> s_magic s = L2TP_SESSION_MAGIC \<and> refs_ok s \<and>
     sock_alive (k_world st) (ppp_sock_of s) \<and> close_ok s (k_world st) \<and> s_ref_count s = 1 \<and>
     s_tunnel s = Some tp \<and> k_tunnels st tp = Some t \<and> t_magic t = L2TP_TUNNEL_MAGIC \<and> t_sock t = Some a \<and>
     socks (k_world st) a \<noteq> None \<and> t_ref_count t \<noteq> 1"

definition deleted :: "kenv \<Rightarrow> ptr \<Rightarrow> l2tp_session \<Rightarrow> ptr \<Rightarrow> l2tp_tunnel \<Rightarrow> ptr \<Rightarrow> kst \<Rightarrow> kst" where
  "deleted E p s tp t a st =
     (let n = length (reorder_q s);
          w = adj_refs (ppp_sock_of s) (- int n) (k_world st);
          st1 = st\<lparr>k_nets := unlinked_nets p t (k_nets st), k_trace := k_trace st @ map Kfree_skb (reorder_q s)\<rparr>
      in if held_by_socket s (k_world st)
         then st1\<lparr>k_sessions := (k_sessions st)(p \<mapsto> purged E n s),
                  k_tunnels := (k_tunnels st)(tp \<mapsto> unlinked_tunnel p t), k_world := shut_world s w\<rparr>
         else st1\<lparr>k_sessions := (k_sessions st)(p := None),
                  k_tunnels := (k_tunnels st)(tp \<mapsto> (unlinked_tunnel p t)\<lparr>t_ref_count := t_ref_count t - 1\<rparr>),
                  k_world := adj_refs (Some a) (- 1) (shut_world s w),
                  l2tp_session_count := (if session_id s \<noteq> 0 then l2tp_session_count st - 1 else l2tp_session_count st)\<rparr>)"

lemma shut_world_adj:
  "adj_refs (ppp_sock_of s) j (shut_world s (adj_refs (ppp_sock_of s) i w)) = shut_world s (adj_refs (ppp_sock_of s) (i + j) w)"
proof (cases "ppp_sock_of s")
  case (Some c)
  then have "eth_dev_of s = None" by (auto simp: ppp_sock_of_def eth_dev_of_def split: session_priv.splits)
  moreover have "upd_sock c (\<lambda>x. x\<lparr>sk_shutdown := True, sk_refcnt := sk_refcnt x + k\<rparr>) w
      = upd_sock c (\<lambda>x. x\<lparr>sk_refcnt := sk_refcnt x + k, sk_shutdown := True\<rparr>) w" for k
    by (rule arg_cong [of _ _ "\<lambda>f. upd_sock c f w"]) (auto intro!: sock.equality)
  ultimately show ?thesis using Some
    by (cases "held_by_socket s w") (simp_all add: shut_world_def, simp_all add: adj_refs_def add.assoc)
qed simp

lemma shut_world_purged [simp]: "shut_world (purged E n s) w = shut_world s w"
  by (simp add: shut_world_def)

text \<open>The five steps before the last reference is dropped.\<close>

definition del_steps :: "kenv \<Rightarrow> ptr \<Rightarrow> kst \<Rightarrow> kst kres" where
  "del_steps E p st =
     bind_res (session_ref p st) (\<lambda>st1.
     bind_res (l2tp_session_unhash p st1) (\<lambda>st2.
     bind_res (session_purge E p st2) (\<lambda>st3.
     bind_res (session_shut p st3) (session_deref p))))"

lemma session_delete_steps: "l2tp_session_delete E p st = bind_res (del_steps E p st) (l2tp_session_dec_refcount p)"
  by (simp add: l2tp_session_delete_def del_steps_def bind_res_assoc)

lemma del_steps_eff:
  assumes "session_live st p s tp t a"
  shows "del_steps E p st = Inr (st\<lparr>k_nets := unlinked_nets p t (k_nets st),
    k_trace := k_trace st @ map Kfree_skb (reorder_q s),
    k_sessions := (k_sessions st)(p \<mapsto> shut_session (purged E (length (reorder_q s)) s) (k_world st)),
    k_tunnels := (k_tunnels st)(tp \<mapsto> unlinked_tunnel p t),
    k_world := shut_world s (adj_refs (ppp_sock_of s) (- int (length (reorder_q s))) (k_world st))\<rparr>)"
proof -
  let ?n = "length (reorder_q s)" and ?c = "ppp_sock_of s" and ?ps = "purged E (length (reorder_q s)) s"
  let ?w1 = "adj_refs ?c 1 (k_world st)" and ?w2 = "adj_refs ?c (1 - int ?n) (k_world st)"
  let ?st2 = "st\<lparr>k_world := ?w1, k_tunnels := (k_tunnels st)(tp \<mapsto> unlinked_tunnel p t), k_nets := unlinked_nets p t (k_nets st)\<rparr>"
  let ?st3 = "set_session p ?ps (?st2\<lparr>k_world := ?w2, k_trace := k_trace st @ map Kfree_skb (reorder_q s)\<rparr>)"
  let ?s4 = "shut_session ?ps (k_world st)"
  let ?st4 = "set_session p ?s4 (?st3\<lparr>k_world := shut_world s ?w2\<rparr>)"
  note live = assms [unfolded session_live_def]
  have 1: "session_ref p st = Inr (st\<lparr>k_world := ?w1\<rparr>)"
    using session_ref_eff [of st p s] live by (simp add: on_sess_world_def)
  have 2: "l2tp_session_unhash p (st\<lparr>k_world := ?w1\<rparr>) = Inr ?st2"
    using unhash_eff [of "st\<lparr>k_world := ?w1\<rparr>" p s tp t] live by simp
  have 3: "session_purge E p ?st2 = Inr ?st3"
    using session_purge_eff [of ?st2 p s E] live by simp
  have "shut_session ?ps ?w2 = ?s4" by (simp only: shut_session_def held_adj)
  then have 4: "session_shut p ?st3 = Inr ?st4"
    using session_shut_eff [of ?st3 p ?ps] live by (simp add: set_session_def)
  have 5: "session_deref p ?st4 = Inr (?st4\<lparr>k_world := shut_world s (adj_refs ?c (- int ?n) (k_world st))\<rparr>)"
    using session_deref_eff [of ?st4 p ?s4] live shut_world_adj [of s "- 1" "1 - int ?n" "k_world st"]
    by (simp add: set_session_def on_sess_world_def)
  show ?thesis using 1 2 3 4 5 by (simp add: del_steps_def set_session_def)
qed

theorem session_delete_eff:
  assumes "session_live st p s tp t a"
  shows "l2tp_session_delete E p st = Inr (deleted E p s tp t a st)"
proof -
  let ?ps = "purged E (length (reorder_q s)) s"
  let ?w = "shut_world s (adj_refs (ppp_sock_of s) (- int (length (reorder_q s))) (k_world st))"
  let ?st5 = "st\<lparr>k_nets := unlinked_nets p t (k_nets st), k_trace := k_trace st @ map Kfree_skb (reorder_q s),
    k_sessions := (k_sessions st)(p \<mapsto> shut_session ?ps (k_world st)),
    k_tunnels := (k_tunnels st)(tp \<mapsto> unlinked_tunnel p t), k_world := ?w\<rparr>"
  note live = assms [unfolded session_live_def]
  have steps: "l2tp_session_delete E p st = l2tp_session_dec_refcount p ?st5"
    by (simp add: session_delete_steps del_steps_eff [OF assms])
  show ?thesis
  proof (cases "held_by_socket s (k_world st)")
    case True
    then have "session_close s \<noteq> Some L2tp_eth_delete" by (simp add: held_by_socket_def)
    with True have sh: "shut_session ?ps (k_world st) = ?ps\<lparr>s_ref_count := 2\<rparr>" using live by (simp add: shut_session_def)
    have "(?ps\<lparr>s_ref_count := 2\<rparr>)\<lparr>s_ref_count := 1\<rparr> = ?ps" using live by (simp add: purged_def)
    then show ?thesis
      using True by (simp add: steps sh session_dec_more deleted_def set_session_def Let_def)
  next
    case False
    then have ref: "s_ref_count (shut_session ?ps (k_world st)) = 1" using live by (simp add: shut_session_def)
    have "socks ?w a \<noteq> None"
      using live sock_alive_shut [of s "adj_refs (ppp_sock_of s) (- int (length (reorder_q s))) (k_world st)" "Some a"]
      by (simp add: sock_alive_def [of _ "Some a"]) (simp add: sock_alive_def [of _ "Some a", symmetric, simplified])
    then show ?thesis
      using session_dec_last [of ?st5 p "shut_session ?ps (k_world st)" tp "unlinked_tunnel p t" a] False live ref
      by (simp add: steps deleted_def session_gone_def unlinked_tunnel_def Let_def)
  qed
qed

lemma hlist_del_idem [simp]: "hlist_del_init p (hlist_del_init p tbl) = hlist_del_init p tbl"
  by (simp add: hlist_del_init_def comp_def)

text \<open>A round of \<^verbatim>\<open>l2tp_tunnel_closeall\<close> is the deletion of the session at the head of the chain.\<close>

lemma closeall_round_eff:
  assumes "session_live st p s tp t a"
  shows "closeall_round E tp p st = Inr (deleted E p s tp t a st)"
proof -
  let ?st = "set_tunnel tp (unlinked_tunnel p t) st"
  have live: "session_live ?st p s tp (unlinked_tunnel p t) a"
    using assms by (simp add: session_live_def set_tunnel_def unlinked_tunnel_def)
  have "closeall_round E tp p st = l2tp_session_delete E p ?st"
    using assms by (simp add: closeall_round_def l2tp_session_delete_def session_live_def unlinked_tunnel_def Let_def)
  also have "\<dots> = Inr (deleted E p s tp (unlinked_tunnel p t) a ?st)" by (rule session_delete_eff [OF live])
  also have "deleted E p s tp (unlinked_tunnel p t) a ?st = deleted E p s tp t a st"
    by (simp add: deleted_def set_tunnel_def unlinked_tunnel_def unlinked_nets_def Let_def)
  finally show ?thesis .
qed

end
