(* ===== verification/L2tp_Inv.thy ===== *)
theory L2tp_Inv
  imports L2tp_Effect
begin

unbundle bit_operations_syntax

text \<open>
  The invariant of the heap: the hash tables hold live sessions of the right tunnel, a tunnel's
  count is one for its socket, one per session and one for a queued delete, a tunnel's socket is
  held once per session and per packet in flight, sockets and the tunnels or sessions they point
  to point back, and the namespace tables list exactly the tunnels and version 3 sessions there
  are. \<open>X\<close> counts the references to a tunnel or a socket that a running operation holds on top;
  between operations it is zero.
\<close>

section \<open>The invariant\<close>

datatype href = TunRef ptr | SockRef ptr

definition sess_of :: "kst \<Rightarrow> ptr \<Rightarrow> ptr set" where
  "sess_of st tp = {p. \<exists>s. k_sessions st p = Some s \<and> s_tunnel s = Some tp}"

definition inflight :: "kst \<Rightarrow> ptr \<Rightarrow> nat" where
  "inflight st a = length (filter (\<lambda>skb. skb_sk skb = Some a) (k_wskbs st))"

definition in_tunnel :: "kst \<Rightarrow> ptr \<Rightarrow> ptr \<Rightarrow> bool" where
  "in_tunnel st tp p \<longleftrightarrow> (\<exists>t. k_tunnels st tp = Some t \<and> p \<in> linked (session_hlist t))"

definition is_linked :: "kst \<Rightarrow> ptr \<Rightarrow> l2tp_session \<Rightarrow> bool" where
  "is_linked st p s \<longleftrightarrow> (\<exists>tp. s_tunnel s = Some tp \<and> in_tunnel st tp p)"

definition tunnel_ok :: "kenv \<Rightarrow> (href \<Rightarrow> nat) \<Rightarrow> kst \<Rightarrow> ptr \<Rightarrow> l2tp_tunnel \<Rightarrow> bool" where
  "tunnel_ok E X st tp t \<longleftrightarrow> t_magic t = L2TP_TUNNEL_MAGIC \<and>
     table_ok (k_sessions st) (l2tp_session_id_hash E) L2TP_HASH_SIZE (session_hlist t) \<and>
     linked (session_hlist t) \<subseteq> sess_of st tp \<and>
     t_ref_count t = (if t_sock t = None then 0 else 1) + int (card (sess_of st tp)) + int (count_list (l2tp_wq st) tp) + int (X (TunRef tp)) \<and>
     (t_sock t = None \<longrightarrow> sess_of st tp = {})"

text \<open>
  The references known to the model are all there are on a socket the kernel made; the owner of
  a socket with a file may hold more.
\<close>

definition sk_counted :: "bool \<Rightarrow> int \<Rightarrow> int \<Rightarrow> bool" where
  "sk_counted file n refs \<longleftrightarrow> (if file then n \<le> refs else n = refs)"

lemma sk_counted_shift: "sk_counted file n refs \<Longrightarrow> n' - refs' = n - refs \<Longrightarrow> sk_counted file n' refs'"
  by (auto simp: sk_counted_def split: if_splits)

lemma sk_counted_le: "sk_counted file n refs \<Longrightarrow> n \<le> refs"
  by (auto simp: sk_counted_def split: if_splits)

definition tsock_ok :: "(href \<Rightarrow> nat) \<Rightarrow> kst \<Rightarrow> ptr \<Rightarrow> ptr \<Rightarrow> sock \<Rightarrow> bool" where
  "tsock_ok X st tp a sk \<longleftrightarrow> sk_user_data sk = Some tp \<and> sk_destruct sk = Some L2tp_tunnel_destruct \<and>
     sk_counted (sk_file sk) ((if sk_socket sk then 1 else 0) + int (card (sess_of st tp)) + int (inflight st a) + int (X (SockRef a)))
       (sk_refcnt sk)"

definition user_ok :: "kst \<Rightarrow> ptr \<Rightarrow> sock \<Rightarrow> ptr \<Rightarrow> bool" where
  "user_ok st a sk x \<longleftrightarrow>
     (sk_destruct sk = Some L2tp_tunnel_destruct \<longrightarrow> (\<exists>t. k_tunnels st x = Some t \<and> t_sock t = Some a)) \<and>
     (sk_destruct sk = Some Pppol2tp_session_destruct \<longrightarrow> (\<exists>s. k_sessions st x = Some s \<and> ppp_sock_of s = Some a))"

text \<open>The pseudowire of a session: nothing behind it, an Ethernet device, or a PPP socket.\<close>

definition no_hooks :: "l2tp_session \<Rightarrow> bool" where
  "no_hooks s \<longleftrightarrow> session_close s \<noteq> Some Pppol2tp_session_close \<and> recv_skb s \<noteq> Some Pppol2tp_recv \<and>
     eth_dev_of s = None \<and> ppp_sock_of s = None"

definition eth_ok :: "world \<Rightarrow> ptr \<Rightarrow> l2tp_session \<Rightarrow> bool" where
  "eth_ok w p s \<longleftrightarrow> session_close s = Some L2tp_eth_delete \<and> recv_skb s = Some L2tp_eth_dev_recv \<and>
     (\<exists>d dev. priv s = PrivEth (Some d) \<and> devs w d = Some dev \<and> eth_session dev = p)"

definition ppp_ok :: "(href \<Rightarrow> nat) \<Rightarrow> world \<Rightarrow> bool \<Rightarrow> ptr \<Rightarrow> l2tp_session \<Rightarrow> bool" where
  "ppp_ok X w lnk p s \<longleftrightarrow> session_close s = Some Pppol2tp_session_close \<and> recv_skb s = Some Pppol2tp_recv \<and>
     s_ref s \<and> s_deref s \<and>
     (\<exists>c sk. ppp_sock_of s = Some c \<and> socks w c = Some sk \<and> sk_user_data sk = Some p \<and>
        sk_destruct sk = Some Pppol2tp_session_destruct \<and>
        (if sk_socket sk then 1 else 0) + int (length (reorder_q s)) + int (X (SockRef c)) \<le> sk_refcnt sk \<and> (lnk \<longrightarrow> sk_socket sk))"

definition session_ok :: "(href \<Rightarrow> nat) \<Rightarrow> kst \<Rightarrow> ptr \<Rightarrow> l2tp_session \<Rightarrow> bool" where
  "session_ok X st p s \<longleftrightarrow> s_magic s = L2TP_SESSION_MAGIC \<and> s_ref_count s = 1 \<and>
     (\<exists>tp. s_tunnel s = Some tp \<and> k_tunnels st tp \<noteq> None) \<and>
     (no_hooks s \<or> eth_ok (k_world st) p s \<or> ppp_ok X (k_world st) (is_linked st p s) p s)"

definition tunnels_in :: "kst \<Rightarrow> nat \<Rightarrow> ptr set" where
  "tunnels_in st n = {tp. \<exists>t. k_tunnels st tp = Some t \<and> l2tp_net t = n \<and> t_sock t \<noteq> None}"

definition v3_linked :: "kst \<Rightarrow> nat \<Rightarrow> ptr set" where
  "v3_linked st n = {p. \<exists>tp t. k_tunnels st tp = Some t \<and> l2tp_net t = n \<and> version t \<noteq> L2TP_HDR_VER_2 \<and>
     p \<in> linked (session_hlist t)}"

definition net_ok :: "kenv \<Rightarrow> kst \<Rightarrow> nat \<Rightarrow> bool" where
  "net_ok E st n \<longleftrightarrow>
     table_ok (k_sessions st) (l2tp_session_id_hash_2 E) L2TP_HASH_SIZE_2 (l2tp_session_hlist (k_nets st n)) \<and>
     linked (l2tp_session_hlist (k_nets st n)) = v3_linked st n \<and>
     distinct (l2tp_tunnel_list (k_nets st n)) \<and> set (l2tp_tunnel_list (k_nets st n)) = tunnels_in st n"

definition fresh_ok :: "kst \<Rightarrow> bool" where
  "fresh_ok st \<longleftrightarrow> finite (dom (k_sessions st)) \<and> finite (dom (k_tunnels st)) \<and>
     dom (k_tunnels st) \<inter> dom (k_sessions st) = {} \<and>
     (\<forall>x \<ge> k_next st. k_tunnels st x = None \<and> k_sessions st x = None \<and> socks (k_world st) x = None \<and> devs (k_world st) x = None)"

definition queues_ok :: "kst \<Rightarrow> bool" where
  "queues_ok st \<longleftrightarrow> distinct (l2tp_wq st) \<and> (\<forall>tp \<in> set (l2tp_wq st). k_tunnels st tp \<noteq> None) \<and>
     distinct (k_rcu st) \<and> set (k_rcu st) = {tp. \<exists>t. k_tunnels st tp = Some t \<and> t_ref_count t = 0} \<and>
     (\<forall>skb \<in> set (k_wskbs st). \<exists>a tp t. skb_sk skb = Some a \<and> k_tunnels st tp = Some t \<and> t_sock t = Some a)"

definition counts_ok :: "kst \<Rightarrow> bool" where
  "counts_ok st \<longleftrightarrow>
     l2tp_session_count st = int (card {p. \<exists>s. k_sessions st p = Some s \<and> session_id s \<noteq> 0}) \<and>
     l2tp_tunnel_count st = int (card {tp. \<exists>t. k_tunnels st tp = Some t \<and> t_sock t \<noteq> None})"

definition inv :: "kenv \<Rightarrow> (href \<Rightarrow> nat) \<Rightarrow> kst \<Rightarrow> bool" where
  "inv E X st \<longleftrightarrow>
     (\<forall>tp t. k_tunnels st tp = Some t \<longrightarrow> tunnel_ok E X st tp t) \<and>
     (\<forall>tp t a. k_tunnels st tp = Some t \<longrightarrow> t_sock t = Some a \<longrightarrow>
        (\<exists>sk. socks (k_world st) a = Some sk \<and> tsock_ok X st tp a sk)) \<and>
     (\<forall>a sk x. socks (k_world st) a = Some sk \<longrightarrow> sk_user_data sk = Some x \<longrightarrow> user_ok st a sk x) \<and>
     (\<forall>p s. k_sessions st p = Some s \<longrightarrow> session_ok X st p s) \<and>
     (\<forall>d dev. devs (k_world st) d = Some dev \<longrightarrow>
        (\<exists>s. k_sessions st (eth_session dev) = Some s \<and> priv s = PrivEth (Some d))) \<and>
     (\<forall>n. net_ok E st n) \<and> fresh_ok st \<and> queues_ok st \<and> counts_ok st"

lemma invI:
  assumes "\<And>tp t. k_tunnels st tp = Some t \<Longrightarrow> tunnel_ok E X st tp t"
    and "\<And>tp t a. k_tunnels st tp = Some t \<Longrightarrow> t_sock t = Some a \<Longrightarrow> \<exists>sk. socks (k_world st) a = Some sk \<and> tsock_ok X st tp a sk"
    and "\<And>a sk x. socks (k_world st) a = Some sk \<Longrightarrow> sk_user_data sk = Some x \<Longrightarrow> user_ok st a sk x"
    and "\<And>p s. k_sessions st p = Some s \<Longrightarrow> session_ok X st p s"
    and "\<And>d dev. devs (k_world st) d = Some dev \<Longrightarrow> \<exists>s. k_sessions st (eth_session dev) = Some s \<and> priv s = PrivEth (Some d)"
    and "\<And>n. net_ok E st n" and "fresh_ok st" and "queues_ok st" and "counts_ok st"
  shows "inv E X st"
  using assms by (simp add: inv_def Ball_def)

section \<open>Reading the invariant\<close>

lemma inv_tunnel: "inv E X st \<Longrightarrow> k_tunnels st tp = Some t \<Longrightarrow> tunnel_ok E X st tp t"
  by (simp add: inv_def)

lemma inv_tsock:
  "inv E X st \<Longrightarrow> k_tunnels st tp = Some t \<Longrightarrow> t_sock t = Some a \<Longrightarrow> \<exists>sk. socks (k_world st) a = Some sk \<and> tsock_ok X st tp a sk"
  by (simp add: inv_def)

lemma inv_user:
  "inv E X st \<Longrightarrow> socks (k_world st) a = Some sk \<Longrightarrow> sk_user_data sk = Some x \<Longrightarrow> user_ok st a sk x"
  by (simp add: inv_def)

lemma inv_session: "inv E X st \<Longrightarrow> k_sessions st p = Some s \<Longrightarrow> session_ok X st p s"
  by (simp add: inv_def)

lemma inv_dev: "inv E X st \<Longrightarrow> devs (k_world st) d = Some dev \<Longrightarrow>
    \<exists>s. k_sessions st (eth_session dev) = Some s \<and> priv s = PrivEth (Some d)"
  by (simp add: inv_def)

lemma inv_net: "inv E X st \<Longrightarrow> net_ok E st n"
  by (simp add: inv_def)

lemma inv_rest: "inv E X st \<Longrightarrow> fresh_ok st" "inv E X st \<Longrightarrow> queues_ok st" "inv E X st \<Longrightarrow> counts_ok st"
  by (simp_all add: inv_def)

lemma finite_sess_of [simp]: "inv E X st \<Longrightarrow> finite (sess_of st tp)"
  by (rule finite_subset [of _ "dom (k_sessions st)"]) (auto simp: sess_of_def inv_def fresh_ok_def)

text \<open>Two tunnels have different sockets, and no PPP socket is a tunnel's.\<close>

lemma inv_tsock_inj:
  assumes "inv E X st" and "k_tunnels st tp = Some t" and "t_sock t = Some a" and "k_tunnels st tp' = Some t'" and "t_sock t' = Some a"
  shows "tp' = tp"
  using inv_tsock [OF assms(1-3)] inv_tsock [OF assms(1,4,5)] by (auto simp: tsock_ok_def)

lemma inv_live:
  assumes inv: "inv E X st" and s: "k_sessions st p = Some s" and l: "is_linked st p s"
  obtains tp t a where "session_live st p s tp t a" and "p \<in> linked (session_hlist t)" and "p \<in> sess_of st tp"
proof -
  have ok: "session_ok X st p s" by (rule inv_session [OF inv s])
  from l obtain tp t where tp: "s_tunnel s = Some tp" "k_tunnels st tp = Some t" "p \<in> linked (session_hlist t)"
    by (auto simp: is_linked_def in_tunnel_def)
  have tok: "tunnel_ok E X st tp t" by (rule inv_tunnel [OF inv tp(2)])
  have mem: "p \<in> sess_of st tp" using s tp by (auto simp: sess_of_def)
  then have "t_sock t \<noteq> None" using tok by (auto simp: tunnel_ok_def)
  then obtain a where a: "t_sock t = Some a" by auto
  obtain sk where sk: "socks (k_world st) a = Some sk" using inv_tsock [OF inv tp(2) a] by blast
  have "card (sess_of st tp) > 0" using mem finite_sess_of [OF inv] by (auto simp: card_gt_0_iff)
  then have ref: "t_ref_count t \<noteq> 1" using tok a by (auto simp: tunnel_ok_def)
  have hooks: "refs_ok s" "sock_alive (k_world st) (ppp_sock_of s)" "close_ok s (k_world st)"
    using ok by (auto simp: session_ok_def no_hooks_def eth_ok_def ppp_ok_def refs_ok_def sock_alive_def close_ok_def
        ppp_sock_of_def eth_dev_of_def)
  have "session_live st p s tp t a"
    using s ok tp a sk ref hooks tok by (simp add: session_live_def session_ok_def tunnel_ok_def)
  then show thesis using tp(3) mem by (rule that)
qed

lemma inv_held:
  assumes "session_ok X st p s" and "is_linked st p s"
  shows "held_by_socket s (k_world st) \<or> ppp_sock_of s = None"
  using assms by (auto simp: session_ok_def no_hooks_def eth_ok_def ppp_ok_def held_by_socket_def ppp_sock_of_def)

end
