(* ===== verification/L2tp_Inv_Del.thy ===== *)
theory L2tp_Inv_Del
  imports L2tp_Inv
begin

unbundle bit_operations_syntax

text \<open>
  Deleting a session keeps the invariant. The tables, the counts and the queues are treated once
  for the two outcomes, a session that is freed and one that its PPP socket keeps.
\<close>

section \<open>Tables and counts\<close>

definition unlinks :: "kst \<Rightarrow> ptr \<Rightarrow> l2tp_session \<Rightarrow> ptr \<Rightarrow> l2tp_tunnel \<Rightarrow> l2tp_session option \<Rightarrow> kst \<Rightarrow> bool" where
  "unlinks st p s tp t x st' \<longleftrightarrow> k_sessions st' = (k_sessions st)(p := x) \<and>
     k_tunnels st' = (k_tunnels st)(tp \<mapsto> (unlinked_tunnel p t)\<lparr>t_ref_count := t_ref_count t - (if x = None then 1 else 0)\<rparr>) \<and>
     k_nets st' = unlinked_nets p t (k_nets st) \<and> l2tp_wq st' = l2tp_wq st \<and> k_rcu st' = k_rcu st \<and>
     k_wskbs st' = k_wskbs st \<and> k_next st' = k_next st \<and> l2tp_tunnel_count st' = l2tp_tunnel_count st \<and>
     (\<forall>s'. x = Some s' \<longrightarrow> s_tunnel s' = s_tunnel s \<and> session_id s' = session_id s)"

lemma unlinked_tunnel_simps [simp]:
  "session_hlist (unlinked_tunnel p t) = hlist_del_init p (session_hlist t)" "t_magic (unlinked_tunnel p t) = t_magic t"
  "version (unlinked_tunnel p t) = version t" "l2tp_net (unlinked_tunnel p t) = l2tp_net t"
  "t_sock (unlinked_tunnel p t) = t_sock t" "t_ref_count (unlinked_tunnel p t) = t_ref_count t"
  by (simp_all add: unlinked_tunnel_def)

lemma l2tp_tunnel_list_unlinked [simp]: "l2tp_tunnel_list (unlinked_nets p t nets n) = l2tp_tunnel_list (nets n)"
  by (simp add: unlinked_nets_def)

lemma hlist_unlinked:
  "l2tp_session_hlist (unlinked_nets p t nets n) =
     (if version t \<noteq> L2TP_HDR_VER_2 \<and> n = l2tp_net t then hlist_del_init p (l2tp_session_hlist (nets n))
      else l2tp_session_hlist (nets n))"
  by (simp add: unlinked_nets_def)

lemma unlinks_sess_of:
  assumes "unlinks st p s tp t x st'" and "k_sessions st p = Some s" and "s_tunnel s = Some tp"
  shows "sess_of st' tp' = (if tp' = tp \<and> x = None then sess_of st tp - {p} else sess_of st tp')"
  using assms by (cases x) (auto simp: unlinks_def sess_of_def)

lemma unlinks_in_tunnel:
  assumes "unlinks st p s tp t x st'" and "k_tunnels st tp = Some t"
  shows "in_tunnel st' tp' q \<longleftrightarrow> (if tp' = tp then in_tunnel st tp q \<and> q \<noteq> p else in_tunnel st tp' q)"
  using assms by (auto simp: unlinks_def in_tunnel_def)

text \<open>A session is linked in its own tunnel only.\<close>

lemma linked_own:
  assumes "inv E X st" and "k_tunnels st tp' = Some t'" and "p \<in> linked (session_hlist t')" and "k_sessions st p = Some s"
  shows "s_tunnel s = Some tp'"
  using inv_tunnel [OF assms(1,2)] assms(3,4) by (auto simp: tunnel_ok_def sess_of_def)

lemma unlinks_v3_linked:
  assumes inv: "inv E X st" and u: "unlinks st p s tp t x st'" and s: "k_sessions st p = Some s" "s_tunnel s = Some tp"
    and t: "k_tunnels st tp = Some t"
  shows "v3_linked st' n = v3_linked st n - {p}"
proof (rule set_eqI, rule iffI)
  fix q
  assume "q \<in> v3_linked st' n"
  then obtain tp' t' where q: "k_tunnels st' tp' = Some t'" "l2tp_net t' = n" "version t' \<noteq> L2TP_HDR_VER_2"
    "q \<in> linked (session_hlist t')" by (auto simp: v3_linked_def)
  show "q \<in> v3_linked st n - {p}"
  proof (cases "tp' = tp")
    case True
    then have "t' = (unlinked_tunnel p t)\<lparr>t_ref_count := t_ref_count t - (if x = None then 1 else 0)\<rparr>"
      using u q(1) by (simp add: unlinks_def)
    then show ?thesis using q t by (auto simp: v3_linked_def)
  next
    case False
    then have told: "k_tunnels st tp' = Some t'" using u q(1) by (simp add: unlinks_def)
    then have "q \<noteq> p" using linked_own [OF inv told q(4)] s False by auto
    then show ?thesis using q told by (auto simp: v3_linked_def)
  qed
next
  fix q
  assume "q \<in> v3_linked st n - {p}"
  then obtain tp' t' where q: "k_tunnels st tp' = Some t'" "l2tp_net t' = n" "version t' \<noteq> L2TP_HDR_VER_2"
    "q \<in> linked (session_hlist t')" "q \<noteq> p" by (auto simp: v3_linked_def)
  obtain t1 where "k_tunnels st' tp' = Some t1" "l2tp_net t1 = n" "version t1 \<noteq> L2TP_HDR_VER_2" "q \<in> linked (session_hlist t1)"
    using u q t by (cases "tp' = tp") (simp_all add: unlinks_def)
  then show "q \<in> v3_linked st' n" by (auto simp: v3_linked_def)
qed

lemma unlinks_net_ok:
  assumes inv: "inv E X st" and u: "unlinks st p s tp t x st'" and s: "k_sessions st p = Some s" "s_tunnel s = Some tp"
    and t: "k_tunnels st tp = Some t"
  shows "net_ok E st' n"
proof -
  let ?tbl = "l2tp_session_hlist (k_nets st n)" and ?tbl' = "l2tp_session_hlist (k_nets st' n)"
  have ok: "net_ok E st n" by (rule inv_net [OF inv])
  have nets: "k_nets st' = unlinked_nets p t (k_nets st)" using u by (simp add: unlinks_def)
  have p: "p \<in> linked ?tbl \<Longrightarrow> version t \<noteq> L2TP_HDR_VER_2 \<and> n = l2tp_net t"
    using ok linked_own [OF inv _ _ s(1)] s(2) t by (fastforce simp: net_ok_def v3_linked_def)
  have tbl': "?tbl' = hlist_del_init p ?tbl \<or> p \<notin> linked ?tbl \<and> ?tbl' = ?tbl"
    using p by (auto simp: nets hlist_unlinked)
  then have out: "p \<notin> linked ?tbl'" and l: "linked ?tbl' = linked ?tbl - {p}"
    and tok: "table_ok (k_sessions st) (l2tp_session_id_hash_2 E) 256 ?tbl'"
    using ok by (auto simp: net_ok_def intro: table_ok_del_same)
  have "table_ok (k_sessions st') (l2tp_session_id_hash_2 E) 256 ?tbl'"
    using table_ok_free [OF tok out, of x] u by (simp add: unlinks_def)
  moreover have "linked ?tbl' = v3_linked st' n"
    using l ok unlinks_v3_linked [OF inv u s t] by (simp add: net_ok_def)
  moreover have "tunnels_in st' n = tunnels_in st n" using u t by (auto simp: tunnels_in_def unlinks_def)
  ultimately show ?thesis using ok by (simp add: net_ok_def nets)
qed

lemma unlinks_tunnel_ok:
  assumes inv: "inv E X st" and u: "unlinks st p s tp t x st'" and s: "k_sessions st p = Some s" "s_tunnel s = Some tp"
    and t: "k_tunnels st tp = Some t" and t': "k_tunnels st' tp' = Some t'"
  shows "tunnel_ok E X st' tp' t'"
proof (cases "tp' = tp")
  case True
  have ok: "tunnel_ok E X st tp t" by (rule inv_tunnel [OF inv t])
  have eq: "t' = (unlinked_tunnel p t)\<lparr>t_ref_count := t_ref_count t - (if x = None then 1 else 0)\<rparr>"
    using u t' True by (simp add: unlinks_def)
  have mem: "p \<in> sess_of st tp" using s by (auto simp: sess_of_def)
  have "table_ok (k_sessions st') (l2tp_session_id_hash E) 16 (hlist_del_init p (session_hlist t))"
    using table_ok_del [of "k_sessions st" _ 16 "session_hlist t" p x] ok u by (simp add: tunnel_ok_def unlinks_def)
  moreover have "card (sess_of st tp) > 0" using mem finite_sess_of [OF inv] by (auto simp: card_gt_0_iff)
  moreover have "t_sock t \<noteq> None" using ok mem by (auto simp: tunnel_ok_def)
  moreover have "linked (session_hlist t) - {p} \<subseteq> sess_of st' tp"
    using ok unlinks_sess_of [OF u s, of tp] by (auto simp: tunnel_ok_def)
  moreover have "int (card (sess_of st' tp)) = int (card (sess_of st tp)) - (if x = None then 1 else 0)"
    using unlinks_sess_of [OF u s, of tp] mem finite_sess_of [OF inv, of tp] calculation(2)
    by (auto simp: card_Diff_singleton of_nat_diff)
  ultimately show ?thesis using ok u True by (auto simp: tunnel_ok_def eq unlinks_def)
next
  case False
  then have told: "k_tunnels st tp' = Some t'" using u t' by (simp add: unlinks_def)
  have ok: "tunnel_ok E X st tp' t'" by (rule inv_tunnel [OF inv told])
  have "p \<notin> linked (session_hlist t')" using linked_own [OF inv told _ s(1)] s(2) False by auto
  then have "table_ok (k_sessions st') (l2tp_session_id_hash E) 16 (session_hlist t')"
    using table_ok_free [of "k_sessions st" _ 16 "session_hlist t'" p x] ok u by (simp add: tunnel_ok_def unlinks_def)
  moreover have "sess_of st' tp' = sess_of st tp'" using unlinks_sess_of [OF u s, of tp'] False by simp
  ultimately show ?thesis using ok u by (simp add: tunnel_ok_def unlinks_def)
qed

lemma unlinks_queues_ok:
  assumes inv: "inv E X st" and u: "unlinks st p s tp t x st'" and s: "k_sessions st p = Some s" "s_tunnel s = Some tp"
    and t: "k_tunnels st tp = Some t"
  shows "queues_ok st'"
proof -
  have ok: "tunnel_ok E X st tp t" by (rule inv_tunnel [OF inv t])
  have mem: "p \<in> sess_of st tp" using s by (auto simp: sess_of_def)
  then have "card (sess_of st tp) > 0" "t_sock t \<noteq> None"
    using ok finite_sess_of [OF inv] by (auto simp: card_gt_0_iff tunnel_ok_def)
  then have r: "t_ref_count t \<ge> 2" using ok by (auto simp: tunnel_ok_def)
  have "(\<exists>t'. k_tunnels st' tp' = Some t' \<and> t_ref_count t' = 0) \<longleftrightarrow> (\<exists>t'. k_tunnels st tp' = Some t' \<and> t_ref_count t' = 0)" for tp'
    using u t r by (cases "tp' = tp") (auto simp: unlinks_def)
  moreover have "\<exists>tp' t'. k_tunnels st' tp' = Some t' \<and> t_sock t' = Some a"
    if "k_tunnels st tp' = Some t'" "t_sock t' = Some a" for a tp' t'
    using that u t by (cases "tp' = tp") (auto simp: unlinks_def)
  ultimately have "(\<forall>skb \<in> set (k_wskbs st). \<exists>a tp t. skb_sk skb = Some a \<and> k_tunnels st' tp = Some t \<and> t_sock t = Some a)"
      and "{tp. \<exists>t. k_tunnels st' tp = Some t \<and> t_ref_count t = 0} = {tp. \<exists>t. k_tunnels st tp = Some t \<and> t_ref_count t = 0}"
    using inv_rest(2) [OF inv] by (meson queues_ok_def, blast)
  moreover have "k_tunnels st' tp' \<noteq> None" if "k_tunnels st tp' \<noteq> None" for tp' using that u by (simp add: unlinks_def)
  ultimately show ?thesis using inv_rest(2) [OF inv] u by (simp add: queues_ok_def unlinks_def)
qed

section \<open>The freed session\<close>

text \<open>
  What a freed session leaves of the world: the tunnel's socket has one reference less, the device
  of an Ethernet session is gone.
\<close>

definition gone_world :: "l2tp_session \<Rightarrow> ptr \<Rightarrow> world \<Rightarrow> world" where
  "gone_world s a w = adj_refs (Some a) (- 1) (shut_world s w)"

lemma socks_gone:
  assumes "ppp_sock_of s = None"
  shows "socks (gone_world s a w) = (socks w)(a := map_option (\<lambda>x. x\<lparr>sk_refcnt := sk_refcnt x - 1\<rparr>) (socks w a))"
  using assms by (auto simp: gone_world_def socks_adj_refs shut_world_def held_by_socket_def split: option.splits)

lemma devs_gone:
  assumes "session_ok X st p s" and "ppp_sock_of s = None"
  shows "devs (gone_world s a w) = (case eth_dev_of s of None \<Rightarrow> devs w | Some d \<Rightarrow> (devs w)(d := None))"
  using assms
  by (auto simp: gone_world_def session_ok_def no_hooks_def eth_ok_def ppp_ok_def shut_world_def held_by_socket_def
      eth_dev_of_def drop_dev_def fun_upd_idem split: option.splits)

definition free_step :: "kenv \<Rightarrow> (href \<Rightarrow> nat) \<Rightarrow> kst \<Rightarrow> ptr \<Rightarrow> l2tp_session \<Rightarrow> ptr \<Rightarrow> l2tp_tunnel \<Rightarrow> ptr \<Rightarrow> kst \<Rightarrow> bool" where
  "free_step E X st p s tp t a st' \<longleftrightarrow> inv E X st \<and> session_live st p s tp t a \<and> unlinks st p s tp t None st' \<and>
     k_world st' = gone_world s a (k_world st) \<and> ppp_sock_of s = None \<and>
     l2tp_session_count st' = (if session_id s \<noteq> 0 then l2tp_session_count st - 1 else l2tp_session_count st)"

lemma free_basic:
  assumes "free_step E X st p s tp t a st'"
  shows "inv E X st" "k_sessions st p = Some s" "s_tunnel s = Some tp" "k_tunnels st tp = Some t" "t_sock t = Some a"
    "unlinks st p s tp t None st'" "session_ok X st p s" "ppp_sock_of s = None"
    "k_sessions st' = (k_sessions st)(p := None)" "k_wskbs st' = k_wskbs st"
  using assms inv_session by (auto simp: free_step_def session_live_def unlinks_def)

lemma free_socks:
  assumes "free_step E X st p s tp t a st'"
  shows "socks (k_world st') = (socks (k_world st))(a := map_option (\<lambda>x. x\<lparr>sk_refcnt := sk_refcnt x - 1\<rparr>) (socks (k_world st) a))"
  using assms socks_gone [of s a "k_world st"] by (simp add: free_step_def)

lemma free_devs:
  assumes "free_step E X st p s tp t a st'"
  shows "devs (k_world st') = (case eth_dev_of s of None \<Rightarrow> devs (k_world st) | Some d \<Rightarrow> (devs (k_world st))(d := None))"
  using assms devs_gone [OF free_basic(7,8) [OF assms], of a "k_world st"] by (simp add: free_step_def)

lemma free_card:
  assumes "free_step E X st p s tp t a st'"
  shows "int (card (sess_of st' tp)) = int (card (sess_of st tp)) - 1"
proof -
  note b = free_basic [OF assms]
  have mem: "p \<in> sess_of st tp" using b by (auto simp: sess_of_def)
  have "card (sess_of st tp) > 0" using mem finite_sess_of [OF b(1)] by (auto simp: card_gt_0_iff)
  then show ?thesis
    using unlinks_sess_of [OF b(6,2,3), of tp] mem finite_sess_of [OF b(1), of tp]
    by (simp add: card_Diff_singleton of_nat_diff)
qed

lemma free_tsock:
  assumes f: "free_step E X st p s tp t a st'" and t': "k_tunnels st' tp' = Some t'" and a': "t_sock t' = Some a'"
  shows "\<exists>sk. socks (k_world st') a' = Some sk \<and> tsock_ok X st' tp' a' sk"
proof -
  note b = free_basic [OF f]
  have inflight: "inflight st' a' = inflight st a'" using b(10) by (simp add: inflight_def)
  show ?thesis
  proof (cases "tp' = tp")
    case True
    then have "a' = a" using t' a' b(5,6) by (auto simp: unlinks_def)
    obtain sk where sk: "socks (k_world st) a = Some sk" "tsock_ok X st tp a sk" using inv_tsock [OF b(1,4,5)] by blast
    have "tsock_ok X st' tp a (sk\<lparr>sk_refcnt := sk_refcnt sk - 1\<rparr>)"
      using sk(2) inflight \<open>a' = a\<close> free_card [OF f] by (auto simp: tsock_ok_def sk_counted_def split: if_splits)
    then show ?thesis using sk(1) True \<open>a' = a\<close> by (simp add: free_socks [OF f])
  next
    case False
    then have told: "k_tunnels st tp' = Some t'" using t' b(6) by (simp add: unlinks_def)
    then have "a' \<noteq> a" using inv_tsock_inj [OF b(1,4,5) told] a' False by auto
    moreover have "sess_of st' tp' = sess_of st tp'" using unlinks_sess_of [OF b(6,2,3), of tp'] False by simp
    ultimately show ?thesis using inv_tsock [OF b(1) told a'] inflight by (simp add: free_socks [OF f] tsock_ok_def)
  qed
qed

lemma free_user:
  assumes f: "free_step E X st p s tp t a st'" and sk': "socks (k_world st') a' = Some sk'" "sk_user_data sk' = Some x"
  shows "user_ok st' a' sk' x"
proof -
  note b = free_basic [OF f]
  obtain sk where sk: "socks (k_world st) a' = Some sk" "sk_user_data sk = Some x" "sk_destruct sk = sk_destruct sk'"
    using sk' by (auto simp: free_socks [OF f] split: if_splits)
  have ok: "user_ok st a' sk x" by (rule inv_user [OF b(1) sk(1,2)])
  have "\<exists>t'. k_tunnels st' x = Some t' \<and> t_sock t' = Some a'" if "k_tunnels st x = Some t1" "t_sock t1 = Some a'" for t1
    using that b(4,6) by (cases "x = tp") (auto simp: unlinks_def)
  moreover have "x \<noteq> p" if "k_sessions st x = Some s1" "ppp_sock_of s1 = Some a'" for s1
    using that b(2,8) by auto
  ultimately show ?thesis using ok sk(3) b(9) by (auto simp: user_ok_def)
qed

lemma free_session:
  assumes f: "free_step E X st p s tp t a st'" and s': "k_sessions st' q = Some s'"
  shows "session_ok X st' q s'"
proof -
  note b = free_basic [OF f]
  have q: "q \<noteq> p" "k_sessions st q = Some s'" using s' b(9) by (auto split: if_splits)
  have ok: "session_ok X st q s'" by (rule inv_session [OF b(1) q(2)])
  have tun: "k_tunnels st' tp' \<noteq> None" if "k_tunnels st tp' \<noteq> None" for tp' using that b(6) by (simp add: unlinks_def)
  have lnk: "is_linked st' q s' = is_linked st q s'"
    using unlinks_in_tunnel [OF b(6,4)] q(1) by (auto simp: is_linked_def)
  have eth: "eth_ok (k_world st') q s'" if e: "eth_ok (k_world st) q s'"
  proof -
    from e obtain d dev where d: "priv s' = PrivEth (Some d)" "devs (k_world st) d = Some dev" "eth_session dev = q"
      by (auto simp: eth_ok_def)
    have "eth_dev_of s \<noteq> Some d"
      using b(7,8) d q(1) by (auto simp: session_ok_def no_hooks_def eth_ok_def ppp_ok_def eth_dev_of_def)
    then have "devs (k_world st') d = Some dev" using d(2) by (auto simp: free_devs [OF f] split: option.splits)
    then show ?thesis using e d by (auto simp: eth_ok_def)
  qed
  have ppp: "ppp_ok X (k_world st') (is_linked st' q s') q s'" if "ppp_ok X (k_world st) (is_linked st q s') q s'"
  proof -
    obtain ska where "socks (k_world st) a = Some ska" "tsock_ok X st tp a ska" using inv_tsock [OF b(1,4,5)] by blast
    then have "socks (k_world st') c = socks (k_world st) c"
      if "socks (k_world st) c = Some sk" "sk_destruct sk = Some Pppol2tp_session_destruct" for c sk
      using that by (auto simp: free_socks [OF f] tsock_ok_def)
    then show ?thesis using that lnk by (fastforce simp: ppp_ok_def)
  qed
  show ?thesis using ok tun eth ppp by (auto simp: session_ok_def)
qed

lemma free_dev:
  assumes f: "free_step E X st p s tp t a st'" and d: "devs (k_world st') d = Some dev"
  shows "\<exists>s'. k_sessions st' (eth_session dev) = Some s' \<and> priv s' = PrivEth (Some d)"
proof -
  note b = free_basic [OF f]
  have old: "devs (k_world st) d = Some dev" and "eth_dev_of s \<noteq> Some d"
    using d by (auto simp: free_devs [OF f] split: option.splits if_splits)
  then obtain s' where "k_sessions st (eth_session dev) = Some s'" "priv s' = PrivEth (Some d)"
    using inv_dev [OF b(1) old] by blast
  moreover have "eth_session dev \<noteq> p" using calculation b(2) \<open>eth_dev_of s \<noteq> Some d\<close> by (auto simp: eth_dev_of_def)
  ultimately show ?thesis by (simp add: b(9))
qed

lemma free_rest:
  assumes f: "free_step E X st p s tp t a st'"
  shows "fresh_ok st'" and "counts_ok st'"
proof -
  note b = free_basic [OF f]
  have "finite {q. \<exists>s. k_sessions st q = Some s \<and> session_id s \<noteq> 0}" (is "finite ?A")
    using inv_rest(1) [OF b(1)] by (auto simp: fresh_ok_def dom_def intro: finite_subset [rotated])
  moreover have "{q. \<exists>s. k_sessions st' q = Some s \<and> session_id s \<noteq> 0} = ?A - {p}" using b(9) by auto
  moreover have "{tp. \<exists>t. k_tunnels st' tp = Some t \<and> t_sock t \<noteq> None} = {tp. \<exists>t. k_tunnels st tp = Some t \<and> t_sock t \<noteq> None}"
    using b(4,6) by (auto simp: unlinks_def)
  moreover have "card ?A > 0" if "session_id s \<noteq> 0" using calculation(1) b(2) that by (auto simp: card_gt_0_iff)
  ultimately show "counts_ok st'" using inv_rest(3) [OF b(1)] b(2,6) f
    by (cases "session_id s = 0") (auto simp: counts_ok_def unlinks_def free_step_def card_Diff_singleton_if of_nat_diff)
  have "dom (k_tunnels st') = dom (k_tunnels st)" using b(4,6) by (auto simp: unlinks_def)
  then show "fresh_ok st'"
    using inv_rest(1) [OF b(1)] b(4,6,9)
    by (auto simp: fresh_ok_def unlinks_def free_socks [OF f] free_devs [OF f] split: option.splits)
qed

lemma inv_free:
  assumes f: "free_step E X st p s tp t a st'"
  shows "inv E X st'"
proof -
  note b = free_basic [OF f]
  show ?thesis
    by (rule invI [OF unlinks_tunnel_ok [OF b(1,6,2,3,4)] free_tsock [OF f] free_user [OF f] free_session [OF f]
        free_dev [OF f] unlinks_net_ok [OF b(1,6,2,3,4)] free_rest(1) [OF f] unlinks_queues_ok [OF b(1,6,2,3,4)]
        free_rest(2) [OF f]])
qed

section \<open>The session its socket keeps\<close>

definition kept_step :: "kenv \<Rightarrow> (href \<Rightarrow> nat) \<Rightarrow> kst \<Rightarrow> ptr \<Rightarrow> l2tp_session \<Rightarrow> ptr \<Rightarrow> l2tp_tunnel \<Rightarrow> ptr \<Rightarrow> kst \<Rightarrow> bool" where
  "kept_step E X st p s tp t c st' \<longleftrightarrow> inv E X st \<and> k_sessions st p = Some s \<and> s_tunnel s = Some tp \<and> k_tunnels st tp = Some t \<and>
     ppp_sock_of s = Some c \<and> unlinks st p s tp t (Some (purged E (length (reorder_q s)) s)) st' \<and>
     k_world st' = upd_sock c (\<lambda>x. x\<lparr>sk_refcnt := sk_refcnt x - int (length (reorder_q s)), sk_shutdown := True\<rparr>) (k_world st) \<and>
     l2tp_session_count st' = l2tp_session_count st"

lemma kept_basic:
  assumes "kept_step E X st p s tp t c st'"
  shows "inv E X st" "k_sessions st p = Some s" "s_tunnel s = Some tp" "k_tunnels st tp = Some t" "ppp_sock_of s = Some c"
    "unlinks st p s tp t (Some (purged E (length (reorder_q s)) s)) st'" "session_ok X st p s"
    "k_sessions st' = (k_sessions st)(p \<mapsto> purged E (length (reorder_q s)) s)" "k_wskbs st' = k_wskbs st"
    "devs (k_world st') = devs (k_world st)"
  using assms inv_session by (auto simp: kept_step_def unlinks_def)

lemma kept_ppp:
  assumes "kept_step E X st p s tp t c st'"
  obtains sk where "socks (k_world st) c = Some sk" "sk_user_data sk = Some p" "sk_destruct sk = Some Pppol2tp_session_destruct"
    "socks (k_world st') = (socks (k_world st))(c \<mapsto> sk\<lparr>sk_refcnt := sk_refcnt sk - int (length (reorder_q s)), sk_shutdown := True\<rparr>)"
    "(if sk_socket sk then 1 else 0) + int (length (reorder_q s)) \<le> sk_refcnt sk" "ppp_ok X (k_world st) (is_linked st p s) p s"
proof -
  note b = kept_basic [OF assms]
  have "ppp_ok X (k_world st) (is_linked st p s) p s"
    using b(5,7) by (auto simp: session_ok_def no_hooks_def eth_ok_def ppp_sock_of_def)
  moreover from this obtain sk where "socks (k_world st) c = Some sk" "sk_user_data sk = Some p"
    "sk_destruct sk = Some Pppol2tp_session_destruct" "(if sk_socket sk then 1 else 0) + int (length (reorder_q s)) \<le> sk_refcnt sk"
    using b(5) by (auto simp: ppp_ok_def)
  ultimately show thesis using assms by (intro that) (simp_all add: kept_step_def socks_upd_sock)
qed

lemma kept_tsock:
  assumes k: "kept_step E X st p s tp t c st'" and t': "k_tunnels st' tp' = Some t'" and a': "t_sock t' = Some a'"
  shows "\<exists>sk. socks (k_world st') a' = Some sk \<and> tsock_ok X st' tp' a' sk"
proof -
  note b = kept_basic [OF k]
  obtain skc where skc: "socks (k_world st) c = Some skc" "sk_destruct skc = Some Pppol2tp_session_destruct"
    "socks (k_world st') = (socks (k_world st))(c \<mapsto> skc\<lparr>sk_refcnt := sk_refcnt skc - int (length (reorder_q s)), sk_shutdown := True\<rparr>)"
    using kept_ppp [OF k] by metis
  have told: "\<exists>t0. k_tunnels st tp' = Some t0 \<and> t_sock t0 = Some a'"
    using t' a' b(4,6) by (cases "tp' = tp") (auto simp: unlinks_def)
  then obtain sk where sk: "socks (k_world st) a' = Some sk" "tsock_ok X st tp' a' sk" using inv_tsock [OF b(1)] by blast
  then have "a' \<noteq> c" using skc by (auto simp: tsock_ok_def)
  moreover have "sess_of st' tp' = sess_of st tp'" using unlinks_sess_of [OF b(6,2,3), of tp'] by simp
  ultimately show ?thesis using sk skc(3) b(9) by (simp add: tsock_ok_def inflight_def)
qed

lemma kept_user:
  assumes k: "kept_step E X st p s tp t c st'" and sk': "socks (k_world st') a' = Some sk'" "sk_user_data sk' = Some x"
  shows "user_ok st' a' sk' x"
proof -
  note b = kept_basic [OF k]
  obtain sk where sk: "socks (k_world st) a' = Some sk" "sk_user_data sk = Some x" "sk_destruct sk = sk_destruct sk'"
    using sk' k by (auto simp: kept_step_def socks_upd_sock split: if_splits)
  have ok: "user_ok st a' sk x" by (rule inv_user [OF b(1) sk(1,2)])
  have "\<exists>t'. k_tunnels st' x = Some t' \<and> t_sock t' = Some a'" if "k_tunnels st x = Some t1" "t_sock t1 = Some a'" for t1
    using that b(4,6) by (cases "x = tp") (auto simp: unlinks_def)
  moreover have "\<exists>s'. k_sessions st' x = Some s' \<and> ppp_sock_of s' = Some a'"
    if "k_sessions st x = Some s1" "ppp_sock_of s1 = Some a'" for s1
    using that b(2,8) by (cases "x = p") auto
  ultimately show ?thesis using ok sk(3) by (auto simp: user_ok_def)
qed

lemma kept_session:
  assumes k: "kept_step E X st p s tp t c st'" and s': "k_sessions st' q = Some s'"
  shows "session_ok X st' q s'"
proof -
  note b = kept_basic [OF k]
  obtain skc where skc: "socks (k_world st) c = Some skc" "sk_user_data skc = Some p"
    "sk_destruct skc = Some Pppol2tp_session_destruct"
    "socks (k_world st') = (socks (k_world st))(c \<mapsto> skc\<lparr>sk_refcnt := sk_refcnt skc - int (length (reorder_q s)), sk_shutdown := True\<rparr>)"
    "(if sk_socket skc then 1 else 0) + int (length (reorder_q s)) \<le> sk_refcnt skc" "ppp_ok X (k_world st) (is_linked st p s) p s"
    by (rule kept_ppp [OF k])
  have tun: "k_tunnels st' tp' \<noteq> None" if "k_tunnels st tp' \<noteq> None" for tp' using that b(6) by (simp add: unlinks_def)
  have nlnk: "\<not> is_linked st' p s'" if "s_tunnel s' = s_tunnel s"
    using unlinks_in_tunnel [OF b(6,4), of tp p] b(3) that by (simp add: is_linked_def)
  show ?thesis
  proof (cases "q = p")
    case True
    then have s'_eq: "s' = purged E (length (reorder_q s)) s" using s' b(8) by simp
    have "ppp_ok X (k_world st') (is_linked st' p s') p s'"
      using skc nlnk b(5) by (auto simp: ppp_ok_def s'_eq)
    then show ?thesis using True b(7) tun by (auto simp: session_ok_def s'_eq)
  next
    case False
    then have q: "k_sessions st q = Some s'" using s' b(8) by simp
    have ok: "session_ok X st q s'" by (rule inv_session [OF b(1) q])
    have lnk: "is_linked st' q s' = is_linked st q s'"
      using unlinks_in_tunnel [OF b(6,4)] False by (auto simp: is_linked_def)
    have same: "socks (k_world st') c' = socks (k_world st) c'"
      if "socks (k_world st) c' = Some sk" "sk_user_data sk = Some q" for c' sk
      using that skc(1,2,4) False by auto
    have "ppp_ok X (k_world st') (is_linked st' q s') q s'" if "ppp_ok X (k_world st) (is_linked st q s') q s'"
      using that same lnk by (fastforce simp: ppp_ok_def)
    moreover have "eth_ok (k_world st') q s' = eth_ok (k_world st) q s'" by (simp add: eth_ok_def b(10))
    ultimately show ?thesis using ok tun by (auto simp: session_ok_def)
  qed
qed

lemma kept_rest:
  assumes k: "kept_step E X st p s tp t c st'"
  shows "fresh_ok st'" and "counts_ok st'"
    and "devs (k_world st') d = Some dev \<Longrightarrow> \<exists>s'. k_sessions st' (eth_session dev) = Some s' \<and> priv s' = PrivEth (Some d)"
proof -
  note b = kept_basic [OF k]
  have "{q. \<exists>s. k_sessions st' q = Some s \<and> session_id s \<noteq> 0} = {q. \<exists>s. k_sessions st q = Some s \<and> session_id s \<noteq> 0}"
    using b(2,8) by auto
  moreover have "{tp. \<exists>t. k_tunnels st' tp = Some t \<and> t_sock t \<noteq> None} = {tp. \<exists>t. k_tunnels st tp = Some t \<and> t_sock t \<noteq> None}"
    using b(4,6) by (auto simp: unlinks_def)
  ultimately show "counts_ok st'" using inv_rest(3) [OF b(1)] b(6) k by (simp add: counts_ok_def unlinks_def kept_step_def)
  obtain skc where "socks (k_world st) c = Some skc" using kept_ppp [OF k] by metis
  moreover have "dom (k_tunnels st') = dom (k_tunnels st)" "dom (k_sessions st') = dom (k_sessions st)"
    using b(2,4,6) by (auto simp: unlinks_def)
  ultimately show "fresh_ok st'"
    using inv_rest(1) [OF b(1)] b(2,4,6) k
    by (auto simp: fresh_ok_def unlinks_def kept_step_def socks_upd_sock)
  show "\<exists>s'. k_sessions st' (eth_session dev) = Some s' \<and> priv s' = PrivEth (Some d)" if dv: "devs (k_world st') d = Some dev"
  proof -
    obtain s' where s': "k_sessions st (eth_session dev) = Some s'" "priv s' = PrivEth (Some d)"
      using inv_dev [OF b(1), of d dev] dv b(10) by auto
    moreover have "eth_session dev \<noteq> p" using s' b(2,5) by (auto simp: ppp_sock_of_def)
    ultimately show ?thesis by (simp add: b(8))
  qed
qed

lemma inv_kept:
  assumes k: "kept_step E X st p s tp t c st'"
  shows "inv E X st'"
proof -
  note b = kept_basic [OF k]
  show ?thesis
    by (rule invI [OF unlinks_tunnel_ok [OF b(1,6,2,3,4)] kept_tsock [OF k] kept_user [OF k] kept_session [OF k]
        kept_rest(3) [OF k] unlinks_net_ok [OF b(1,6,2,3,4)] kept_rest(1) [OF k] unlinks_queues_ok [OF b(1,6,2,3,4)]
        kept_rest(2) [OF k]])
qed

section \<open>Deletion\<close>

text \<open>
  The deletion of a linked session: it returns, the session is no longer linked, and the invariant
  holds; the session is freed unless a PPP socket keeps it.
\<close>

lemma deleted_unlinks:
  "unlinks st p s tp t (if held_by_socket s (k_world st) then Some (purged E (length (reorder_q s)) s) else None)
     (deleted E p s tp t a st)"
  by (auto simp: unlinks_def deleted_def Let_def unlinked_tunnel_def)

lemma inv_deleted:
  assumes inv: "inv E X st" and live: "session_live st p s tp t a" and l: "is_linked st p s"
  shows "inv E X (deleted E p s tp t a st)"
proof -
  have s: "k_sessions st p = Some s" "s_tunnel s = Some tp" "k_tunnels st tp = Some t"
    using live by (simp_all add: session_live_def)
  have ok: "session_ok X st p s" by (rule inv_session [OF inv s(1)])
  show ?thesis
  proof (cases "held_by_socket s (k_world st)")
    case True
    then obtain c where c: "ppp_sock_of s = Some c" by (auto simp: held_by_socket_def)
    have "upd_sock c (\<lambda>x. x\<lparr>sk_refcnt := sk_refcnt x + - int n, sk_shutdown := True\<rparr>) w =
        upd_sock c (\<lambda>x. x\<lparr>sk_refcnt := sk_refcnt x - int n, sk_shutdown := True\<rparr>) w" for n w by simp
    moreover have "session_close s \<noteq> Some L2tp_eth_delete" using True by (simp add: held_by_socket_def)
    ultimately have "k_world (deleted E p s tp t a st) =
        upd_sock c (\<lambda>x. x\<lparr>sk_refcnt := sk_refcnt x - int (length (reorder_q s)), sk_shutdown := True\<rparr>) (k_world st)"
      using True c held_adj [of s "Some c" "- int (length (reorder_q s))" "k_world st"]
      by (simp add: deleted_def Let_def shut_world_def) (simp add: adj_refs_def)
    then have "kept_step E X st p s tp t c (deleted E p s tp t a st)"
      using deleted_unlinks [of st p s tp t E a] inv s c True by (simp add: kept_step_def) (simp add: deleted_def Let_def)
    then show ?thesis by (rule inv_kept)
  next
    case False
    then have "ppp_sock_of s = None" using inv_held [OF ok l] by simp
    then have "free_step E X st p s tp t a (deleted E p s tp t a st)"
      using deleted_unlinks [of st p s tp t E a] inv live False
      by (simp add: free_step_def) (simp add: deleted_def Let_def gone_world_def)
    then show ?thesis by (rule inv_free)
  qed
qed

end
