(* ===== verification/L2tp_Inv_Tun.thy ===== *)
theory L2tp_Inv_Tun
  imports L2tp_Inv_Del
begin

unbundle bit_operations_syntax

text \<open>
  Closing all sessions of a tunnel, deleting a tunnel, and the end of a tunnel's socket: each
  returns in a state that satisfies the invariant and keeps it. \<open>close_frame\<close> says what closing
  the sessions of one tunnel leaves alone.
\<close>

section \<open>Closing all sessions\<close>

definition tunnel_core :: "l2tp_tunnel \<Rightarrow> l2tp_tunnel" where
  "tunnel_core t = t\<lparr>session_hlist := [], t_ref_count := 0, t_stats := []\<rparr>"

definition sock_core :: "sock \<Rightarrow> sock" where
  "sock_core sk = sk\<lparr>sk_refcnt := 0, sk_shutdown := False\<rparr>"

definition close_frame :: "ptr \<Rightarrow> kst \<Rightarrow> kst \<Rightarrow> bool" where
  "close_frame tp st st' \<longleftrightarrow> l2tp_wq st' = l2tp_wq st \<and> k_rcu st' = k_rcu st \<and> k_wskbs st' = k_wskbs st \<and>
     k_next st' = k_next st \<and> l2tp_tunnel_count st' = l2tp_tunnel_count st \<and> l2tp_nl_cmd_ops st' = l2tp_nl_cmd_ops st \<and>
     (\<forall>n. l2tp_tunnel_list (k_nets st' n) = l2tp_tunnel_list (k_nets st n)) \<and>
     (\<forall>x. map_option tunnel_core (k_tunnels st' x) = map_option tunnel_core (k_tunnels st x)) \<and>
     (\<forall>x. x \<noteq> tp \<longrightarrow> k_tunnels st' x = k_tunnels st x) \<and>
     (\<forall>a. map_option sock_core (socks (k_world st') a) = map_option sock_core (socks (k_world st) a)) \<and>
     (\<forall>q. q \<notin> sess_of st tp \<longrightarrow> k_sessions st' q = k_sessions st q) \<and> (\<forall>x. sess_of st' x \<subseteq> sess_of st x)"

lemma close_frame_refl [simp]: "close_frame tp st st"
  by (simp add: close_frame_def)

lemma close_frame_trans: "close_frame tp st st1 \<Longrightarrow> close_frame tp st1 st2 \<Longrightarrow> close_frame tp st st2"
proof -
  assume a: "close_frame tp st st1" and b: "close_frame tp st1 st2"
  have sub: "sess_of st2 x \<subseteq> sess_of st x" for x
    using a b subset_trans [of "sess_of st2 x" "sess_of st1 x" "sess_of st x"] by (simp add: close_frame_def)
  have "k_sessions st2 q = k_sessions st q" if "q \<notin> sess_of st tp" for q
  proof -
    have "q \<notin> sess_of st1 tp" using a that by (auto simp: close_frame_def)
    then show ?thesis using a b that by (simp add: close_frame_def)
  qed
  then show ?thesis using a b sub by (simp add: close_frame_def)
qed

lemma tunnel_core_fields:
  assumes "tunnel_core t' = tunnel_core t"
  shows "t_sock t' = t_sock t" "t_fd t' = t_fd t" "version t' = version t" "l2tp_net t' = l2tp_net t" "encap t' = encap t"
    "tunnel_id t' = tunnel_id t" "t_magic t' = t_magic t" "old_sk_destruct t' = old_sk_destruct t"
  using arg_cong [OF assms, of t_sock] arg_cong [OF assms, of t_fd] arg_cong [OF assms, of version]
    arg_cong [OF assms, of l2tp_net] arg_cong [OF assms, of encap] arg_cong [OF assms, of tunnel_id]
    arg_cong [OF assms, of t_magic] arg_cong [OF assms, of old_sk_destruct]
  by (simp_all add: tunnel_core_def)

lemma sock_core_fields:
  assumes "sock_core sk' = sock_core sk"
  shows "sk_user_data sk' = sk_user_data sk" "sk_destruct sk' = sk_destruct sk" "sk_socket sk' = sk_socket sk"
    "sk_protocol sk' = sk_protocol sk" "encap_destroy sk' = encap_destroy sk" "sk_net sk' = sk_net sk" "sk_file sk' = sk_file sk"
  using arg_cong [OF assms, of sk_user_data] arg_cong [OF assms, of sk_destruct] arg_cong [OF assms, of sk_socket]
    arg_cong [OF assms, of sk_protocol] arg_cong [OF assms, of encap_destroy] arg_cong [OF assms, of sk_net]
    arg_cong [OF assms, of sk_file]
  by (simp_all add: sock_core_def)

lemma socks_shut_world: "map_option sock_core (socks (shut_world s w) x) = map_option sock_core (socks w x)"
proof -
  have "map_option sock_core (map_option (sk_shutdown_update (\<lambda>_. True)) y) = map_option sock_core y" for y
    by (cases y) (simp_all add: sock_core_def)
  then show ?thesis by (auto simp: shut_world_def socks_upd_sock split: option.splits)
qed

lemma socks_adj_core: "map_option sock_core (socks (adj_refs p k w) x) = map_option sock_core (socks w x)"
proof -
  have "map_option sock_core (map_option (\<lambda>x. x\<lparr>sk_refcnt := sk_refcnt x + k\<rparr>) y) = map_option sock_core y" for y
    by (cases y) (simp_all add: sock_core_def)
  then show ?thesis by (cases p) (auto simp: socks_adj_refs)
qed

lemma deleted_frame:
  assumes "session_live st p s tp t a"
  shows "close_frame tp st (deleted E p s tp t a st)"
proof -
  have "map_option sock_core (socks (k_world (deleted E p s tp t a st)) x) = map_option sock_core (socks (k_world st) x)" for x
    by (simp add: deleted_def Let_def socks_adj_core socks_shut_world)
  moreover have "p \<in> sess_of st tp" using assms by (auto simp: session_live_def sess_of_def)
  moreover have "sess_of (deleted E p s tp t a st) x \<subseteq> sess_of st x" for x
    using unlinks_sess_of [OF deleted_unlinks [of st p s tp t E a], of x] assms by (auto simp: session_live_def split: if_splits)
  ultimately show ?thesis using assms
    by (auto simp: close_frame_def deleted_def Let_def tunnel_core_def unlinked_tunnel_def session_live_def)
qed

text \<open>One bucket is emptied, the others lose nothing but sessions.\<close>

lemma deleted_chains:
  assumes "session_live st p s tp t a"
  shows "\<exists>t'. k_tunnels (deleted E p s tp t a st) tp = Some t' \<and> session_hlist t' = hlist_del_init p (session_hlist t)"
  by (simp add: deleted_def Let_def)

lemma bucket_del: "set (bucket (hlist_del_init p tbl) b) = set (bucket tbl b) - {p}"
  by (auto simp: bucket_def hlist_del_init_def)

lemma bucket_linked_own:
  assumes "inv E X st" and "k_tunnels st tp = Some t" and "p \<in> set (bucket (session_hlist t) b)"
  obtains s where "k_sessions st p = Some s" and "is_linked st p s" and "s_tunnel s = Some tp"
proof -
  have l: "p \<in> linked (session_hlist t)" by (rule bucket_linked [OF assms(3)])
  then have "p \<in> sess_of st tp" using inv_tunnel [OF assms(1,2)] by (auto simp: tunnel_ok_def)
  then obtain s where "k_sessions st p = Some s" "s_tunnel s = Some tp" by (auto simp: sess_of_def)
  then show thesis using l assms(2) by (intro that) (auto simp: is_linked_def in_tunnel_def)
qed

text \<open>What every single deletion keeps, closing the tunnel keeps.\<close>

definition kept_by_delete :: "kenv \<Rightarrow> (href \<Rightarrow> nat) \<Rightarrow> ptr \<Rightarrow> (kst \<Rightarrow> bool) \<Rightarrow> bool" where
  "kept_by_delete E X tp P \<longleftrightarrow> (\<forall>st p s t a. inv E X st \<longrightarrow> session_live st p s tp t a \<longrightarrow> is_linked st p s \<longrightarrow> P st \<longrightarrow>
     P (deleted E p s tp t a st))"

definition bucket_closed :: "kenv \<Rightarrow> (href \<Rightarrow> nat) \<Rightarrow> (kst \<Rightarrow> bool) \<Rightarrow> ptr \<Rightarrow> nat \<Rightarrow> kst \<Rightarrow> kst \<Rightarrow> bool" where
  "bucket_closed E X P tp b st st' \<longleftrightarrow> inv E X st' \<and> close_frame tp st st' \<and> P st' \<and>
     (\<exists>t t'. k_tunnels st tp = Some t \<and> k_tunnels st' tp = Some t' \<and> bucket (session_hlist t') b = [] \<and>
        (\<forall>b'. set (bucket (session_hlist t') b') \<subseteq> set (bucket (session_hlist t) b')))"

lemma closeall_bucket_inv:
  assumes P: "kept_by_delete E X tp P" and "inv E X st" and "k_tunnels st tp = Some t" and "P st"
  shows "\<exists>st'. closeall_bucket E tp b st = Inr st' \<and> bucket_closed E X P tp b st st'"
  using assms(2-)
proof (induction "links st tp" arbitrary: st t rule: less_induct)
  case less
  show ?case
  proof (cases "bucket (session_hlist t) b")
    case Nil
    then have "closeall_bucket E tp b st = Inr st" using less.prems(2) by (simp add: closeall_bucket.simps)
    then show ?thesis using less.prems Nil by (auto simp: bucket_closed_def)
  next
    case (Cons p ps)
    then obtain s where s: "k_sessions st p = Some s" "is_linked st p s" "s_tunnel s = Some tp"
      using bucket_linked_own [OF less.prems(1,2), of p b] by auto
    obtain tp' t' a where "session_live st p s tp' t' a" using inv_live [OF less.prems(1) s(1,2)] by metis
    moreover from this have "tp' = tp" "t' = t" using s(3) less.prems(2) by (simp_all add: session_live_def)
    ultimately have live: "session_live st p s tp t a" by simp
    let ?st = "deleted E p s tp t a st"
    have round: "closeall_round E tp p st = Inr ?st" by (rule closeall_round_eff [OF live])
    have inv': "inv E X ?st" by (rule inv_deleted [OF less.prems(1) live s(2)])
    obtain t1 where t1: "k_tunnels ?st tp = Some t1" "session_hlist t1 = hlist_del_init p (session_hlist t)"
      using deleted_chains [OF live, of E] by blast
    have "p \<in> linked (session_hlist t)" using Cons by (intro bucket_linked [of _ _ b]) simp
    then have "links ?st tp < links st tp"
      using closeall_round_links [OF round, of "session_hlist t"] less.prems(2) by (simp add: tchains_def)
    moreover have "P ?st" using P less.prems(1,3) live s(2) by (simp add: kept_by_delete_def)
    ultimately obtain st' where st': "closeall_bucket E tp b ?st = Inr st'" "bucket_closed E X P tp b ?st st'"
      using less.hyps [of ?st t1] inv' t1(1) by blast
    have "closeall_bucket E tp b st = Inr st'"
      using Cons round st'(1) less.prems(2) by (simp add: closeall_bucket.simps [of E tp b st])
    moreover have "bucket_closed E X P tp b st st'"
      using st'(2) t1 less.prems(2) bucket_del [of p "session_hlist t"] close_frame_trans [OF deleted_frame [OF live]]
      by (auto simp: bucket_closed_def) blast
    ultimately show ?thesis by blast
  qed
qed

lemma closeall_from_inv:
  assumes P: "kept_by_delete E X tp P" and "inv E X st" and "k_tunnels st tp = Some t" and "P st"
  shows "\<exists>st' t'. closeall_from E tp bs st = Inr st' \<and> inv E X st' \<and> close_frame tp st st' \<and> P st' \<and> k_tunnels st' tp = Some t' \<and>
    (\<forall>b \<in> set bs. bucket (session_hlist t') b = []) \<and> (\<forall>b'. set (bucket (session_hlist t') b') \<subseteq> set (bucket (session_hlist t) b'))"
  using assms(2-)
proof (induction bs arbitrary: st t)
  case Nil
  then show ?case by auto
next
  case (Cons b bs)
  obtain st1 where st1: "closeall_bucket E tp b st = Inr st1" "bucket_closed E X P tp b st st1"
    using closeall_bucket_inv [OF P Cons.prems] by blast
  then obtain t1 where t1: "k_tunnels st1 tp = Some t1" "bucket (session_hlist t1) b = []"
    "\<forall>b'. set (bucket (session_hlist t1) b') \<subseteq> set (bucket (session_hlist t) b')" "inv E X st1" "close_frame tp st st1" "P st1"
    using Cons.prems(2) by (auto simp: bucket_closed_def)
  obtain st' t' where st': "closeall_from E tp bs st1 = Inr st'" "inv E X st'" "close_frame tp st1 st'" "k_tunnels st' tp = Some t'"
    "\<forall>b \<in> set bs. bucket (session_hlist t') b = []" "\<forall>b'. set (bucket (session_hlist t') b') \<subseteq> set (bucket (session_hlist t1) b')" "P st'"
    using Cons.IH [OF t1(4,1,6)] by blast
  have "bucket (session_hlist t') b = []" using st'(6) t1(2) by (metis empty_subsetI set_empty subset_antisym)
  then show ?case using st' t1 st1(1) close_frame_trans [OF t1(5) st'(3)] by fastforce
qed

text \<open>After \<^verbatim>\<open>l2tp_tunnel_closeall\<close> no session is linked to the tunnel.\<close>

lemma linked_buckets: "linked tbl = (\<Union>b < length tbl. set (bucket tbl b))"
  by (auto simp: linked_def bucket_def in_set_conv_nth [of _ tbl]) (metis in_set_conv_nth)

lemma closeall_keeps:
  assumes "kept_by_delete E X tp P" and "inv E X st" and "k_tunnels st tp = Some t" and "P st"
  obtains st' t' where "l2tp_tunnel_closeall E tp st = Inr st'" and "inv E X st'" and "close_frame tp st st'"
    and "k_tunnels st' tp = Some t'" and "linked (session_hlist t') = {}" and "P st'"
proof -
  obtain st' t' where st': "l2tp_tunnel_closeall E tp st = Inr st'" "inv E X st'" "close_frame tp st st'" "k_tunnels st' tp = Some t'"
    "\<forall>b \<in> set [0..<16]. bucket (session_hlist t') b = []" "P st'"
    using closeall_from_inv [OF assms, of "[0..<16]"] by (auto simp: l2tp_tunnel_closeall_def)
  have "length (session_hlist t') = 16" using inv_tunnel [OF st'(2,4)] by (simp add: tunnel_ok_def table_ok_def)
  then have "linked (session_hlist t') = {}" using st'(5) by (simp add: linked_buckets)
  then show thesis using st' by (intro that)
qed

lemma closeall_inv:
  assumes "inv E X st" and "k_tunnels st tp = Some t"
  obtains st' t' where "l2tp_tunnel_closeall E tp st = Inr st'" and "inv E X st'" and "close_frame tp st st'"
    and "k_tunnels st' tp = Some t'" and "linked (session_hlist t') = {}"
  by (rule closeall_keeps [of E X tp "\<lambda>_. True", OF _ assms]) (simp_all add: kept_by_delete_def)

section \<open>Frames of the invariant\<close>

text \<open>One socket changes and keeps what points from it and to it.\<close>

definition sock_step :: "(href \<Rightarrow> nat) \<Rightarrow> (href \<Rightarrow> nat) \<Rightarrow> ptr \<Rightarrow> sock \<Rightarrow> sock \<Rightarrow> bool" where
  "sock_step X X' a sk sk' \<longleftrightarrow> sk_user_data sk' = sk_user_data sk \<and> sk_destruct sk' = sk_destruct sk \<and>
     sk_file sk' = sk_file sk \<and>
     (if sk_socket sk' then 1 else 0) + int (X' (SockRef a)) - sk_refcnt sk' = (if sk_socket sk then 1 else 0) + int (X (SockRef a)) - sk_refcnt sk \<and>
     (sk_destruct sk = Some Pppol2tp_session_destruct \<longrightarrow> sk_socket sk' = sk_socket sk)"

lemma inv_sock:
  assumes inv: "inv E X st" and X: "\<forall>r. r \<noteq> SockRef a \<longrightarrow> X' r = X r"
    and f: "\<And>sk. socks (k_world st) a = Some sk \<Longrightarrow> sock_step X X' a sk (f sk)"
  shows "inv E X' (st\<lparr>k_world := upd_sock a f (k_world st)\<rparr>)" (is "inv E X' ?st")
proof (rule invI)
  have same: "sess_of ?st = sess_of st" "in_tunnel ?st = in_tunnel st" "inflight ?st = inflight st"
    "is_linked ?st = is_linked st" "v3_linked ?st = v3_linked st" "tunnels_in ?st = tunnels_in st"
    by (simp_all add: sess_of_def in_tunnel_def inflight_def is_linked_def v3_linked_def tunnels_in_def fun_eq_iff)
  show "tunnel_ok E X' ?st tp t" if "k_tunnels ?st tp = Some t" for tp t
    using inv_tunnel [OF inv, of tp t] that X by (simp add: tunnel_ok_def same)
  show "\<exists>sk. socks (k_world ?st) b = Some sk \<and> tsock_ok X' ?st tp b sk" if t: "k_tunnels ?st tp = Some t" "t_sock t = Some b" for tp t b
  proof -
    obtain sk where sk: "socks (k_world st) b = Some sk" "tsock_ok X st tp b sk" using inv_tsock [OF inv, of tp t b] t by auto
    show ?thesis
    proof (cases "b = a")
      case True
      then have "sock_step X X' a sk (f sk)" using f sk(1) by simp
      then have "tsock_ok X' ?st tp a (f sk)" using sk(2) True by (auto simp: tsock_ok_def sock_step_def same elim: sk_counted_shift)
      then show ?thesis using sk(1) True by (simp add: socks_upd_sock)
    next
      case False
      then show ?thesis using sk X by (simp add: socks_upd_sock tsock_ok_def same)
    qed
  qed
  show "user_ok ?st b sk x" if sk: "socks (k_world ?st) b = Some sk" "sk_user_data sk = Some x" for b sk x
  proof -
    obtain sk0 where "socks (k_world st) b = Some sk0" "sk_user_data sk = sk_user_data sk0" "sk_destruct sk = sk_destruct sk0"
      using sk(1) f by (cases "b = a") (auto simp: socks_upd_sock sock_step_def)
    then show ?thesis using inv_user [OF inv, of b sk0 x] sk(2) by (simp add: user_ok_def)
  qed
  show "session_ok X' ?st p s" if "k_sessions ?st p = Some s" for p s
  proof -
    have ok: "session_ok X st p s" using inv_session [OF inv, of p s] that by simp
    have "ppp_ok X' (k_world ?st) l p s" if ppp: "ppp_ok X (k_world st) l p s" for l
    proof -
      obtain c sk where c: "ppp_sock_of s = Some c" "socks (k_world st) c = Some sk" using ppp by (auto simp: ppp_ok_def)
      show ?thesis
      proof (cases "c = a")
        case True
        then have "sock_step X X' a sk (f sk)" using f c(2) by simp
        then show ?thesis using ppp c True by (auto simp: ppp_ok_def sock_step_def socks_upd_sock)
      next
        case False
        then show ?thesis using ppp c X by (auto simp: ppp_ok_def socks_upd_sock)
      qed
    qed
    then show ?thesis using ok by (auto simp: session_ok_def same eth_ok_def)
  qed
  show "\<exists>s. k_sessions ?st (eth_session dev) = Some s \<and> priv s = PrivEth (Some d)" if "devs (k_world ?st) d = Some dev" for d dev
    using inv_dev [OF inv, of d dev] that by simp
  show "net_ok E ?st n" for n using inv_net [OF inv, of n] by (simp add: net_ok_def same)
  show "fresh_ok ?st" using inv_rest(1) [OF inv] by (auto simp: fresh_ok_def socks_upd_sock)
  show "queues_ok ?st" using inv_rest(2) [OF inv] by (simp add: queues_ok_def)
  show "counts_ok ?st" using inv_rest(3) [OF inv] by (simp add: counts_ok_def)
qed

text \<open>What the tables and lists say depends on four fields of the tunnels.\<close>

definition tview :: "l2tp_tunnel \<Rightarrow> ptr list list \<times> int \<times> nat \<times> ptr option" where
  "tview t = (session_hlist t, version t, l2tp_net t, t_sock t)"

lemma in_tunnel_view: "in_tunnel st tp p \<longleftrightarrow> (\<exists>v. map_option tview (k_tunnels st tp) = Some v \<and> p \<in> linked (fst v))"
  by (auto simp: in_tunnel_def tview_def)

lemma v3_linked_view: "v3_linked st n = {p. \<exists>tp v. map_option tview (k_tunnels st tp) = Some v \<and> fst (snd (snd v)) = n \<and>
    fst (snd v) \<noteq> L2TP_HDR_VER_2 \<and> p \<in> linked (fst v)}"
  by (force simp: v3_linked_def tview_def)

lemma tunnels_in_view: "tunnels_in st n = {tp. \<exists>v. map_option tview (k_tunnels st tp) = Some v \<and> fst (snd (snd v)) = n \<and>
    snd (snd (snd v)) \<noteq> None}"
  by (auto simp: tunnels_in_def tview_def)

lemma view_same:
  assumes "\<And>x. map_option tview (k_tunnels st' x) = map_option tview (k_tunnels st x)"
    and "k_sessions st' = k_sessions st" and "k_wskbs st' = k_wskbs st"
  shows "sess_of st' = sess_of st" and "in_tunnel st' = in_tunnel st" and "inflight st' = inflight st"
    and "is_linked st' = is_linked st" and "v3_linked st' = v3_linked st" and "tunnels_in st' = tunnels_in st"
  unfolding sess_of_def inflight_def in_tunnel_view is_linked_def v3_linked_view tunnels_in_view assms by simp_all

text \<open>A tunnel's count changes together with the queues and the references held.\<close>

lemma inv_refs:
  assumes inv: "inv E X st" and t: "k_tunnels st tp = Some t" "t_ref_count t \<noteq> 0"
    and X: "\<forall>r. r \<noteq> TunRef tp \<longrightarrow> X' r = X r" and q: "distinct wq" "set wq \<subseteq> dom (k_tunnels st)"
    and n: "\<forall>x. x \<noteq> tp \<longrightarrow> count_list wq x = count_list (l2tp_wq st) x"
    and c: "c = t_ref_count t + int (count_list wq tp) + int (X' (TunRef tp)) - int (count_list (l2tp_wq st) tp) - int (X (TunRef tp))"
    and r: "r = k_rcu st @ (if c = 0 then [tp] else [])"
  shows "inv E X' (st\<lparr>k_tunnels := (k_tunnels st)(tp \<mapsto> t\<lparr>t_ref_count := c\<rparr>), l2tp_wq := wq, k_rcu := r\<rparr>)" (is "inv E X' ?st")
proof (rule invI)
  have "map_option tview (k_tunnels ?st x) = map_option tview (k_tunnels st x)" for x using t(1) by (simp add: tview_def)
  then have same: "sess_of ?st = sess_of st" "in_tunnel ?st = in_tunnel st" "inflight ?st = inflight st"
    "is_linked ?st = is_linked st" "v3_linked ?st = v3_linked st" "tunnels_in ?st = tunnels_in st"
    using view_same [of ?st st] by simp_all
  show "tunnel_ok E X' ?st x u" if "k_tunnels ?st x = Some u" for x u
  proof (cases "x = tp")
    case True
    have ok: "tunnel_ok E X st tp t" by (rule inv_tunnel [OF inv t(1)])
    then have "(if t_sock t = None then 0 else 1) + int (card (sess_of st tp)) + int (count_list wq tp) + int (X' (TunRef tp)) = c"
      using c by (simp add: tunnel_ok_def)
    moreover have "u = t\<lparr>t_ref_count := c\<rparr>" using that True by simp
    ultimately show ?thesis using ok True by (simp add: tunnel_ok_def same)
  next
    case False
    then show ?thesis using inv_tunnel [OF inv, of x u] that X n by (simp add: tunnel_ok_def same)
  qed
  show "\<exists>sk. socks (k_world ?st) b = Some sk \<and> tsock_ok X' ?st x b sk" if u: "k_tunnels ?st x = Some u" "t_sock u = Some b" for x u b
  proof -
    have "tsock_ok X' ?st x b sk = tsock_ok X st x b sk" for sk using X by (simp add: tsock_ok_def same)
    then show ?thesis using inv_tsock [OF inv t(1), of b] inv_tsock [OF inv, of x u b] u by (cases "x = tp") auto
  qed
  show "user_ok ?st b sk x" if "socks (k_world ?st) b = Some sk" "sk_user_data sk = Some x" for b sk x
    using inv_user [OF inv, of b sk x] that t(1) by (auto simp: user_ok_def)
  show "session_ok X' ?st p s" if "k_sessions ?st p = Some s" for p s
  proof -
    have "ppp_ok X' w l p s = ppp_ok X w l p s" for w l using X by (simp add: ppp_ok_def)
    then show ?thesis using inv_session [OF inv, of p s] that by (auto simp: session_ok_def same)
  qed
  show "\<exists>s. k_sessions ?st (eth_session dev) = Some s \<and> priv s = PrivEth (Some d)" if "devs (k_world ?st) d = Some dev" for d dev
    using inv_dev [OF inv, of d dev] that by simp
  show "net_ok E ?st m" for m using inv_net [OF inv, of m] by (simp add: net_ok_def same)
  show "fresh_ok ?st" using inv_rest(1) [OF inv] t(1) by (auto simp: fresh_ok_def)
  have "{x. \<exists>u. k_tunnels ?st x = Some u \<and> t_sock u \<noteq> None} = {x. \<exists>u. k_tunnels st x = Some u \<and> t_sock u \<noteq> None}" using t(1) by auto
  then show "counts_ok ?st" using inv_rest(3) [OF inv] by (simp add: counts_ok_def)
  show "queues_ok ?st"
  proof -
    have ok: "queues_ok st" by (rule inv_rest(2) [OF inv])
    have "tp \<notin> set (k_rcu st)" using ok t by (auto simp: queues_ok_def)
    then have "distinct r" using ok r by (simp add: queues_ok_def)
    moreover have "set r = {x. \<exists>u. k_tunnels ?st x = Some u \<and> t_ref_count u = 0}"
      using ok r t by (auto simp: queues_ok_def)
    moreover have "\<exists>a x u. skb_sk skb = Some a \<and> k_tunnels ?st x = Some u \<and> t_sock u = Some a" if "skb \<in> set (k_wskbs st)" for skb
    proof -
      have "\<exists>a x u. skb_sk skb = Some a \<and> k_tunnels st x = Some u \<and> t_sock u = Some a"
        using ok that unfolding queues_ok_def by blast
      then obtain a x u where "skb_sk skb = Some a" "k_tunnels st x = Some u" "t_sock u = Some a" by blast
      then show ?thesis using t(1) by (intro exI [of _ a] exI [of _ x] exI [of _ "if x = tp then t\<lparr>t_ref_count := c\<rparr> else u"]) auto
    qed
    ultimately show ?thesis using q by (auto simp: queues_ok_def)
  qed
qed

lemma inv_trace [simp]: "inv E X (st\<lparr>k_trace := tr\<rparr>) = inv E X st"
  by (simp add: inv_def tunnel_ok_def tsock_ok_def user_ok_def session_ok_def net_ok_def fresh_ok_def queues_ok_def counts_ok_def
      sess_of_def in_tunnel_def inflight_def is_linked_def v3_linked_def tunnels_in_def)

section \<open>References taken and given back\<close>

abbreviation (input) more :: "href \<Rightarrow> (href \<Rightarrow> nat) \<Rightarrow> href \<Rightarrow> nat" where
  "more r X \<equiv> X(r := Suc (X r))"

abbreviation (input) less_one :: "href \<Rightarrow> (href \<Rightarrow> nat) \<Rightarrow> href \<Rightarrow> nat" where
  "less_one r X \<equiv> X(r := X r - 1)"

lemma tunnel_inc_inv:
  assumes "inv E X st" and t: "k_tunnels st tp = Some t" and "t_ref_count t \<noteq> 0"
  shows "l2tp_tunnel_inc_refcount tp st = Inr (set_tunnel tp (t\<lparr>t_ref_count := t_ref_count t + 1\<rparr>) st)"
    and "inv E (more (TunRef tp) X) (set_tunnel tp (t\<lparr>t_ref_count := t_ref_count t + 1\<rparr>) st)"
proof -
  show "l2tp_tunnel_inc_refcount tp st = Inr (set_tunnel tp (t\<lparr>t_ref_count := t_ref_count t + 1\<rparr>) st)"
    using t by (simp add: l2tp_tunnel_inc_refcount_def)
  have q: "distinct (l2tp_wq st)" "set (l2tp_wq st) \<subseteq> dom (k_tunnels st)"
    using inv_rest(2) [OF assms(1)] by (auto simp: queues_ok_def)
  have "0 < t_ref_count t" using inv_tunnel [OF assms(1,2)] assms(3) by (auto simp: tunnel_ok_def)
  then show "inv E (more (TunRef tp) X) (set_tunnel tp (t\<lparr>t_ref_count := t_ref_count t + 1\<rparr>) st)"
    using inv_refs [OF assms, of "more (TunRef tp) X" "l2tp_wq st" "t_ref_count t + 1" "k_rcu st"] q
    by (simp add: set_tunnel_def)
qed

definition tunnel_put :: "ptr \<Rightarrow> l2tp_tunnel \<Rightarrow> kst \<Rightarrow> kst" where
  "tunnel_put tp t st = st\<lparr>k_tunnels := (k_tunnels st)(tp \<mapsto> t\<lparr>t_ref_count := t_ref_count t - 1\<rparr>),
     k_rcu := k_rcu st @ (if t_ref_count t = 1 then [tp] else [])\<rparr>"

lemma tunnel_dec_put:
  assumes "k_tunnels st tp = Some t" and "t_ref_count t = 1 \<longrightarrow> t_sock t = None"
  shows "l2tp_tunnel_dec_refcount tp st = Inr (tunnel_put tp t st)"
  using assms by (simp add: l2tp_tunnel_dec_refcount_def l2tp_tunnel_free_def tunnel_put_def set_tunnel_def Let_def)

lemma tunnel_dec_inv:
  assumes inv: "inv E X st" and t: "k_tunnels st tp = Some t" and X: "X (TunRef tp) > 0"
  shows "l2tp_tunnel_dec_refcount tp st = Inr (tunnel_put tp t st)" and "inv E (less_one (TunRef tp) X) (tunnel_put tp t st)"
proof -
  have ok: "tunnel_ok E X st tp t" by (rule inv_tunnel [OF inv t])
  then show "l2tp_tunnel_dec_refcount tp st = Inr (tunnel_put tp t st)"
    using X by (intro tunnel_dec_put [OF t]) (auto simp: tunnel_ok_def split: if_splits)
  have "t_ref_count t \<noteq> 0" using ok X by (auto simp: tunnel_ok_def)
  moreover have "distinct (l2tp_wq st)" "set (l2tp_wq st) \<subseteq> dom (k_tunnels st)"
    using inv_rest(2) [OF inv] by (auto simp: queues_ok_def)
  moreover have "int (X (TunRef tp) - 1) = int (X (TunRef tp)) - 1" using X by simp
  ultimately have "inv E (less_one (TunRef tp) X) (st\<lparr>k_tunnels := (k_tunnels st)(tp \<mapsto> t\<lparr>t_ref_count := t_ref_count t - 1\<rparr>),
      l2tp_wq := l2tp_wq st, k_rcu := k_rcu st @ (if t_ref_count t - 1 = 0 then [tp] else [])\<rparr>)"
    using inv by (intro inv_refs [OF inv t]) simp_all
  then show "inv E (less_one (TunRef tp) X) (tunnel_put tp t st)" by (simp add: tunnel_put_def)
qed

lemma count_list_remove1: "count_list (remove1 y xs) x = (if x = y then count_list xs x - 1 else count_list xs x)"
  by (induction xs) auto

lemma count_list_distinct: "distinct xs \<Longrightarrow> x \<in> set xs \<Longrightarrow> count_list xs x = 1"
  by (induction xs) auto

text \<open>A queued delete holds one reference to the tunnel.\<close>

lemma queue_inv:
  assumes inv: "inv E X st" and t: "k_tunnels st tp = Some t" and X: "X (TunRef tp) > 0" and new: "tp \<notin> set (l2tp_wq st)"
  shows "inv E (less_one (TunRef tp) X) (st\<lparr>l2tp_wq := l2tp_wq st @ [tp]\<rparr>)"
proof -
  have ok: "t_ref_count t \<noteq> 0" using inv_tunnel [OF inv t] X by (auto simp: tunnel_ok_def)
  have "distinct (l2tp_wq st)" "set (l2tp_wq st) \<subseteq> dom (k_tunnels st)"
    using inv_rest(2) [OF inv] by (auto simp: queues_ok_def)
  then have "inv E (less_one (TunRef tp) X) (st\<lparr>k_tunnels := (k_tunnels st)(tp \<mapsto> t\<lparr>t_ref_count := t_ref_count t\<rparr>),
      l2tp_wq := l2tp_wq st @ [tp], k_rcu := k_rcu st\<rparr>)"
    using new X t ok by (intro inv_refs [OF inv t ok]) (auto simp: of_nat_diff)
  then show ?thesis using t by (simp add: fun_upd_idem)
qed

lemma dequeue_inv:
  assumes inv: "inv E X st" and t: "k_tunnels st tp = Some t" and q: "tp \<in> set (l2tp_wq st)"
  shows "inv E (more (TunRef tp) X) (st\<lparr>l2tp_wq := remove1 tp (l2tp_wq st)\<rparr>)"
proof -
  have qok: "queues_ok st" by (rule inv_rest(2) [OF inv])
  have n: "count_list (l2tp_wq st) tp = 1" using qok q by (simp add: queues_ok_def count_list_distinct)
  have ok: "t_ref_count t \<noteq> 0" using inv_tunnel [OF inv t] n by (auto simp: tunnel_ok_def)
  have "inv E (more (TunRef tp) X) (st\<lparr>k_tunnels := (k_tunnels st)(tp \<mapsto> t\<lparr>t_ref_count := t_ref_count t\<rparr>),
      l2tp_wq := remove1 tp (l2tp_wq st), k_rcu := k_rcu st\<rparr>)"
    using qok t ok n by (intro inv_refs [OF inv t ok]) (auto simp: queues_ok_def count_list_remove1)
  then show ?thesis using t by (simp add: fun_upd_idem)
qed

lemma sock_hold_inv:
  assumes inv: "inv E X st" and "socks (k_world st) a \<noteq> None"
  shows "on_world (sock_hold (Some a)) st = Inr (st\<lparr>k_world := adj_refs (Some a) 1 (k_world st)\<rparr>)"
    and "inv E (more (SockRef a) X) (st\<lparr>k_world := adj_refs (Some a) 1 (k_world st)\<rparr>)"
proof -
  show "on_world (sock_hold (Some a)) st = Inr (st\<lparr>k_world := adj_refs (Some a) 1 (k_world st)\<rparr>)"
    using assms(2) by (simp add: sock_hold_eff)
  show "inv E (more (SockRef a) X) (st\<lparr>k_world := adj_refs (Some a) 1 (k_world st)\<rparr>)"
    unfolding adj_refs_def option.case by (rule inv_sock [OF inv]) (simp_all add: sock_step_def)
qed

lemma sock_put_inv:
  assumes inv: "inv E X st" and "socks (k_world st) a \<noteq> None" and X: "X (SockRef a) > 0"
  shows "on_world (sock_put (Some a)) st = Inr (st\<lparr>k_world := adj_refs (Some a) (- 1) (k_world st)\<rparr>)"
    and "inv E (less_one (SockRef a) X) (st\<lparr>k_world := adj_refs (Some a) (- 1) (k_world st)\<rparr>)"
proof -
  show "on_world (sock_put (Some a)) st = Inr (st\<lparr>k_world := adj_refs (Some a) (- 1) (k_world st)\<rparr>)"
    using assms(2) by (simp add: sock_put_eff)
  show "inv E (less_one (SockRef a) X) (st\<lparr>k_world := adj_refs (Some a) (- 1) (k_world st)\<rparr>)"
    unfolding adj_refs_def option.case by (rule inv_sock [OF inv]) (use X in \<open>simp_all add: sock_step_def of_nat_diff\<close>)
qed

end
