(* ===== verification/L2tp_Inv_Life.thy ===== *)
theory L2tp_Inv_Life
  imports L2tp_Inv_Tun
begin

unbundle bit_operations_syntax

text \<open>
  The end of a tunnel keeps the invariant: the delete request, the work item that releases the
  kernel's socket, the destructor of the socket, the RCU callback and the release of packets in
  flight. The same for the socket of a PPP session.
\<close>

lemma bind_res_eq: "r = Inr x \<Longrightarrow> bind_res r f = f x"
  by simp

lemma inv_trace_world [simp]: "inv E X (st\<lparr>k_trace := tr, k_world := w\<rparr>) = inv E X (st\<lparr>k_world := w\<rparr>)"
  by (simp add: inv_def tunnel_ok_def tsock_ok_def user_ok_def session_ok_def net_ok_def fresh_ok_def queues_ok_def counts_ok_def
      sess_of_def in_tunnel_def inflight_def is_linked_def v3_linked_def tunnels_in_def)

section \<open>Delete requests\<close>

lemma tunnel_ref_pos:
  assumes "inv E X st" and "k_tunnels st tp = Some t" and "t_sock t \<noteq> None"
  shows "t_ref_count t > 0"
  using inv_tunnel [OF assms(1,2)] assms(3) by (auto simp: tunnel_ok_def)

lemma more_less [simp]: "less_one r (more r X) = X"
  by (simp add: fun_eq_iff)

lemma tunnel_delete_inv:
  assumes inv: "inv E X st" and t: "k_tunnels st tp = Some t" "t_sock t \<noteq> None"
  obtains r st' t' where "l2tp_tunnel_delete E tp st = Inr (r, st')" and "inv E X st'"
    and "set (l2tp_wq st') = insert tp (set (l2tp_wq st))" and "k_tunnels st' tp = Some t'" and "linked (session_hlist t') = {}"
    and "t_sock t' = t_sock t" and "\<forall>n. l2tp_tunnel_list (k_nets st' n) = l2tp_tunnel_list (k_nets st n)"
    and "\<forall>x. map_option t_sock (k_tunnels st' x) = map_option t_sock (k_tunnels st x)"
    and "r = (if tp \<in> set (l2tp_wq st) then 1 else 0)"
proof -
  have "t_ref_count t \<noteq> 0" using tunnel_ref_pos [OF inv t] by simp
  note inc = tunnel_inc_inv [OF inv t(1) this]
  let ?t1 = "t\<lparr>t_ref_count := t_ref_count t + 1\<rparr>" and ?X = "more (TunRef tp) X"
  let ?st1 = "set_tunnel tp ?t1 st"
  have t1: "k_tunnels ?st1 tp = Some ?t1" by (simp add: set_tunnel_def)
  obtain st2 t2 where c: "l2tp_tunnel_closeall E tp ?st1 = Inr st2" "inv E ?X st2" "close_frame tp ?st1 st2"
    "k_tunnels st2 tp = Some t2" "linked (session_hlist t2) = {}" by (rule closeall_inv [OF inc(2) t1])
  have wq: "l2tp_wq st2 = l2tp_wq st" and nets: "\<forall>n. l2tp_tunnel_list (k_nets st2 n) = l2tp_tunnel_list (k_nets st n)"
    using c(3) by (simp_all add: close_frame_def set_tunnel_def)
  have core: "map_option tunnel_core (k_tunnels st2 x) = map_option tunnel_core (k_tunnels ?st1 x)" for x
    using c(3) by (simp add: close_frame_def)
  have socks: "map_option t_sock (k_tunnels st2 x) = map_option t_sock (k_tunnels st x)" for x
  proof -
    have "map_option t_sock y = map_option t_sock (map_option tunnel_core y)" for y
      by (cases y) (simp_all add: tunnel_core_def)
    then have "map_option t_sock (k_tunnels st2 x) = map_option t_sock (k_tunnels ?st1 x)" using core by metis
    then show ?thesis using t(1) by (simp add: set_tunnel_def)
  qed
  then have ts: "t_sock t2 = t_sock t" using c(4) t(1) by (metis option.map(2) option.inject)
  show thesis
  proof (cases "tp \<in> set (l2tp_wq st)")
    case True
    note dec = tunnel_dec_inv [OF c(2,4)]
    let ?st3 = "tunnel_put tp t2 st2"
    have eq: "l2tp_tunnel_delete E tp st = Inr (1, ?st3)"
      using inc(1) c(1) True wq dec(1) by (simp add: l2tp_tunnel_delete_def)
    have i3: "inv E X ?st3" using dec(2) by simp
    have s3: "map_option t_sock (k_tunnels ?st3 x) = map_option t_sock (k_tunnels st x)" for x
      using socks [of x] c(4) by (cases "x = tp") (simp_all add: tunnel_put_def)
    show thesis using True wq nets s3 ts c(5) by (intro that [OF eq i3, of "t2\<lparr>t_ref_count := t_ref_count t2 - 1\<rparr>"])
      (simp_all add: tunnel_put_def insert_absorb)
  next
    case False
    let ?st3 = "st2\<lparr>l2tp_wq := l2tp_wq st2 @ [tp]\<rparr>"
    have eq: "l2tp_tunnel_delete E tp st = Inr (0, ?st3)"
      using inc(1) c(1) False wq by (simp add: l2tp_tunnel_delete_def)
    have i3: "inv E X ?st3" using queue_inv [OF c(2,4)] False wq by simp
    show thesis using False wq nets socks ts c(4,5) by (intro that [OF eq i3, of t2]) simp_all
  qed
qed

section \<open>Sockets of tunnels\<close>

lemma tunnel_user:
  assumes inv: "inv E X st" and t: "k_tunnels st tp = Some t" "t_sock t = Some a"
  obtains sk where "socks (k_world st) a = Some sk" and "sk_user_data sk = Some tp" and "sk_destruct sk = Some L2tp_tunnel_destruct"
    and "(if sk_socket sk then 1 else 0) + int (card (sess_of st tp)) + int (inflight st a) + int (X (SockRef a)) \<le> sk_refcnt sk"
  using inv_tsock [OF inv t] sk_counted_le by (auto simp: tsock_ok_def)

lemma sock_to_tunnel_inv:
  assumes inv: "inv E X st" and t: "k_tunnels st tp = Some t" "t_sock t = Some a"
  shows "l2tp_sock_to_tunnel (Some a) st = Inr (Some tp, st\<lparr>k_world := adj_refs (Some a) 1 (k_world st)\<rparr>)"
    and "inv E (more (SockRef a) X) (st\<lparr>k_world := adj_refs (Some a) 1 (k_world st)\<rparr>)"
proof -
  obtain sk where sk: "socks (k_world st) a = Some sk" "sk_user_data sk = Some tp" by (rule tunnel_user [OF inv t])
  have "t_magic t = L2TP_TUNNEL_MAGIC" using inv_tunnel [OF inv t(1)] by (simp add: tunnel_ok_def)
  then show "l2tp_sock_to_tunnel (Some a) st = Inr (Some tp, st\<lparr>k_world := adj_refs (Some a) 1 (k_world st)\<rparr>)"
    unfolding l2tp_sock_to_tunnel_def option.case
    by (subst bind_res_eq [OF sock_hold_inv(1) [OF inv]]) (use sk t(1) in \<open>simp_all add: socks_adj_refs user_magic_def\<close>)
  show "inv E (more (SockRef a) X) (st\<lparr>k_world := adj_refs (Some a) 1 (k_world st)\<rparr>)"
    using sock_hold_inv(2) [OF inv, of a] sk by simp
qed

text \<open>What an operation on a tunnel's socket leaves of the tunnels and the queue.\<close>

definition tun_frame :: "kst \<Rightarrow> kst \<Rightarrow> bool" where
  "tun_frame st st' \<longleftrightarrow> l2tp_wq st' = l2tp_wq st \<and> k_rcu st' = k_rcu st \<and>
     k_wskbs st' = k_wskbs st \<and> (\<forall>x. sess_of st' x \<subseteq> sess_of st x) \<and>
     (\<forall>n. l2tp_tunnel_list (k_nets st' n) = l2tp_tunnel_list (k_nets st n)) \<and>
     (\<forall>x. map_option tunnel_core (k_tunnels st' x) = map_option tunnel_core (k_tunnels st x))"

lemma tun_frame_refl [simp]: "tun_frame st st"
  by (simp add: tun_frame_def)

lemma tun_frame_trans [trans]: "tun_frame st st1 \<Longrightarrow> tun_frame st1 st2 \<Longrightarrow> tun_frame st st2"
proof -
  assume a: "tun_frame st st1" and b: "tun_frame st1 st2"
  have "sess_of st2 x \<subseteq> sess_of st x" for x
    using a b subset_trans [of "sess_of st2 x" "sess_of st1 x" "sess_of st x"] by (simp add: tun_frame_def)
  then show ?thesis using a b by (simp add: tun_frame_def)
qed

lemma tun_frame_world [simp]: "tun_frame (st\<lparr>k_world := w\<rparr>) st' = tun_frame st st'" "tun_frame st (st'\<lparr>k_world := w\<rparr>) = tun_frame st st'"
  "tun_frame (st\<lparr>k_trace := tr\<rparr>) st' = tun_frame st st'" "tun_frame st (st'\<lparr>k_trace := tr\<rparr>) = tun_frame st st'"
  by (simp_all add: tun_frame_def sess_of_def)

lemma close_tun_frame: "close_frame tp st st' \<Longrightarrow> tun_frame st st'"
  by (simp add: close_frame_def tun_frame_def)

lemma tun_frame_tunnel:
  assumes "tun_frame st st'" and "k_tunnels st tp = Some t"
  obtains t' where "k_tunnels st' tp = Some t'" and "tunnel_core t' = tunnel_core t"
  using assms by (auto simp: tun_frame_def) (metis map_option_eq_Some)

text \<open>The tunnels there are, where they are listed and what does not change of them.\<close>

definition same_tunnels :: "kst \<Rightarrow> kst \<Rightarrow> bool" where
  "same_tunnels st st' \<longleftrightarrow> (\<forall>n. l2tp_tunnel_list (k_nets st' n) = l2tp_tunnel_list (k_nets st n)) \<and>
     (\<forall>x. map_option tunnel_core (k_tunnels st' x) = map_option tunnel_core (k_tunnels st x))"

lemma same_tunnels_trans [trans]: "same_tunnels st st1 \<Longrightarrow> same_tunnels st1 st2 \<Longrightarrow> same_tunnels st st2"
  by (simp add: same_tunnels_def)

lemma same_tunnels_find:
  assumes "same_tunnels st st'"
  shows "l2tp_tunnel_find net tid st' = l2tp_tunnel_find net tid st"
proof -
  have "chain_find (k_tunnels st') (\<lambda>t. tunnel_id t = tid) l = chain_find (k_tunnels st) (\<lambda>t. tunnel_id t = tid) l" for l
  proof (induction l)
    case (Cons x l)
    have "map_option tunnel_core (k_tunnels st' x) = map_option tunnel_core (k_tunnels st x)" using assms by (simp add: same_tunnels_def)
    then show ?case
    proof (cases "k_tunnels st x")
      case (Some t)
      then obtain t' where t': "k_tunnels st' x = Some t'" "tunnel_core t' = tunnel_core t"
        using \<open>map_option tunnel_core (k_tunnels st' x) = _\<close> by (metis map_option_eq_Some)
      then show ?thesis using Some Cons.IH tunnel_core_fields(6) [OF t'(2)] by simp
    qed simp
  qed simp
  then show ?thesis using assms by (simp add: l2tp_tunnel_find_def same_tunnels_def)
qed

text \<open>The hooks the protocols call when the socket is released: every session is closed.\<close>

definition has_socket :: "kst \<Rightarrow> ptr \<Rightarrow> (bool \<times> bool) option" where
  "has_socket st a = map_option (\<lambda>sk. (sk_socket sk, sk_file sk)) (socks (k_world st) a)"

lemma has_socket_refs [simp]: "has_socket (st\<lparr>k_world := adj_refs (Some b) k w\<rparr>) a = has_socket (st\<lparr>k_world := w\<rparr>) a"
  by (simp add: has_socket_def socks_adj_refs option.map_comp comp_def)

lemma has_socket_close: "close_frame tp st st' \<Longrightarrow> has_socket st' a = has_socket st a"
proof -
  let ?f = "\<lambda>sk. (sk_socket sk, sk_file sk)"
  have eq: "map_option ?f y = map_option ?f (map_option sock_core y)" for y
    by (cases y) (simp_all add: sock_core_def)
  assume "close_frame tp st st'"
  then have "map_option sock_core (socks (k_world st') a) = map_option sock_core (socks (k_world st) a)" by (simp add: close_frame_def)
  then show ?thesis unfolding has_socket_def eq [of "socks (k_world st') a"] eq [of "socks (k_world st) a"] by simp
qed

lemma close_and_put:
  assumes inv: "inv E X st" and t: "k_tunnels st tp = Some t" "t_sock t = Some a" and X: "X (SockRef a) > 0"
  obtains st' where "bind_res (l2tp_tunnel_closeall E tp st) (on_world (sock_put (Some a))) = Inr st'"
    and "inv E (less_one (SockRef a) X) st'" and "tun_frame st st'" and "has_socket st' a = has_socket st a"
proof -
  obtain st1 t1 where c: "l2tp_tunnel_closeall E tp st = Inr st1" "inv E X st1" "close_frame tp st st1" "k_tunnels st1 tp = Some t1"
    by (rule closeall_inv [OF inv t(1)])
  have "map_option tunnel_core (k_tunnels st1 tp) = map_option tunnel_core (k_tunnels st tp)"
    using close_tun_frame [OF c(3)] by (simp add: tun_frame_def)
  then have "tunnel_core t1 = tunnel_core t" using c(4) t(1) by simp
  then have "t_sock t1 = Some a" using tunnel_core_fields(1) [of t1 t] t(2) by simp
  then obtain sk where "socks (k_world st1) a = Some sk" by (rule tunnel_user [OF c(2,4)])
  then have "socks (k_world st1) a \<noteq> None" by simp
  note put = sock_put_inv [OF c(2) this X]
  let ?st2 = "st1\<lparr>k_world := adj_refs (Some a) (- 1) (k_world st1)\<rparr>"
  have eq: "bind_res (l2tp_tunnel_closeall E tp st) (on_world (sock_put (Some a))) = Inr ?st2"
    unfolding c(1) bind_res_simps by (rule put(1))
  have fr: "tun_frame st ?st2" using close_tun_frame [OF c(3)] by simp
  have hs: "has_socket ?st2 a = has_socket st a" using has_socket_close [OF c(3), of a] by simp
  show thesis by (rule that [OF eq put(2) fr hs])
qed

lemma udp_destroy_inv:
  assumes inv: "inv E X st" and t: "k_tunnels st tp = Some t" "t_sock t = Some a"
  obtains st' where "l2tp_udp_encap_destroy E a st = Inr st'" and "inv E X st'" and "tun_frame st st'"
    and "has_socket st' a = has_socket st a"
proof -
  note h = sock_to_tunnel_inv [OF inv t]
  obtain st' where "bind_res (l2tp_tunnel_closeall E tp (st\<lparr>k_world := adj_refs (Some a) 1 (k_world st)\<rparr>)) (on_world (sock_put (Some a))) = Inr st'"
    "inv E (less_one (SockRef a) (more (SockRef a) X)) st'" "tun_frame (st\<lparr>k_world := adj_refs (Some a) 1 (k_world st)\<rparr>) st'"
    "has_socket st' a = has_socket (st\<lparr>k_world := adj_refs (Some a) 1 (k_world st)\<rparr>) a"
    by (rule close_and_put [OF h(2), of tp t a]) (use t in simp_all)
  then show thesis using h(1) by (intro that [of st']) (simp_all add: l2tp_udp_encap_destroy_def)
qed

lemma ip_destroy_inv:
  assumes inv: "inv E X st" and t: "k_tunnels st tp = Some t" "t_sock t = Some a"
  obtains st' where "l2tp_ip_destroy_sock E a st = Inr st'" and "inv E X st'" and "tun_frame st st'"
    and "has_socket st' a = has_socket st a"
proof -
  note h = sock_to_tunnel_inv [OF inv t]
  let ?st1 = "st\<lparr>k_world := adj_refs (Some a) 1 (k_world st)\<rparr>"
  obtain sk where sk: "socks (k_world ?st1) a = Some sk" by (rule tunnel_user [OF h(2), of tp t]) (use t in simp_all)
  let ?st2 = "?st1\<lparr>k_trace := k_trace ?st1 @ map Kfree_skb (rev (sk_write_queue sk)), k_world := upd_sock a (\<lambda>x. x\<lparr>sk_write_queue := []\<rparr>) (k_world ?st1)\<rparr>"
  have "inv E (more (SockRef a) X) ?st2"
    using inv_sock [OF h(2), of a "more (SockRef a) X" "\<lambda>x. x\<lparr>sk_write_queue := []\<rparr>"] by (simp add: sock_step_def)
  then obtain st' where "bind_res (l2tp_tunnel_closeall E tp ?st2) (on_world (sock_put (Some a))) = Inr st'"
    "inv E (less_one (SockRef a) (more (SockRef a) X)) st'" "tun_frame ?st2 st'"
    "has_socket st' a = has_socket ?st2 a"
    by (rule close_and_put [of _ _ _ tp t a]) (use t in simp_all)
  moreover have "has_socket ?st2 a = has_socket st a" by (simp add: has_socket_def socks_upd_sock socks_adj_refs option.map_comp comp_def)
  ultimately show thesis using h(1) sk by (intro that [of st']) (simp_all add: l2tp_ip_destroy_sock_def)
qed

lemma release_kernel_inv:
  assumes inv: "inv E X st" and t: "k_tunnels st tp = Some t" "t_sock t = Some a"
  obtains st' where "sk_release_kernel E a st = Inr st'" and "inv E X st'" and "tun_frame st st'"
    and "has_socket st' a = map_option (\<lambda>(_, f). (False, f)) (has_socket st a)"
proof -
  obtain sk where sk: "socks (k_world st) a = Some sk" "sk_destruct sk = Some L2tp_tunnel_destruct" by (rule tunnel_user [OF inv t])
  show thesis
  proof (cases "sk_socket sk")
    case False
    then show thesis using sk inv by (intro that [of st]) (simp_all add: sk_release_kernel_def has_socket_def)
  next
    case True
    let ?st1 = "st\<lparr>k_world := adj_refs (Some a) 1 (k_world st)\<rparr>" and ?X = "more (SockRef a) X"
    note h = sock_hold_inv [OF inv, of a]
    have t1: "k_tunnels ?st1 tp = Some t" using t by simp
    have i1: "inv E ?X ?st1" using h(2) sk by simp
    obtain st2 where st2: "(if sk_protocol sk = IPPROTO_L2TP then l2tp_ip_destroy_sock E a ?st1
          else if encap_destroy sk then l2tp_udp_encap_destroy E a ?st1 else Inr ?st1) = Inr st2"
        "inv E ?X st2" "tun_frame ?st1 st2" "has_socket st2 a = has_socket ?st1 a"
      using ip_destroy_inv [OF i1 t1 t(2)] udp_destroy_inv [OF i1 t1 t(2)] i1 by (metis tun_frame_refl)
    obtain t2 where t2: "k_tunnels st2 tp = Some t2" "t_sock t2 = Some a"
      using tun_frame_tunnel [OF st2(3) t1] tunnel_core_fields(1) t(2) by metis
    let ?f = "\<lambda>x. x\<lparr>sk_socket := False, sk_dead := True\<rparr>" and ?Y = "more (SockRef a) ?X"
    let ?st3 = "st2\<lparr>k_world := upd_sock a ?f (k_world st2)\<rparr>"
    obtain sk2 where sk2: "socks (k_world st2) a = Some sk2" "sk_destruct sk2 = Some L2tp_tunnel_destruct" by (rule tunnel_user [OF st2(2) t2])
    have "sk_socket sk2" using st2(4) sk(1) sk2(1) True by (simp add: has_socket_def socks_adj_refs)
    then have i3: "inv E ?Y ?st3" using sk2 by (intro inv_sock [OF st2(2)]) (simp_all add: sock_step_def)
    have alive: "socks (k_world ?st3) a \<noteq> None" using sk2(1) by (simp add: socks_upd_sock)
    note p1 = sock_put_inv [OF i3 alive]
    let ?st4 = "?st3\<lparr>k_world := adj_refs (Some a) (- 1) (k_world ?st3)\<rparr>"
    have i4: "inv E ?X ?st4" using p1(2) by simp
    have "socks (k_world ?st4) a \<noteq> None" using alive by (simp add: socks_adj_refs)
    note p2 = sock_put_inv [OF i4 this]
    let ?st5 = "?st4\<lparr>k_world := adj_refs (Some a) (- 1) (k_world ?st4)\<rparr>"
    have i5: "inv E X ?st5" using p2(2) by simp
    have "bind_res (on_world (sock_put (Some a)) ?st3) (on_world (sock_put (Some a))) = Inr ?st5"
      by (subst bind_res_eq [OF p1(1)]) (use p2(1) in simp_all)
    moreover have "on_world (sock_hold (Some a)) st = Inr ?st1" using h(1) sk by simp
    ultimately have "sk_release_kernel E a st = Inr ?st5"
      using sk(1) True st2(1) by (simp add: sk_release_kernel_def del: on_world_Inr)
    then show thesis using st2(3,4) sk(1) sk2(1) by (intro that [OF _ i5]) (simp_all add: has_socket_def socks_upd_sock socks_adj_refs)
  qed
qed

section \<open>The work item\<close>

lemma tunnel_sock_put_inv:
  assumes inv: "inv E X st" and t: "k_tunnels st tp = Some t" "t_sock t = Some a" and X: "X (SockRef a) > 0" and fd: "t_fd t < 0"
  shows "l2tp_tunnel_sock_put a st = Inr (st\<lparr>k_world := adj_refs (Some a) (- 1) (k_world st)\<rparr>)"
    and "inv E (less_one (SockRef a) X) (st\<lparr>k_world := adj_refs (Some a) (- 1) (k_world st)\<rparr>)"
proof -
  note h = sock_to_tunnel_inv [OF inv t]
  obtain sk where sk: "socks (k_world st) a = Some sk" by (rule tunnel_user [OF inv t])
  then have alive: "socks (adj_refs (Some a) k (k_world st)) a \<noteq> None" for k by (simp add: socks_adj_refs)
  have put: "on_world (sock_put (Some a)) (st\<lparr>k_world := adj_refs (Some a) k (k_world st)\<rparr>) =
      Inr (st\<lparr>k_world := adj_refs (Some a) (k - 1) (k_world st)\<rparr>)" for k
    using sock_put_eff [OF alive, of k] by (simp add: on_world_def)
  show "l2tp_tunnel_sock_put a st = Inr (st\<lparr>k_world := adj_refs (Some a) (- 1) (k_world st)\<rparr>)"
    using h(1) t fd put [of 1] put [of 0] by (simp add: l2tp_tunnel_sock_put_def del: on_world_Inr)
  show "inv E (less_one (SockRef a) X) (st\<lparr>k_world := adj_refs (Some a) (- 1) (k_world st)\<rparr>)"
    by (rule sock_put_inv(2) [OF inv _ X]) (simp add: sk)
qed

lemma del_work_kernel:
  assumes inv: "inv E X st" and q: "tp \<in> set (l2tp_wq st)" and t: "k_tunnels st tp = Some t" "t_sock t = Some a" "t_fd t < 0"
  obtains st' where "l2tp_tunnel_del_work E tp st = Inr st'" and "inv E X st'"
    and "l2tp_wq st' = remove1 tp (l2tp_wq st)" and "has_socket st' a = map_option (\<lambda>(_, f). (False, f)) (has_socket st a)"
    and "\<forall>x. sess_of st' x \<subseteq> sess_of st x" and "k_wskbs st' = k_wskbs st" and "same_tunnels st st'"
proof -
  let ?st0 = "st\<lparr>l2tp_wq := remove1 tp (l2tp_wq st)\<rparr>" and ?X0 = "more (TunRef tp) X"
  have i0: "inv E ?X0 ?st0" by (rule dequeue_inv [OF inv t(1) q])
  obtain sk where sk: "socks (k_world ?st0) a = Some sk" by (rule tunnel_user [OF i0, of tp t]) (use t in simp_all)
  let ?st1 = "?st0\<lparr>k_world := adj_refs (Some a) 1 (k_world ?st0)\<rparr>" and ?X1 = "more (SockRef a) ?X0"
  have hold: "on_world (sock_hold (Some a)) ?st0 = Inr ?st1" and i1: "inv E ?X1 ?st1"
    using sock_hold_inv [OF i0, of a] sk by simp_all
  let ?sk1 = "sk\<lparr>sk_refcnt := sk_refcnt sk + 1\<rparr>"
  let ?st2 = "if sk_socket ?sk1 then ?st1\<lparr>k_world := upd_sock a (\<lambda>x. x\<lparr>sk_shutdown := True\<rparr>) (k_world ?st1)\<rparr> else ?st1"
  have i2: "inv E ?X1 ?st2"
    using inv_sock [OF i1, of a ?X1 "\<lambda>x. x\<lparr>sk_shutdown := True\<rparr>"] i1 by (cases "sk_socket sk") (simp_all add: sock_step_def)
  have t2: "k_tunnels ?st2 tp = Some t" using t by simp
  obtain st3 where st3: "sk_release_kernel E a ?st2 = Inr st3" "inv E ?X1 st3" "tun_frame ?st2 st3" "has_socket st3 a = map_option (\<lambda>(_, f). (False, f)) (has_socket ?st2 a)"
    by (rule release_kernel_inv [OF i2 t2 t(2)])
  obtain t3 where t3: "k_tunnels st3 tp = Some t3" "tunnel_core t3 = tunnel_core t" using tun_frame_tunnel [OF st3(3) t2] by metis
  have core: "t_sock t3 = Some a" "t_fd t3 < 0" using tunnel_core_fields(1,2) [OF t3(2)] t by simp_all
  let ?st4 = "st3\<lparr>k_world := adj_refs (Some a) (- 1) (k_world st3)\<rparr>"
  have put: "l2tp_tunnel_sock_put a st3 = Inr ?st4" and i4: "inv E ?X0 ?st4"
    using tunnel_sock_put_inv [OF st3(2) t3(1) core(1) _ core(2)] by (simp_all add: fun_upd_twist)
  note dec = tunnel_dec_inv [OF i4, of tp t3]
  have e1: "l2tp_tunnel_del_work E tp st = Inr (tunnel_put tp t3 ?st4)"
    using hold sk t st3(1) put dec(1) t3(1)
    by (cases "sk_socket sk")
      (simp_all add: l2tp_tunnel_del_work_def l2tp_tunnel_sock_lookup_def socks_adj_refs Let_def del: on_world_Inr)
  have e2: "inv E X (tunnel_put tp t3 ?st4)" using dec(2) t3(1) by simp
  have e3: "l2tp_wq (tunnel_put tp t3 ?st4) = remove1 tp (l2tp_wq st)" and e6: "k_wskbs (tunnel_put tp t3 ?st4) = k_wskbs st"
    using st3(3) by (simp_all add: tunnel_put_def tun_frame_def)
  have e4: "has_socket (tunnel_put tp t3 ?st4) a = map_option (\<lambda>(_, f). (False, f)) (has_socket st a)"
    using st3(4) sk by (simp add: tunnel_put_def has_socket_def socks_adj_refs socks_upd_sock option.map_comp comp_def)
  have e5: "\<forall>x. sess_of (tunnel_put tp t3 ?st4) x \<subseteq> sess_of st x"
  proof
    fix x
    have "sess_of st3 x \<subseteq> sess_of ?st2 x" using st3(3) unfolding tun_frame_def by blast
    also have "sess_of ?st2 x = sess_of st x" by (simp add: sess_of_def)
    finally show "sess_of (tunnel_put tp t3 ?st4) x \<subseteq> sess_of st x" by (simp add: sess_of_def tunnel_put_def)
  qed
  have e7: "same_tunnels st (tunnel_put tp t3 ?st4)"
    unfolding same_tunnels_def
  proof (intro conjI allI)
    fix n x
    show "l2tp_tunnel_list (k_nets (tunnel_put tp t3 ?st4) n) = l2tp_tunnel_list (k_nets st n)"
      using st3(3) by (simp add: tunnel_put_def tun_frame_def)
    have "map_option tunnel_core (k_tunnels st3 x) = map_option tunnel_core (k_tunnels st x)" using st3(3) by (simp add: tun_frame_def)
    then show "map_option tunnel_core (k_tunnels (tunnel_put tp t3 ?st4) x) = map_option tunnel_core (k_tunnels st x)"
      using t3(1) by (cases "x = tp") (simp_all add: tunnel_put_def tunnel_core_def)
  qed
  show thesis by (rule that [OF e1 e2 e3 e4 e5 e6 e7])
qed

text \<open>A userspace socket whose descriptor is closed is left to its owner.\<close>

lemma del_work_closed_fd:
  assumes inv: "inv E X st" and q: "tp \<in> set (l2tp_wq st)" and t: "k_tunnels st tp = Some t"
    and fd: "t_fd t \<ge> 0" "sockfd_lookup E (t_fd t) = None"
  obtains st' where "l2tp_tunnel_del_work E tp st = Inr st'" and "inv E X st'" and "l2tp_wq st' = remove1 tp (l2tp_wq st)"
proof -
  let ?st0 = "st\<lparr>l2tp_wq := remove1 tp (l2tp_wq st)\<rparr>" and ?X0 = "more (TunRef tp) X"
  have i0: "inv E ?X0 ?st0" by (rule dequeue_inv [OF inv t q])
  note dec = tunnel_dec_inv [OF i0, of tp t]
  have "l2tp_tunnel_del_work E tp st = Inr (tunnel_put tp t ?st0)"
    using t fd dec(1) by (simp add: l2tp_tunnel_del_work_def l2tp_tunnel_sock_lookup_def)
  moreover have "inv E X (tunnel_put tp t ?st0)" using dec(2) t by simp
  moreover have "l2tp_wq (tunnel_put tp t ?st0) = remove1 tp (l2tp_wq st)" by (simp add: tunnel_put_def)
  ultimately show thesis by (rule that)
qed

end
