(* ===== verification/L2tp_Inv_Free.thy ===== *)
theory L2tp_Inv_Free
  imports L2tp_Inv_Life
begin

unbundle bit_operations_syntax

text \<open>
  The destructors keep the invariant: the socket of a tunnel whose last reference is gone takes
  the tunnel off the lists and gives its reference back, the socket of a PPP session frees the
  session, and the RCU callback frees a tunnel nobody refers to. A packet that has left gives its
  reference to the tunnel's socket back.
\<close>

lemma ppp_ok_same:
  assumes "ppp_ok X w l p s" and "\<And>c sk. ppp_sock_of s = Some c \<Longrightarrow> socks w c = Some sk \<Longrightarrow> sk_destruct sk = Some Pppol2tp_session_destruct \<Longrightarrow>
      socks w' c = Some sk \<and> X' (SockRef c) = X (SockRef c)"
  shows "ppp_ok X' w' l p s"
proof -
  obtain c sk where c: "ppp_sock_of s = Some c" "socks w c = Some sk" "sk_destruct sk = Some Pppol2tp_session_destruct"
    using assms(1) by (auto simp: ppp_ok_def)
  then have "socks w' c = Some sk \<and> X' (SockRef c) = X (SockRef c)" by (rule assms(2))
  then show ?thesis using assms(1) c by (simp add: ppp_ok_def)
qed

section \<open>Sockets that go away\<close>

definition drop_sock :: "ptr \<Rightarrow> kst \<Rightarrow> kst" where
  "drop_sock a st = st\<lparr>k_world := (k_world st)\<lparr>socks := (socks (k_world st))(a := None)\<rparr>\<rparr>"

lemma drop_sock_simps [simp]:
  "k_tunnels (drop_sock a st) = k_tunnels st" "k_sessions (drop_sock a st) = k_sessions st" "k_nets (drop_sock a st) = k_nets st"
  "l2tp_wq (drop_sock a st) = l2tp_wq st" "k_rcu (drop_sock a st) = k_rcu st" "k_wskbs (drop_sock a st) = k_wskbs st"
  "k_next (drop_sock a st) = k_next st" "l2tp_tunnel_count (drop_sock a st) = l2tp_tunnel_count st"
  "l2tp_session_count (drop_sock a st) = l2tp_session_count st" "devs (k_world (drop_sock a st)) = devs (k_world st)"
  "socks (k_world (drop_sock a st)) = (socks (k_world st))(a := None)"
  by (simp_all add: drop_sock_def)

text \<open>No tunnel and no session refers to the socket.\<close>

definition loose_sock :: "kst \<Rightarrow> ptr \<Rightarrow> bool" where
  "loose_sock st a \<longleftrightarrow> (\<forall>tp t. k_tunnels st tp = Some t \<longrightarrow> t_sock t \<noteq> Some a) \<and>
     (\<forall>p s. k_sessions st p = Some s \<longrightarrow> ppp_sock_of s \<noteq> Some a)"

lemma drop_sock_inv:
  assumes inv: "inv E X st" and loose: "loose_sock st a"
  shows "inv E X (drop_sock a st)" (is "inv E X ?st")
proof (rule invI)
  have same: "sess_of ?st = sess_of st" "in_tunnel ?st = in_tunnel st" "inflight ?st = inflight st"
    "is_linked ?st = is_linked st" "v3_linked ?st = v3_linked st" "tunnels_in ?st = tunnels_in st"
    using view_same [of ?st st] by simp_all
  show "tunnel_ok E X ?st tp t" if "k_tunnels ?st tp = Some t" for tp t
    using inv_tunnel [OF inv, of tp t] that by (simp add: tunnel_ok_def same)
  show "\<exists>sk. socks (k_world ?st) b = Some sk \<and> tsock_ok X ?st tp b sk" if "k_tunnels ?st tp = Some t" "t_sock t = Some b" for tp t b
    using inv_tsock [OF inv, of tp t b] that loose by (auto simp: tsock_ok_def same loose_sock_def)
  show "user_ok ?st b sk x" if "socks (k_world ?st) b = Some sk" "sk_user_data sk = Some x" for b sk x
    using inv_user [OF inv, of b sk x] that by (auto simp: user_ok_def split: if_splits)
  show "session_ok X ?st p s" if "k_sessions ?st p = Some s" for p s
  proof -
    have "ppp_sock_of s \<noteq> Some a" using loose that by (auto simp: loose_sock_def)
    then have "ppp_ok X (k_world ?st) l p s = ppp_ok X (k_world st) l p s" for l
      by (auto simp: ppp_ok_def)
    then show ?thesis using inv_session [OF inv, of p s] that by (auto simp: session_ok_def same eth_ok_def)
  qed
  show "\<exists>s. k_sessions ?st (eth_session dev) = Some s \<and> priv s = PrivEth (Some d)" if "devs (k_world ?st) d = Some dev" for d dev
    using inv_dev [OF inv, of d dev] that by simp
  show "net_ok E ?st m" for m using inv_net [OF inv, of m] by (simp add: net_ok_def same)
  show "fresh_ok ?st" using inv_rest(1) [OF inv] by (simp add: fresh_ok_def)
  show "queues_ok ?st" using inv_rest(2) [OF inv] by (simp add: queues_ok_def)
  show "counts_ok ?st" using inv_rest(3) [OF inv] by (simp add: counts_ok_def)
qed

section \<open>Tunnels without a socket\<close>

definition orphan :: "ptr \<Rightarrow> l2tp_tunnel \<Rightarrow> ptr \<Rightarrow> kst \<Rightarrow> kst" where
  "orphan tp t a st = (drop_sock a st)\<lparr>k_tunnels := (k_tunnels st)(tp \<mapsto> t\<lparr>t_sock := None\<rparr>),
     k_nets := (k_nets st)(l2tp_net t := (k_nets st (l2tp_net t))\<lparr>l2tp_tunnel_list := remove1 tp (l2tp_tunnel_list (k_nets st (l2tp_net t)))\<rparr>),
     l2tp_tunnel_count := l2tp_tunnel_count st - 1\<rparr>"

definition dead_tunnel :: "kenv \<Rightarrow> (href \<Rightarrow> nat) \<Rightarrow> kst \<Rightarrow> ptr \<Rightarrow> l2tp_tunnel \<Rightarrow> ptr \<Rightarrow> bool" where
  "dead_tunnel E X st tp t a \<longleftrightarrow> inv E X st \<and> k_tunnels st tp = Some t \<and> t_sock t = Some a \<and> sess_of st tp = {} \<and> inflight st a = 0"

lemma orphan_views:
  assumes "dead_tunnel E X st tp t a"
  shows "sess_of (orphan tp t a st) = sess_of st" "in_tunnel (orphan tp t a st) = in_tunnel st"
    "inflight (orphan tp t a st) = inflight st" "is_linked (orphan tp t a st) = is_linked st"
    "v3_linked (orphan tp t a st) = v3_linked st" "tunnels_in (orphan tp t a st) n = tunnels_in st n - {tp}"
proof -
  let ?st = "orphan tp t a st"
  have t: "k_tunnels st tp = Some t" using assms by (simp add: dead_tunnel_def)
  show "sess_of ?st = sess_of st" "inflight ?st = inflight st"
    by (simp_all add: sess_of_def inflight_def orphan_def fun_eq_iff)
  show it: "in_tunnel ?st = in_tunnel st" using t by (simp add: fun_eq_iff in_tunnel_def orphan_def)
  then show "is_linked ?st = is_linked st" by (simp add: fun_eq_iff is_linked_def)
  let ?v = "\<lambda>t. (session_hlist t, version t, l2tp_net t)"
  have eq: "v3_linked s n = {p. \<exists>x v. map_option ?v (k_tunnels s x) = Some v \<and> snd (snd v) = n \<and>
      fst (snd v) \<noteq> L2TP_HDR_VER_2 \<and> p \<in> linked (fst v)}" for s n
    by (force simp: v3_linked_def)
  have "map_option ?v (k_tunnels ?st x) = map_option ?v (k_tunnels st x)" for x using t by (simp add: orphan_def)
  then show "v3_linked ?st = v3_linked st" unfolding fun_eq_iff eq by simp
  show "tunnels_in ?st n = tunnels_in st n - {tp}" by (auto simp: tunnels_in_def orphan_def)
qed

lemma orphan_inv:
  assumes dead: "dead_tunnel E X st tp t a"
  shows "inv E (more (TunRef tp) X) (orphan tp t a st)" (is "inv E ?X ?st")
proof (rule invI)
  have inv: "inv E X st" and t: "k_tunnels st tp = Some t" "t_sock t = Some a" and none: "sess_of st tp = {}" "inflight st a = 0"
    using dead by (simp_all add: dead_tunnel_def)
  note same = orphan_views [OF dead]
  have other: "k_tunnels ?st x = k_tunnels st x" if "x \<noteq> tp" for x using that by (simp add: orphan_def)
  have socks: "socks (k_world ?st) = (socks (k_world st))(a := None)" "devs (k_world ?st) = devs (k_world st)"
    and rest: "k_sessions ?st = k_sessions st" "k_next ?st = k_next st" "l2tp_wq ?st = l2tp_wq st" "k_wskbs ?st = k_wskbs st"
      "k_rcu ?st = k_rcu st" "k_tunnels ?st tp = Some (t\<lparr>t_sock := None\<rparr>)" "l2tp_session_count ?st = l2tp_session_count st"
      "l2tp_tunnel_count ?st = l2tp_tunnel_count st - 1" "l2tp_session_hlist (k_nets ?st n) = l2tp_session_hlist (k_nets st n)"
    for n by (simp_all add: orphan_def)
  show "tunnel_ok E ?X ?st x u" if u: "k_tunnels ?st x = Some u" for x u
  proof (cases "x = tp")
    case True
    then have "u = t\<lparr>t_sock := None\<rparr>" using u rest by simp
    then show ?thesis using inv_tunnel [OF inv t(1)] t(2) none True by (simp add: tunnel_ok_def same rest)
  next
    case False
    then show ?thesis using inv_tunnel [OF inv, of x u] u other by (simp add: tunnel_ok_def same rest)
  qed
  show "\<exists>sk. socks (k_world ?st) b = Some sk \<and> tsock_ok ?X ?st x b sk" if u: "k_tunnels ?st x = Some u" "t_sock u = Some b" for x u b
  proof -
    have x: "x \<noteq> tp" using u rest by auto
    then have "b \<noteq> a" using inv_tsock_inj [OF inv t, of x u] u other by auto
    then show ?thesis using inv_tsock [OF inv, of x u b] u other [OF x] by (simp add: tsock_ok_def same socks)
  qed
  show "user_ok ?st b sk x" if b: "socks (k_world ?st) b = Some sk" "sk_user_data sk = Some x" for b sk x
  proof -
    have "b \<noteq> a" using b socks by auto
    then have "(\<exists>u. k_tunnels ?st x = Some u \<and> t_sock u = Some b)" if "k_tunnels st x = Some u" "t_sock u = Some b" for u
      using that t other [of x] by (cases "x = tp") auto
    then show ?thesis using inv_user [OF inv, of b sk x] b socks \<open>b \<noteq> a\<close> by (auto simp: user_ok_def rest)
  qed
  show "session_ok ?X ?st p s" if "k_sessions ?st p = Some s" for p s
  proof -
    have s: "k_sessions st p = Some s" using that rest by simp
    obtain ska where a: "socks (k_world st) a = Some ska" "sk_destruct ska = Some L2tp_tunnel_destruct" by (rule tunnel_user [OF inv t])
    have "ppp_ok ?X (k_world ?st) l p s" if "ppp_ok X (k_world st) l p s" for l
      using that by (rule ppp_ok_same) (use a in \<open>auto simp: socks\<close>)
    moreover have "eth_ok (k_world ?st) p s = eth_ok (k_world st) p s" by (simp add: eth_ok_def socks)
    moreover have "k_tunnels ?st x \<noteq> None" if "k_tunnels st x \<noteq> None" for x using that other [of x] rest by (cases "x = tp") auto
    ultimately show ?thesis using inv_session [OF inv s] unfolding session_ok_def same by blast
  qed
  show "\<exists>s. k_sessions ?st (eth_session dev) = Some s \<and> priv s = PrivEth (Some d)" if "devs (k_world ?st) d = Some dev" for d dev
    using inv_dev [OF inv, of d dev] that socks rest by simp
  have ins: "tp \<in> tunnels_in st (l2tp_net t)" using t by (simp add: tunnels_in_def)
  show "net_ok E ?st m" for m
  proof -
    have "l2tp_tunnel_list (k_nets ?st m) = (if m = l2tp_net t then remove1 tp (l2tp_tunnel_list (k_nets st m)) else l2tp_tunnel_list (k_nets st m))"
      by (simp add: orphan_def)
    moreover have "tp \<notin> tunnels_in st m" if "m \<noteq> l2tp_net t" using t that by (simp add: tunnels_in_def)
    ultimately show ?thesis using inv_net [OF inv, of m] by (auto simp: net_ok_def same rest)
  qed
  show "fresh_ok ?st" using inv_rest(1) [OF inv] t unfolding fresh_ok_def rest socks
    by (auto simp: orphan_def)
  show "queues_ok ?st"
  proof -
    have ok: "queues_ok st" by (rule inv_rest(2) [OF inv])
    have "\<exists>b x u. skb_sk skb = Some b \<and> k_tunnels ?st x = Some u \<and> t_sock u = Some b" if skb: "skb \<in> set (k_wskbs st)" for skb
    proof -
      obtain b x u where b: "skb_sk skb = Some b" "k_tunnels st x = Some u" "t_sock u = Some b"
        using ok skb unfolding queues_ok_def by blast
      have "b \<noteq> a" using none(2) skb b(1) by (auto simp: inflight_def filter_empty_conv)
      then have "x \<noteq> tp" using b t by auto
      then show ?thesis using b other [of x] by auto
    qed
    moreover have "{x. \<exists>u. k_tunnels ?st x = Some u \<and> t_ref_count u = 0} = {x. \<exists>u. k_tunnels st x = Some u \<and> t_ref_count u = 0}"
      using t by (auto simp: orphan_def)
    moreover have "k_tunnels ?st x \<noteq> None" if "k_tunnels st x \<noteq> None" for x using that by (simp add: orphan_def)
    ultimately show ?thesis using ok by (simp add: queues_ok_def rest)
  qed
  show "counts_ok ?st"
  proof -
    let ?A = "{x. \<exists>u. k_tunnels st x = Some u \<and> t_sock u \<noteq> None}"
    have "{x. \<exists>u. k_tunnels ?st x = Some u \<and> t_sock u \<noteq> None} = ?A - {tp}" by (auto simp: orphan_def)
    moreover have "tp \<in> ?A" using t by simp
    moreover have "finite ?A" using inv_rest(1) [OF inv] by (auto simp: fresh_ok_def dom_def intro: finite_subset [rotated])
    moreover from calculation(2,3) have "card ?A > 0" by (auto simp: card_gt_0_iff)
    ultimately show ?thesis using inv_rest(3) [OF inv] by (simp add: counts_ok_def rest card_Diff_singleton of_nat_diff)
  qed
qed

lemma closeall_empty:
  assumes "k_tunnels st tp = Some t" and "linked (session_hlist t) = {}"
  shows "l2tp_tunnel_closeall E tp st = Inr st"
proof -
  have "bucket (session_hlist t) b = []" for b
    using assms(2) bucket_linked [of _ "session_hlist t" b] by (cases "bucket (session_hlist t) b") auto
  then have "closeall_bucket E tp b st = Inr st" for b using assms(1) by (simp add: closeall_bucket.simps [of E tp b st])
  then have "closeall_from E tp bs st = Inr st" for bs by (induction bs) simp_all
  then show ?thesis by (simp add: l2tp_tunnel_closeall_def)
qed

text \<open>The destructor of a tunnel's socket, once nothing refers to the socket any more.\<close>

lemma sk_free_tunnel:
  assumes inv: "inv E X st" and t: "k_tunnels st tp = Some t" "t_sock t = Some a"
    and sk: "socks (k_world st) a = Some sk" "sk_refcnt sk = 0"
  obtains st' where "sk_free E a st = Inr st'" and "inv E X st'"
    and "st' = tunnel_put tp (t\<lparr>t_sock := None\<rparr>) (orphan tp t a st)"
proof -
  obtain sk' where sk': "socks (k_world st) a = Some sk'" "sk_user_data sk' = Some tp" "sk_destruct sk' = Some L2tp_tunnel_destruct"
    "(if sk_socket sk' then 1 else 0) + int (card (sess_of st tp)) + int (inflight st a) + int (X (SockRef a)) \<le> sk_refcnt sk'"
    by (rule tunnel_user [OF inv t])
  then have "int (card (sess_of st tp)) + int (inflight st a) \<le> 0" using sk by (simp split: if_splits)
  then have "card (sess_of st tp) = 0" and in0: "inflight st a = 0" by simp_all
  then have s0: "sess_of st tp = {}" using finite_sess_of [OF inv, of tp] by simp
  then have dead: "dead_tunnel E X st tp t a" using inv t in0 by (simp add: dead_tunnel_def)
  have tok: "tunnel_ok E X st tp t" by (rule inv_tunnel [OF inv t(1)])
  let ?t = "t\<lparr>t_sock := None\<rparr>" and ?st = "tunnel_put tp (t\<lparr>t_sock := None\<rparr>) (orphan tp t a st)"
  have i: "inv E X ?st" using tunnel_dec_inv(2) [OF orphan_inv [OF dead], of tp ?t] by (simp add: orphan_def)
  have empty: "linked (session_hlist t) = {}" using tok s0 by (simp add: tunnel_ok_def)
  define w where "w = upd_sock a (\<lambda>x. x\<lparr>sk_destruct := old_sk_destruct t, sk_user_data := None\<rparr>)
    (if encap t = L2TP_ENCAPTYPE_UDP then upd_sock a (\<lambda>x. x\<lparr>encap_type := 0, encap_rcv := False, encap_destroy := False\<rparr>) (k_world st) else k_world st)"
  have w: "w\<lparr>socks := (socks w)(a := None)\<rparr> = (k_world st)\<lparr>socks := (socks (k_world st))(a := None)\<rparr>"
    by (simp add: w_def upd_sock_def)
  define st3 where "st3 = upd_net (l2tp_net t) (\<lambda>n. n\<lparr>l2tp_tunnel_list := remove1 tp (l2tp_tunnel_list n)\<rparr>) (set_tunnel tp ?t (st\<lparr>k_world := w\<rparr>))"
  let ?st4 = "st3\<lparr>l2tp_tunnel_count := l2tp_tunnel_count st3 - 1\<rparr>"
  have t3: "k_tunnels ?st4 tp = Some ?t" by (simp add: st3_def set_tunnel_def upd_net_def)
  have "l2tp_tunnel_destruct E a st = Inr (tunnel_put tp ?t ?st4)"
    using sk' t closeall_empty [OF t3] tunnel_dec_put [OF t3] empty
    by (simp add: l2tp_tunnel_destruct_def Let_def st3_def [symmetric] w_def [symmetric])
  moreover have "drop_sock a (tunnel_put tp ?t ?st4) = ?st"
    by (simp add: drop_sock_def tunnel_put_def orphan_def st3_def set_tunnel_def upd_net_def w)
  ultimately have "sk_free E a st = Inr ?st" using sk' by (simp add: sk_free_def drop_sock_def)
  then show thesis using i by (rule that) simp
qed

section \<open>Sockets of PPP sessions\<close>

text \<open>A session that has lost its PPP socket, before it is freed: it has no hooks left.\<close>

definition detached :: "l2tp_session \<Rightarrow> l2tp_session" where
  "detached s = s\<lparr>session_close := None, recv_skb := None, priv := PrivEth None\<rparr>"

lemma detached_simps [simp]:
  "ppp_sock_of (detached s) = None" "eth_dev_of (detached s) = None" "s_tunnel (detached s) = s_tunnel s"
  "session_id (detached s) = session_id s" "s_magic (detached s) = s_magic s" "s_ref_count (detached s) = s_ref_count s"
  "session_close (detached s) = None" "recv_skb (detached s) = None" "priv (detached s) = PrivEth None"
  by (simp_all add: detached_def ppp_sock_of_def eth_dev_of_def)

definition detach :: "ptr \<Rightarrow> l2tp_session \<Rightarrow> ptr \<Rightarrow> kst \<Rightarrow> kst" where
  "detach p s c st = (drop_sock c st)\<lparr>k_sessions := (k_sessions st)(p \<mapsto> detached s)\<rparr>"

lemma detach_inv:
  assumes inv: "inv E X st" and s: "k_sessions st p = Some s" "ppp_sock_of s = Some c"
  shows "inv E X (detach p s c st)" (is "inv E X ?st")
proof (rule invI)
  have ok: "session_ok X st p s" by (rule inv_session [OF inv s(1)])
  then have ppp: "ppp_ok X (k_world st) (is_linked st p s) p s" using s(2) by (auto simp: session_ok_def no_hooks_def eth_ok_def ppp_sock_of_def)
  then obtain skc where skc: "socks (k_world st) c = Some skc" "sk_destruct skc = Some Pppol2tp_session_destruct" "sk_user_data skc = Some p"
    using s(2) by (auto simp: ppp_ok_def)
  have noeth: "priv s \<noteq> PrivEth d" for d using s(2) by (auto simp: ppp_sock_of_def)
  have rest: "k_sessions ?st = (k_sessions st)(p \<mapsto> detached s)" "socks (k_world ?st) = (socks (k_world st))(c := None)"
    "devs (k_world ?st) = devs (k_world st)" "k_tunnels ?st = k_tunnels st" "k_nets ?st = k_nets st" "l2tp_wq ?st = l2tp_wq st" "k_rcu ?st = k_rcu st"
    "k_wskbs ?st = k_wskbs st" "k_next ?st = k_next st" "l2tp_tunnel_count ?st = l2tp_tunnel_count st" "l2tp_session_count ?st = l2tp_session_count st"
    by (simp_all add: detach_def)
  have so: "sess_of ?st = sess_of st" using s(1) by (auto simp: sess_of_def rest fun_eq_iff)
  have same: "in_tunnel ?st = in_tunnel st" "inflight ?st = inflight st" "v3_linked ?st = v3_linked st" "tunnels_in ?st = tunnels_in st"
    by (simp_all add: in_tunnel_def inflight_def v3_linked_def tunnels_in_def rest fun_eq_iff)
  have tbl: "table_ok (k_sessions ?st) f m tbl" if "table_ok (k_sessions st) f m tbl" for f m tbl
    using table_ok_upd [OF that s(1), of "detached s"] by (simp add: rest)
  show "tunnel_ok E X ?st tp t" if "k_tunnels ?st tp = Some t" for tp t
    using inv_tunnel [OF inv, of tp t] that tbl by (simp add: tunnel_ok_def so same rest)
  show "\<exists>sk. socks (k_world ?st) b = Some sk \<and> tsock_ok X ?st tp b sk" if t: "k_tunnels ?st tp = Some t" "t_sock t = Some b" for tp t b
  proof -
    obtain sk where sk: "socks (k_world st) b = Some sk" "tsock_ok X st tp b sk" using inv_tsock [OF inv, of tp t b] t rest by auto
    then have "b \<noteq> c" using skc by (auto simp: tsock_ok_def)
    then show ?thesis using sk by (simp add: tsock_ok_def so same rest)
  qed
  show "user_ok ?st b sk x" if b: "socks (k_world ?st) b = Some sk" "sk_user_data sk = Some x" for b sk x
  proof -
    have "b \<noteq> c" using b rest by auto
    then have "user_ok st b sk x" using inv_user [OF inv, of b sk x] b rest by simp
    then show ?thesis using s \<open>b \<noteq> c\<close> by (auto simp: user_ok_def rest)
  qed
  show "session_ok X ?st q u" if u: "k_sessions ?st q = Some u" for q u
  proof (cases "q = p")
    case True
    then show ?thesis using u ok by (auto simp: session_ok_def rest no_hooks_def)
  next
    case False
    then have q: "k_sessions st q = Some u" using u rest by simp
    have "ppp_ok X (k_world ?st) l q u" if "ppp_ok X (k_world st) l q u" for l
      using that by (rule ppp_ok_same) (use that False skc in \<open>auto simp: rest ppp_ok_def\<close>)
    moreover have "eth_ok (k_world ?st) q u = eth_ok (k_world st) q u" "is_linked ?st q u = is_linked st q u"
      by (simp_all add: eth_ok_def rest is_linked_def same)
    ultimately show ?thesis using inv_session [OF inv q] unfolding session_ok_def by (auto simp: rest)
  qed
  show "\<exists>u. k_sessions ?st (eth_session dev) = Some u \<and> priv u = PrivEth (Some d)" if "devs (k_world ?st) d = Some dev" for d dev
    using inv_dev [OF inv, of d dev] that s noeth by (auto simp: rest)
  show "net_ok E ?st m" for m using inv_net [OF inv, of m] tbl by (simp add: net_ok_def same rest)
  show "fresh_ok ?st" using inv_rest(1) [OF inv] s(1) by (auto simp: fresh_ok_def rest)
  show "queues_ok ?st" using inv_rest(2) [OF inv] by (simp add: queues_ok_def rest)
  have "{q. \<exists>u. k_sessions ?st q = Some u \<and> session_id u \<noteq> 0} = {q. \<exists>u. k_sessions st q = Some u \<and> session_id u \<noteq> 0}"
    using s(1) by (auto simp: rest)
  then show "counts_ok ?st" using inv_rest(3) [OF inv] by (simp add: counts_ok_def rest)
qed

lemma hlist_del_absent: "p \<notin> linked tbl \<Longrightarrow> hlist_del_init p tbl = tbl"
  by (auto simp: hlist_del_init_def linked_def intro!: map_idI filter_True)

text \<open>A session its tunnel does not list is in no table at all.\<close>

lemma unlinked_nowhere:
  assumes inv: "inv E X st" and s: "k_sessions st p = Some s" "s_tunnel s = Some tp" "k_tunnels st tp = Some t"
    and no: "p \<notin> linked (session_hlist t)"
  shows "unlinked_tunnel p t = t" and "unlinked_nets p t (k_nets st) = k_nets st"
proof -
  show "unlinked_tunnel p t = t" using hlist_del_absent [OF no] by (simp add: unlinked_tunnel_def)
  have "p \<notin> v3_linked st n" for n
  proof
    assume "p \<in> v3_linked st n"
    then obtain tp' t' where t': "k_tunnels st tp' = Some t'" "p \<in> linked (session_hlist t')" by (auto simp: v3_linked_def)
    then have "p \<in> sess_of st tp'" using inv_tunnel [OF inv t'(1)] by (auto simp: tunnel_ok_def)
    then have "tp' = tp" using s by (auto simp: sess_of_def)
    then show False using t' s(3) no by simp
  qed
  then have "p \<notin> linked (l2tp_session_hlist (k_nets st n))" for n using inv_net [OF inv, of n] by (simp add: net_ok_def)
  then show "unlinked_nets p t (k_nets st) = k_nets st" by (simp add: unlinked_nets_def hlist_del_absent)
qed

lemma adj_refs_drop:
  assumes "a \<noteq> c"
  shows "(adj_refs (Some a) k (upd_sock c f w))\<lparr>socks := (socks (adj_refs (Some a) k (upd_sock c f w)))(c := None)\<rparr> =
    adj_refs (Some a) k (w\<lparr>socks := (socks w)(c := None)\<rparr>)"
  using assms by (simp add: adj_refs_def upd_sock_def fun_upd_twist)

lemma sk_free_ppp:
  assumes inv: "inv E X st" and s: "k_sessions st p = Some s" "ppp_sock_of s = Some c"
    and sk: "socks (k_world st) c = Some sk" "sk_refcnt sk = 0"
  obtains st' where "sk_free E c st = Inr st'" and "inv E X st'" and "k_sessions st' = (k_sessions st)(p := None)"
proof -
  have ok: "session_ok X st p s" by (rule inv_session [OF inv s(1)])
  then have ppp: "ppp_ok X (k_world st) (is_linked st p s) p s"
    using s(2) by (auto simp: session_ok_def no_hooks_def eth_ok_def ppp_sock_of_def)
  then have user: "sk_user_data sk = Some p" "sk_destruct sk = Some Pppol2tp_session_destruct" and nolink: "\<not> is_linked st p s"
    using s(2) sk by (auto simp: ppp_ok_def split: if_splits)
  obtain tp t where t: "s_tunnel s = Some tp" "k_tunnels st tp = Some t" using ok by (auto simp: session_ok_def)
  have tok: "tunnel_ok E X st tp t" by (rule inv_tunnel [OF inv t(2)])
  have mem: "p \<in> sess_of st tp" using s t by (auto simp: sess_of_def)
  then have "card (sess_of st tp) > 0" using finite_sess_of [OF inv, of tp] by (auto simp: card_gt_0_iff)
  moreover from mem have "t_sock t \<noteq> None" using tok by (auto simp: tunnel_ok_def)
  ultimately obtain a where a: "t_sock t = Some a" and ref: "t_ref_count t \<noteq> 1" using tok by (auto simp: tunnel_ok_def)
  obtain ska where ska: "socks (k_world st) a = Some ska" "sk_destruct ska = Some L2tp_tunnel_destruct" by (rule tunnel_user [OF inv t(2) a])
  then have ac: "a \<noteq> c" using sk user by auto
  have tm: "k_tunnels st p = None" using inv_rest(1) [OF inv] s(1) by (auto simp: fresh_ok_def)
  let ?st1 = "st\<lparr>k_world := upd_sock c (\<lambda>x. x\<lparr>sk_user_data := None\<rparr>) (k_world st)\<rparr>"
  have "l2tp_session_dec_refcount p ?st1 = Inr (session_gone p s tp t a ?st1)"
    using s t a ok tok ref ska ac by (intro session_dec_last) (simp_all add: session_ok_def tunnel_ok_def socks_upd_sock)
  then have "pppol2tp_session_destruct c st = Inr (session_gone p s tp t a ?st1)"
    using sk user tm s(1) ok by (simp add: pppol2tp_session_destruct_def user_magic_def session_ok_def Let_def)
  moreover let ?st' = "session_gone p (detached s) tp t a (detach p s c st)"
  have "drop_sock c (session_gone p s tp t a ?st1) = ?st'"
    using adj_refs_drop [OF ac] by (simp add: drop_sock_def session_gone_def detach_def)
  ultimately have eq: "sk_free E c st = Inr ?st'" using sk user by (simp add: sk_free_def drop_sock_def)
  have iD: "inv E X (detach p s c st)" by (rule detach_inv [OF inv s])
  have nol: "p \<notin> linked (session_hlist t)" using nolink t by (auto simp: is_linked_def in_tunnel_def)
  have nw: "unlinked_tunnel p t = t" "unlinked_nets p t (k_nets st) = k_nets st"
    using unlinked_nowhere [OF inv s(1) t nol] by simp_all
  have live: "session_live (detach p s c st) p (detached s) tp t a"
    using ok tok t a ref ska ac
    by (simp add: session_live_def session_ok_def tunnel_ok_def detach_def refs_ok_def sock_alive_def close_ok_def)
  have "free_step E X (detach p s c st) p (detached s) tp t a ?st'"
    using iD live nw by (simp add: free_step_def unlinks_def session_gone_def detach_def gone_world_def shut_world_def held_by_socket_def)
  then have "inv E X ?st'" by (rule inv_free)
  with eq show thesis by (rule that) (simp add: session_gone_def detach_def)
qed

text \<open>A socket without references can be freed, whatever it was used for.\<close>

lemma sk_free_inv:
  assumes inv: "inv E X st" and sk: "socks (k_world st) a = Some sk" "sk_refcnt sk = 0"
  obtains st' where "sk_free E a st = Inr st'" and "inv E X st'"
proof -
  consider (tunnel) tp where "sk_destruct sk = Some L2tp_tunnel_destruct" "sk_user_data sk = Some tp"
    | (ppp) p where "sk_destruct sk = Some Pppol2tp_session_destruct" "sk_user_data sk = Some p"
    | (loose) "sk_user_data sk = None \<or> sk_destruct sk \<noteq> Some L2tp_tunnel_destruct \<and> sk_destruct sk \<noteq> Some Pppol2tp_session_destruct"
    by (cases "sk_user_data sk") auto
  then show thesis
  proof cases
    case tunnel
    then obtain t where "k_tunnels st tp = Some t" "t_sock t = Some a" using inv_user [OF inv sk(1)] by (auto simp: user_ok_def)
    then show thesis using sk_free_tunnel [OF inv _ _ sk, of tp t] that by metis
  next
    case ppp
    then obtain s where "k_sessions st p = Some s" "ppp_sock_of s = Some a" using inv_user [OF inv sk(1)] by (auto simp: user_ok_def)
    then show thesis using sk_free_ppp [OF inv _ _ sk, of p s] that by metis
  next
    case loose
    have "t_sock t \<noteq> Some a" if "k_tunnels st tp = Some t" for tp t
      using inv_tsock [OF inv that, of a] sk(1) loose by (auto simp: tsock_ok_def)
    moreover have "ppp_sock_of s \<noteq> Some a" if "k_sessions st p = Some s" for p s
      using inv_session [OF inv that] sk(1) loose
      by (auto simp: session_ok_def no_hooks_def eth_ok_def ppp_ok_def ppp_sock_of_def)
    ultimately have "inv E X (drop_sock a st)" using drop_sock_inv [OF inv, of a] by (simp add: loose_sock_def)
    moreover have "sk_free E a st = Inr (drop_sock a st)" using sk loose
      by (auto simp: sk_free_def drop_sock_def l2tp_tunnel_destruct_def pppol2tp_session_destruct_def
          split: option.split sk_destruct_fn.split)
    ultimately show thesis by (intro that)
  qed
qed

section \<open>The RCU callback\<close>

lemma rcu_inv:
  assumes inv: "inv E X st" and tp: "tp \<in> set (k_rcu st)"
  shows "inv E X (free_percpu_and_l2tp_tunnel tp st)" (is "inv E X ?st")
proof -
  obtain t where t: "k_tunnels st tp = Some t" "t_ref_count t = 0" using inv_rest(2) [OF inv] tp by (auto simp: queues_ok_def)
  then have "(if t_sock t = None then 0 else 1) + int (card (sess_of st tp)) + int (count_list (l2tp_wq st) tp) + int (X (TunRef tp)) = 0"
    using inv_tunnel [OF inv t(1)] by (simp add: tunnel_ok_def)
  then have "t_sock t = None \<and> card (sess_of st tp) = 0 \<and> count_list (l2tp_wq st) tp = 0" by (simp split: if_splits)
  then have none: "t_sock t = None" "sess_of st tp = {}" "tp \<notin> set (l2tp_wq st)"
    using finite_sess_of [OF inv, of tp] by (simp_all add: count_list_0_iff)
  have empty: "linked (session_hlist t) = {}" using inv_tunnel [OF inv t(1)] none by (auto simp: tunnel_ok_def)
  have tun: "k_tunnels ?st = (k_tunnels st)(tp := None)" by (simp add: free_percpu_and_l2tp_tunnel_def)
  have rest: "k_sessions ?st = k_sessions st" "k_world ?st = k_world st" "k_nets ?st = k_nets st" "l2tp_wq ?st = l2tp_wq st"
    "k_rcu ?st = remove1 tp (k_rcu st)" "k_wskbs ?st = k_wskbs st" "k_next ?st = k_next st"
    "l2tp_tunnel_count ?st = l2tp_tunnel_count st" "l2tp_session_count ?st = l2tp_session_count st"
    by (simp_all add: free_percpu_and_l2tp_tunnel_def)
  have same: "sess_of ?st = sess_of st" "inflight ?st = inflight st" by (simp_all add: sess_of_def inflight_def rest fun_eq_iff)
  have it: "in_tunnel ?st = in_tunnel st" using t empty by (auto simp: in_tunnel_def tun fun_eq_iff)
  have "(k_tunnels ?st x = Some u \<and> q \<in> linked (session_hlist u)) = (k_tunnels st x = Some u \<and> q \<in> linked (session_hlist u))" for x u q
    using t(1) empty by (cases "x = tp") (auto simp: tun)
  then have v3: "v3_linked ?st n = v3_linked st n" for n unfolding v3_linked_def by (intro Collect_cong ex_cong1) blast
  have ti: "tunnels_in ?st n = tunnels_in st n" for n using t none by (auto simp: tunnels_in_def tun)
  show ?thesis
  proof (rule invI)
    show "tunnel_ok E X ?st x u" if "k_tunnels ?st x = Some u" for x u
      using inv_tunnel [OF inv, of x u] that by (auto simp: tunnel_ok_def same rest tun split: if_splits)
    show "\<exists>sk. socks (k_world ?st) b = Some sk \<and> tsock_ok X ?st x b sk" if "k_tunnels ?st x = Some u" "t_sock u = Some b" for x u b
      using inv_tsock [OF inv, of x u b] that by (auto simp: tsock_ok_def same rest tun split: if_splits)
    show "user_ok ?st b sk x" if "socks (k_world ?st) b = Some sk" "sk_user_data sk = Some x" for b sk x
      using inv_user [OF inv, of b sk x] that t none by (auto simp: user_ok_def rest tun)
    show "session_ok X ?st p s" if "k_sessions ?st p = Some s" for p s
    proof -
      have "s_tunnel s \<noteq> Some tp" using that none(2) by (auto simp: sess_of_def rest)
      then show ?thesis using inv_session [OF inv, of p s] that by (auto simp: session_ok_def rest tun is_linked_def it)
    qed
    show "\<exists>s. k_sessions ?st (eth_session dev) = Some s \<and> priv s = PrivEth (Some d)" if "devs (k_world ?st) d = Some dev" for d dev
      using inv_dev [OF inv, of d dev] that by (simp add: rest)
    show "net_ok E ?st m" for m using inv_net [OF inv, of m] by (simp add: net_ok_def rest v3 ti)
    show "fresh_ok ?st" using inv_rest(1) [OF inv] by (auto simp: fresh_ok_def rest tun)
    have "\<exists>b x u. skb_sk skb = Some b \<and> k_tunnels ?st x = Some u \<and> t_sock u = Some b" if skb: "skb \<in> set (k_wskbs st)" for skb
    proof -
      have "\<exists>b x u. skb_sk skb = Some b \<and> k_tunnels st x = Some u \<and> t_sock u = Some b"
        using inv_rest(2) [OF inv] skb unfolding queues_ok_def by blast
      then obtain b x u where b: "skb_sk skb = Some b" "k_tunnels st x = Some u" "t_sock u = Some b" by blast
      then have "x \<noteq> tp" using t none by auto
      then show ?thesis using b by (auto simp: tun)
    qed
    then show "queues_ok ?st" using inv_rest(2) [OF inv] none(3) by (auto simp: queues_ok_def rest tun)
    have "{x. \<exists>u. k_tunnels ?st x = Some u \<and> t_sock u \<noteq> None} = {x. \<exists>u. k_tunnels st x = Some u \<and> t_sock u \<noteq> None}"
      using t none by (auto simp: tun)
    then show "counts_ok ?st" using inv_rest(3) [OF inv] by (simp add: counts_ok_def rest)
  qed
qed

section \<open>Packets in flight\<close>

lemma inv_wskbs:
  assumes inv: "inv E X st" and t: "k_tunnels st tp = Some t" "t_sock t = Some a"
    and X: "\<forall>r. r \<noteq> SockRef a \<longrightarrow> X' r = X r" and q: "\<forall>skb \<in> set q. skb \<in> set (k_wskbs st) \<or> skb_sk skb = Some a"
    and n: "\<And>b. length (filter (\<lambda>skb. skb_sk skb = Some b) q) + X' (SockRef b) = inflight st b + X (SockRef b)"
  shows "inv E X' (st\<lparr>k_wskbs := q\<rparr>)" (is "inv E X' ?st")
proof (rule invI)
  have same: "sess_of ?st = sess_of st" "in_tunnel ?st = in_tunnel st"
    "is_linked ?st = is_linked st" "v3_linked ?st = v3_linked st" "tunnels_in ?st = tunnels_in st"
    by (simp_all add: sess_of_def in_tunnel_def is_linked_def v3_linked_def tunnels_in_def fun_eq_iff)
  show "tunnel_ok E X' ?st x u" if "k_tunnels ?st x = Some u" for x u
    using inv_tunnel [OF inv, of x u] that X by (simp add: tunnel_ok_def same)
  show "\<exists>sk. socks (k_world ?st) b = Some sk \<and> tsock_ok X' ?st x b sk" if u: "k_tunnels ?st x = Some u" "t_sock u = Some b" for x u b
  proof -
    obtain sk where "socks (k_world st) b = Some sk" "tsock_ok X st x b sk" using inv_tsock [OF inv, of x u b] u by auto
    moreover have "int (inflight ?st b) + int (X' (SockRef b)) = int (inflight st b) + int (X (SockRef b))"
      using n [of b] by (simp add: inflight_def)
    ultimately show ?thesis by (auto simp: tsock_ok_def same elim: sk_counted_shift)
  qed
  show "user_ok ?st b sk x" if "socks (k_world ?st) b = Some sk" "sk_user_data sk = Some x" for b sk x
    using inv_user [OF inv, of b sk x] that by (simp add: user_ok_def)
  obtain ska where a: "socks (k_world st) a = Some ska" "sk_destruct ska = Some L2tp_tunnel_destruct" by (rule tunnel_user [OF inv t])
  show "session_ok X' ?st p s" if "k_sessions ?st p = Some s" for p s
  proof -
    have "ppp_ok X' (k_world ?st) l p s" if "ppp_ok X (k_world st) l p s" for l
    proof (rule ppp_ok_same [OF that])
      fix c sk assume "ppp_sock_of s = Some c" "socks (k_world st) c = Some sk" "sk_destruct sk = Some Pppol2tp_session_destruct"
      moreover from this have "c \<noteq> a" using a by auto
      ultimately show "socks (k_world ?st) c = Some sk \<and> X' (SockRef c) = X (SockRef c)" using X by simp
    qed
    then show ?thesis using inv_session [OF inv, of p s] that unfolding session_ok_def same by auto
  qed
  show "\<exists>s. k_sessions ?st (eth_session dev) = Some s \<and> priv s = PrivEth (Some d)" if "devs (k_world ?st) d = Some dev" for d dev
    using inv_dev [OF inv, of d dev] that by simp
  show "net_ok E ?st m" for m using inv_net [OF inv, of m] by (simp add: net_ok_def same)
  show "fresh_ok ?st" using inv_rest(1) [OF inv] by (simp add: fresh_ok_def)
  have ok: "queues_ok st" by (rule inv_rest(2) [OF inv])
  have "\<exists>b x u. skb_sk skb = Some b \<and> k_tunnels st x = Some u \<and> t_sock u = Some b" if "skb \<in> set q" for skb
    using q that ok t unfolding queues_ok_def by blast
  then show "queues_ok ?st" using ok by (simp add: queues_ok_def)
  show "counts_ok ?st" using inv_rest(3) [OF inv] by (simp add: counts_ok_def)
qed

text \<open>A packet in flight is freed.\<close>

lemma length_filter_remove1:
  "x \<in> set xs \<Longrightarrow> length (filter P (remove1 x xs)) = length (filter P xs) - (if P x then 1 else 0)"
proof (induction xs)
  case (Cons y xs)
  then have "P x \<Longrightarrow> x \<noteq> y \<Longrightarrow> length (filter P xs) > 0" by (auto simp: filter_empty_conv)
  with Cons show ?case by auto
qed simp

lemma wfree_inv:
  assumes inv: "inv E X st" and skb: "skb \<in> set (k_wskbs st)"
  obtains st' where "l2tp_sock_wfree skb st = Inr st'" and "inv E X st'" and "k_wskbs st' = remove1 skb (k_wskbs st)"
proof -
  have "\<exists>a tp t. skb_sk skb = Some a \<and> k_tunnels st tp = Some t \<and> t_sock t = Some a"
    using inv_rest(2) [OF inv] skb unfolding queues_ok_def by blast
  then obtain a tp t where a: "skb_sk skb = Some a" and t: "k_tunnels st tp = Some t" "t_sock t = Some a" by blast
  let ?st = "st\<lparr>k_wskbs := remove1 skb (k_wskbs st)\<rparr>" and ?X = "more (SockRef a) X"
  have pos: "inflight st a > 0" using skb a by (auto simp: inflight_def filter_empty_conv)
  have i: "inv E ?X ?st"
  proof (rule inv_wskbs [OF inv t])
    show "\<forall>s \<in> set (remove1 skb (k_wskbs st)). s \<in> set (k_wskbs st) \<or> skb_sk s = Some a" using set_remove1_subset [of skb "k_wskbs st"] by blast
    show "length (filter (\<lambda>s. skb_sk s = Some b) (remove1 skb (k_wskbs st))) + ?X (SockRef b) = inflight st b + X (SockRef b)" for b
      using length_filter_remove1 [OF skb, of "\<lambda>s. skb_sk s = Some b"] a pos by (auto simp: inflight_def)
  qed simp
  obtain sk where "socks (k_world ?st) a = Some sk" by (rule tunnel_user [OF i, of tp t]) (use t in simp_all)
  then have "socks (k_world ?st) a \<noteq> None" by simp
  note put = sock_put_inv [OF i this]
  show thesis
  proof (rule that)
    show "l2tp_sock_wfree skb st = Inr (?st\<lparr>k_world := adj_refs (Some a) (- 1) (k_world ?st)\<rparr>)"
      using put(1) a by (simp add: l2tp_sock_wfree_def del: on_world_Inr)
    show "inv E X (?st\<lparr>k_world := adj_refs (Some a) (- 1) (k_world ?st)\<rparr>)" using put(2) by simp
  qed simp
qed

end
