(* ===== verification/L2tp_Inv_New.thy ===== *)
theory L2tp_Inv_New
  imports L2tp_Inv_Free
begin

unbundle bit_operations_syntax

text \<open>
  Creating sessions and tunnels keeps the invariant. A new session is linked into its tunnel and,
  for version 3, into the namespace, and holds the tunnel and the tunnel's socket; a new tunnel
  holds its socket through \<^verbatim>\<open>sk_user_data\<close>. The Ethernet pseudowire adds its device, or takes the
  session down again when the device cannot be registered.
\<close>

section \<open>New sessions\<close>

text \<open>The state after a session \<open>s\<close> has been linked at the address \<open>k_next\<close>.\<close>

definition created :: "kenv \<Rightarrow> l2tp_session \<Rightarrow> ptr \<Rightarrow> l2tp_tunnel \<Rightarrow> ptr \<Rightarrow> kst \<Rightarrow> kst" where
  "created E s tp t a st =
     (let p = k_next st; sid = session_id s in
      st\<lparr>k_next := p + 1, k_sessions := (k_sessions st)(p \<mapsto> s),
         k_tunnels := (k_tunnels st)(tp \<mapsto> t\<lparr>t_ref_count := t_ref_count t + 1,
            session_hlist := hlist_add_head (l2tp_session_id_hash E sid) p (session_hlist t)\<rparr>),
         k_world := adj_refs (Some a) 1 (k_world st),
         k_nets := (if version t = L2TP_HDR_VER_2 then k_nets st
            else (k_nets st)(l2tp_net t := (k_nets st (l2tp_net t))\<lparr>l2tp_session_hlist :=
              hlist_add_head (l2tp_session_id_hash_2 E sid) p (l2tp_session_hlist (k_nets st (l2tp_net t)))\<rparr>)),
         l2tp_session_count := (if sid \<noteq> 0 then l2tp_session_count st + 1 else l2tp_session_count st)\<rparr>)"

definition new_ok :: "kenv \<Rightarrow> (href \<Rightarrow> nat) \<Rightarrow> kst \<Rightarrow> l2tp_session \<Rightarrow> ptr \<Rightarrow> l2tp_tunnel \<Rightarrow> ptr \<Rightarrow> bool" where
  "new_ok E X st s tp t a \<longleftrightarrow> wf_env E \<and> inv E X st \<and> k_tunnels st tp = Some t \<and> t_sock t = Some a \<and> s_magic s = L2TP_SESSION_MAGIC \<and>
     s_ref_count s = 1 \<and> s_tunnel s = Some tp \<and> no_hooks s"

lemma link_session_eff:
  assumes "k_tunnels st tp = Some t" and "t_sock t = Some a" and "socks (k_world st) a \<noteq> None"
  shows "link_session E (k_next st) tp (session_id s) (set_session (k_next st) s (st\<lparr>k_next := k_next st + 1\<rparr>)) = Inr (created E s tp t a st)"
proof -
  let ?st0 = "set_session (k_next st) s (st\<lparr>k_next := k_next st + 1\<rparr>)"
  let ?st1 = "set_tunnel tp (t\<lparr>t_ref_count := t_ref_count t + 1\<rparr>) ?st0"
  have "l2tp_tunnel_inc_refcount tp ?st0 = Inr ?st1" using assms(1) by (simp add: l2tp_tunnel_inc_refcount_def set_session_def)
  moreover have "deref_ptr (k_tunnels ?st1) (Some tp) = Inr (tp, t\<lparr>t_ref_count := t_ref_count t + 1\<rparr>)" by (simp add: set_tunnel_def)
  moreover have "on_world (sock_hold (Some a)) ?st1 = Inr (?st1\<lparr>k_world := adj_refs (Some a) 1 (k_world st)\<rparr>)"
    using assms(3) by (simp add: sock_hold_eff set_tunnel_def set_session_def)
  ultimately have "link_session E (k_next st) tp (session_id s) ?st0 =
    (let st3 = set_tunnel tp (t\<lparr>t_ref_count := t_ref_count t + 1, session_hlist := hlist_add_head (l2tp_session_id_hash E (session_id s)) (k_next st) (session_hlist t)\<rparr>)
                 (?st1\<lparr>k_world := adj_refs (Some a) 1 (k_world st)\<rparr>);
         st4 = (if version t \<noteq> L2TP_HDR_VER_2 then upd_net (l2tp_net t) (\<lambda>n. n\<lparr>l2tp_session_hlist :=
                  hlist_add_head (l2tp_session_id_hash_2 E (session_id s)) (k_next st) (l2tp_session_hlist n)\<rparr>) st3 else st3)
     in Inr (if session_id s \<noteq> 0 then st4\<lparr>l2tp_session_count := l2tp_session_count st4 + 1\<rparr> else st4))"
    using assms(2) by (simp add: link_session_def del: on_world_Inr cong: if_cong)
  also have "\<dots> = Inr (created E s tp t a st)"
    unfolding created_def Let_def set_tunnel_def set_session_def upd_net_def by (cases "version t = L2TP_HDR_VER_2"; cases "session_id s = 0") simp_all
  finally show ?thesis .
qed

lemma created_fields:
  "k_next (created E s tp t a st) = k_next st + 1" "k_sessions (created E s tp t a st) = (k_sessions st)(k_next st \<mapsto> s)"
  "k_tunnels (created E s tp t a st) = (k_tunnels st)(tp \<mapsto> t\<lparr>t_ref_count := t_ref_count t + 1,
     session_hlist := hlist_add_head (l2tp_session_id_hash E (session_id s)) (k_next st) (session_hlist t)\<rparr>)"
  "k_world (created E s tp t a st) = adj_refs (Some a) 1 (k_world st)" "l2tp_wq (created E s tp t a st) = l2tp_wq st"
  "k_rcu (created E s tp t a st) = k_rcu st" "k_wskbs (created E s tp t a st) = k_wskbs st"
  "l2tp_tunnel_count (created E s tp t a st) = l2tp_tunnel_count st"
  "l2tp_session_count (created E s tp t a st) = (if session_id s \<noteq> 0 then l2tp_session_count st + 1 else l2tp_session_count st)"
  "l2tp_tunnel_list (k_nets (created E s tp t a st) n) = l2tp_tunnel_list (k_nets st n)"
  "l2tp_session_hlist (k_nets (created E s tp t a st) n) = (if version t \<noteq> L2TP_HDR_VER_2 \<and> n = l2tp_net t
     then hlist_add_head (l2tp_session_id_hash_2 E (session_id s)) (k_next st) (l2tp_session_hlist (k_nets st n))
     else l2tp_session_hlist (k_nets st n))"
  by (simp_all add: created_def Let_def)

lemma new_basic:
  assumes "new_ok E X st s tp t a"
  shows "wf_env E" "inv E X st" "k_tunnels st tp = Some t" "t_sock t = Some a" "s_tunnel s = Some tp"
    "k_sessions st (k_next st) = None" "k_next st \<notin> linked (session_hlist t)" "k_next st \<notin> linked (l2tp_session_hlist (k_nets st n))"
    "length (session_hlist t) = 16" "l2tp_session_id_hash E (session_id s) < 16"
    "length (l2tp_session_hlist (k_nets st n)) = 256" "l2tp_session_id_hash_2 E (session_id s) < 256"
proof -
  show e: "wf_env E" and inv: "inv E X st" and t: "k_tunnels st tp = Some t" and "t_sock t = Some a" "s_tunnel s = Some tp"
    using assms by (simp_all add: new_ok_def)
  show nx: "k_sessions st (k_next st) = None" using inv_rest(1) [OF inv] by (simp add: fresh_ok_def)
  have tok: "tunnel_ok E X st tp t" by (rule inv_tunnel [OF inv t])
  then show "k_next st \<notin> linked (session_hlist t)" using nx by (auto simp: tunnel_ok_def sess_of_def)
  show "length (session_hlist t) = 16" using tok by (simp add: tunnel_ok_def table_ok_def)
  have "k_next st \<notin> v3_linked st n"
  proof
    assume "k_next st \<in> v3_linked st n"
    then obtain x u where "k_tunnels st x = Some u" "k_next st \<in> linked (session_hlist u)" by (auto simp: v3_linked_def)
    then show False using inv_tunnel [OF inv, of x u] nx by (auto simp: tunnel_ok_def sess_of_def)
  qed
  then show "k_next st \<notin> linked (l2tp_session_hlist (k_nets st n))" and "length (l2tp_session_hlist (k_nets st n)) = 256"
    using inv_net [OF inv, of n] by (simp_all add: net_ok_def table_ok_def)
  show "l2tp_session_id_hash E (session_id s) < 16" "l2tp_session_id_hash_2 E (session_id s) < 256"
    using th.hash_bound [OF e, of "session_id s"] gh.hash_bound [OF e, of "session_id s"] by simp_all
qed

lemma created_views:
  assumes "new_ok E X st s tp t a"
  shows "sess_of (created E s tp t a st) x = (if x = tp then insert (k_next st) (sess_of st tp) else sess_of st x)"
    and "in_tunnel (created E s tp t a st) x q \<longleftrightarrow> in_tunnel st x q \<or> x = tp \<and> q = k_next st"
    and "tunnels_in (created E s tp t a st) n = tunnels_in st n" and "inflight (created E s tp t a st) = inflight st"
    and "v3_linked (created E s tp t a st) n = (if version t \<noteq> L2TP_HDR_VER_2 \<and> n = l2tp_net t then insert (k_next st) (v3_linked st n) else v3_linked st n)"
proof -
  note b = new_basic [OF assms]
  let ?st = "created E s tp t a st"
  show "sess_of ?st x = (if x = tp then insert (k_next st) (sess_of st tp) else sess_of st x)"
    using b(5,6) by (auto simp: sess_of_def created_fields)
  show it: "in_tunnel ?st x q \<longleftrightarrow> in_tunnel st x q \<or> x = tp \<and> q = k_next st" for x q
    using b(3,9,10) by (auto simp: in_tunnel_def created_fields)
  show "tunnels_in ?st n = tunnels_in st n" using b(3) by (auto simp: tunnels_in_def created_fields)
  show "inflight ?st = inflight st" by (simp add: inflight_def created_fields fun_eq_iff)
  have v3: "v3_linked st n = {q. \<exists>x. (\<exists>u. k_tunnels st x = Some u \<and> l2tp_net u = n \<and> version u \<noteq> L2TP_HDR_VER_2) \<and> in_tunnel st x q}" for st n
    unfolding v3_linked_def in_tunnel_def by (intro Collect_cong ex_cong1) auto
  have "(\<exists>u. k_tunnels ?st x = Some u \<and> l2tp_net u = n \<and> version u \<noteq> L2TP_HDR_VER_2) \<longleftrightarrow>
      (\<exists>u. k_tunnels st x = Some u \<and> l2tp_net u = n \<and> version u \<noteq> L2TP_HDR_VER_2)" for x n
    using b(3) by (auto simp: created_fields)
  then show "v3_linked ?st n = (if version t \<noteq> L2TP_HDR_VER_2 \<and> n = l2tp_net t then insert (k_next st) (v3_linked st n) else v3_linked st n)"
    unfolding v3 it using b(3) by auto
qed

lemma table_ok_fresh:
  assumes "table_ok h f n tbl" and "h p = None"
  shows "table_ok (h(p \<mapsto> s)) f n tbl"
  using assms by (fastforce simp: table_ok_def)

lemma created_tunnel_ok:
  assumes new: "new_ok E X st s tp t a" and u: "k_tunnels (created E s tp t a st) x = Some u"
  shows "tunnel_ok E X (created E s tp t a st) x u"
proof -
  note b = new_basic [OF new] and v = created_views [OF new]
  show ?thesis
  proof (cases "x = tp")
    case True
    have ok: "tunnel_ok E X st tp t" by (rule inv_tunnel [OF b(2,3)])
    let ?tbl = "hlist_add_head (l2tp_session_id_hash E (session_id s)) (k_next st) (session_hlist t)"
    have eq: "u = t\<lparr>t_ref_count := t_ref_count t + 1, session_hlist := ?tbl\<rparr>" using u True by (simp add: created_fields)
    have "table_ok ((k_sessions st)(k_next st \<mapsto> s)) (l2tp_session_id_hash E) 16 ?tbl"
      using table_ok_add [of "k_sessions st" "l2tp_session_id_hash E" 16, OF _ b(7) b(10)] ok by (simp add: tunnel_ok_def)
    moreover have "linked ?tbl = insert (k_next st) (linked (session_hlist t))" using b(9,10) by simp
    moreover have "k_next st \<notin> sess_of st tp" using b(6) by (simp add: sess_of_def)
    then have "card (insert (k_next st) (sess_of st tp)) = card (sess_of st tp) + 1" using finite_sess_of [OF b(2), of tp] by simp
    ultimately show ?thesis using ok b(4) True by (auto simp: tunnel_ok_def eq v created_fields)
  next
    case False
    then have "k_tunnels st x = Some u" using u by (simp add: created_fields)
    then have ok: "tunnel_ok E X st x u" by (rule inv_tunnel [OF b(2)])
    then show ?thesis using False table_ok_fresh [of "k_sessions st" "l2tp_session_id_hash E" 16 "session_hlist u" "k_next st" s] b(6)
      by (simp add: tunnel_ok_def v created_fields)
  qed
qed

lemma created_tsock_ok:
  assumes new: "new_ok E X st s tp t a" and u: "k_tunnels (created E s tp t a st) x = Some u" "t_sock u = Some c"
  shows "\<exists>sk. socks (k_world (created E s tp t a st)) c = Some sk \<and> tsock_ok X (created E s tp t a st) x c sk"
proof -
  note b = new_basic [OF new] and v = created_views [OF new]
  show ?thesis
  proof (cases "x = tp")
    case True
    then have ca: "c = a" using u b(4) by (auto simp: created_fields)
    obtain sk where sk: "socks (k_world st) a = Some sk" "tsock_ok X st tp a sk" using inv_tsock [OF b(2-4)] by blast
    have "k_next st \<notin> sess_of st tp" using b(6) by (simp add: sess_of_def)
    then have "card (insert (k_next st) (sess_of st tp)) = card (sess_of st tp) + 1" using finite_sess_of [OF b(2), of tp] by simp
    then have "tsock_ok X (created E s tp t a st) tp a (sk\<lparr>sk_refcnt := sk_refcnt sk + 1\<rparr>)" using sk(2) by (auto simp: tsock_ok_def v elim: sk_counted_shift)
    then show ?thesis using sk(1) True ca by (simp add: created_fields socks_adj_refs)
  next
    case False
    then have told: "k_tunnels st x = Some u" using u by (simp add: created_fields)
    then have "c \<noteq> a" using inv_tsock_inj [OF b(2-4) told] u(2) False by auto
    then show ?thesis using inv_tsock [OF b(2) told u(2)] False by (simp add: tsock_ok_def v created_fields socks_adj_refs)
  qed
qed

lemma created_session_ok:
  assumes new: "new_ok E X st s tp t a" and u: "k_sessions (created E s tp t a st) q = Some u"
  shows "session_ok X (created E s tp t a st) q u"
proof -
  note b = new_basic [OF new] and v = created_views [OF new]
  show ?thesis
  proof (cases "q = k_next st")
    case True
    then show ?thesis using new u by (auto simp: session_ok_def new_ok_def created_fields)
  next
    case False
    then have old: "k_sessions st q = Some u" using u by (simp add: created_fields)
    obtain ska where a: "socks (k_world st) a = Some ska" "sk_destruct ska = Some L2tp_tunnel_destruct" by (rule tunnel_user [OF b(2-4)])
    have lnk: "is_linked (created E s tp t a st) q u = is_linked st q u" using False by (simp add: is_linked_def v)
    have "ppp_ok X (k_world (created E s tp t a st)) l q u" if "ppp_ok X (k_world st) l q u" for l
      using that by (rule ppp_ok_same) (use a in \<open>auto simp: created_fields socks_adj_refs\<close>)
    moreover have "eth_ok (k_world (created E s tp t a st)) q u = eth_ok (k_world st) q u" by (simp add: eth_ok_def created_fields)
    moreover have "k_tunnels (created E s tp t a st) x \<noteq> None" if "k_tunnels st x \<noteq> None" for x using that by (simp add: created_fields)
    ultimately show ?thesis using inv_session [OF b(2) old] unfolding session_ok_def lnk by blast
  qed
qed

lemma created_user_ok:
  assumes new: "new_ok E X st s tp t a" and sk: "socks (k_world (created E s tp t a st)) c = Some sk" "sk_user_data sk = Some x"
  shows "user_ok (created E s tp t a st) c sk x"
proof -
  note b = new_basic [OF new]
  obtain sk0 where sk0: "socks (k_world st) c = Some sk0" "sk_user_data sk0 = Some x" "sk_destruct sk0 = sk_destruct sk"
    using sk by (cases "c = a") (auto simp: created_fields socks_adj_refs)
  have "\<exists>u'. k_tunnels (created E s tp t a st) x = Some u' \<and> t_sock u' = Some c" if "k_tunnels st x = Some u" "t_sock u = Some c" for u
    using that b(3,4) by (cases "x = tp") (auto simp: created_fields)
  moreover have "k_sessions (created E s tp t a st) x = Some u" if "k_sessions st x = Some u" for u
    using that b(6) by (auto simp: created_fields)
  ultimately show ?thesis using inv_user [OF b(2) sk0(1,2)] sk0(3) by (auto simp: user_ok_def)
qed

lemma created_net_ok:
  assumes new: "new_ok E X st s tp t a"
  shows "net_ok E (created E s tp t a st) n"
proof -
  note b = new_basic [OF new] and v = created_views [OF new]
  have ok: "net_ok E st n" by (rule inv_net [OF b(2)])
  show ?thesis
  proof (cases "version t \<noteq> L2TP_HDR_VER_2 \<and> n = l2tp_net t")
    case True
    let ?tbl = "hlist_add_head (l2tp_session_id_hash_2 E (session_id s)) (k_next st) (l2tp_session_hlist (k_nets st n))"
    have "table_ok ((k_sessions st)(k_next st \<mapsto> s)) (l2tp_session_id_hash_2 E) 256 ?tbl"
      using table_ok_add [of "k_sessions st" "l2tp_session_id_hash_2 E" 256, OF _ b(8) b(12)] ok by (simp add: net_ok_def)
    moreover have "linked ?tbl = insert (k_next st) (linked (l2tp_session_hlist (k_nets st n)))" using b(11,12) by simp
    ultimately show ?thesis using ok True by (simp add: net_ok_def v created_fields)
  next
    case False
    then show ?thesis using ok table_ok_fresh [of "k_sessions st" "l2tp_session_id_hash_2 E" 256 "l2tp_session_hlist (k_nets st n)" "k_next st" s] b(6)
      by (auto simp: net_ok_def v created_fields)
  qed
qed

lemma created_rest:
  assumes new: "new_ok E X st s tp t a"
  shows "fresh_ok (created E s tp t a st)" and "queues_ok (created E s tp t a st)" and "counts_ok (created E s tp t a st)"
proof -
  note b = new_basic [OF new] and v = created_views [OF new]
  let ?st = "created E s tp t a st"
  have fr: "fresh_ok st" by (rule inv_rest(1) [OF b(2)])
  have ska: "socks (k_world st) a \<noteq> None" using inv_tsock [OF b(2-4)] by auto
  then have "a < k_next st" using fr by (auto simp: fresh_ok_def not_le [symmetric])
  moreover have "tp < k_next st" using fr b(3) by (auto simp: fresh_ok_def not_le [symmetric])
  ultimately show "fresh_ok ?st" using fr b(3)
    by (auto simp: fresh_ok_def created_fields socks_adj_refs)
  have qok: "queues_ok st" by (rule inv_rest(2) [OF b(2)])
  have "t_ref_count t > 0" using inv_tunnel [OF b(2,3)] b(4) by (auto simp: tunnel_ok_def)
  then have "{x. \<exists>u. k_tunnels ?st x = Some u \<and> t_ref_count u = 0} = {x. \<exists>u. k_tunnels st x = Some u \<and> t_ref_count u = 0}"
    using b(3) by (auto simp: created_fields)
  moreover have "\<exists>c x u. skb_sk skb = Some c \<and> k_tunnels ?st x = Some u \<and> t_sock u = Some c" if skb: "skb \<in> set (k_wskbs st)" for skb
  proof -
    have "\<exists>c x u. skb_sk skb = Some c \<and> k_tunnels st x = Some u \<and> t_sock u = Some c" using qok skb unfolding queues_ok_def by blast
    then obtain c x u where "skb_sk skb = Some c" "k_tunnels st x = Some u" "t_sock u = Some c" by blast
    then show ?thesis using b(3) by (cases "x = tp") (auto simp: created_fields)
  qed
  moreover have "k_tunnels ?st x \<noteq> None" if "k_tunnels st x \<noteq> None" for x using that by (simp add: created_fields)
  ultimately show "queues_ok ?st" using qok by (simp add: queues_ok_def created_fields)
  have "{x. \<exists>u. k_tunnels ?st x = Some u \<and> t_sock u \<noteq> None} = {x. \<exists>u. k_tunnels st x = Some u \<and> t_sock u \<noteq> None}"
    using b(3) by (auto simp: created_fields)
  moreover have "{q. \<exists>u. k_sessions ?st q = Some u \<and> session_id u \<noteq> 0} =
      (if session_id s \<noteq> 0 then insert (k_next st) {q. \<exists>u. k_sessions st q = Some u \<and> session_id u \<noteq> 0}
       else {q. \<exists>u. k_sessions st q = Some u \<and> session_id u \<noteq> 0})" using b(6) by (auto simp: created_fields)
  moreover have "finite {q. \<exists>u. k_sessions st q = Some u \<and> session_id u \<noteq> 0}"
    using fr by (auto simp: fresh_ok_def dom_def intro: finite_subset [rotated])
  ultimately show "counts_ok ?st" using inv_rest(3) [OF b(2)] b(6) by (simp add: counts_ok_def created_fields)
qed

lemma created_inv:
  assumes new: "new_ok E X st s tp t a"
  shows "inv E X (created E s tp t a st)"
proof (rule invI [OF created_tunnel_ok [OF new] created_tsock_ok [OF new] created_user_ok [OF new] created_session_ok [OF new]
      _ created_net_ok [OF new] created_rest [OF new]])
  note b = new_basic [OF new]
  show "\<exists>s'. k_sessions (created E s tp t a st) (eth_session dev) = Some s' \<and> priv s' = PrivEth (Some d)"
    if "devs (k_world (created E s tp t a st)) d = Some dev" for d dev
    using inv_dev [OF b(2), of d dev] that b(6) by (auto simp: created_fields)
qed

text \<open>\<^verbatim>\<open>l2tp_session_create\<close> with a configuration whose cookies fit returns.\<close>

definition cfg_ok :: "l2tp_session_cfg \<Rightarrow> bool" where
  "cfg_ok c \<longleftrightarrow> cfg_cookie_len c \<le> 8 \<and> cfg_cookie_len c \<le> length (cfg_cookie c) \<and>
     cfg_peer_cookie_len c \<le> 8 \<and> cfg_peer_cookie_len c \<le> length (cfg_peer_cookie c)"

definition bare_priv :: "session_priv \<Rightarrow> bool" where
  "bare_priv pr \<longleftrightarrow> ppp_sock_of (zero_session pr) = None \<and> eth_dev_of (zero_session pr) = None"

lemma finish_session_simps [simp]:
  "session_id (finish_session t s) = session_id s" "s_magic (finish_session t s) = s_magic s"
  "s_ref_count (finish_session t s) = s_ref_count s + 1" "s_tunnel (finish_session t s) = s_tunnel s"
  "priv (finish_session t s) = priv s" "session_close (finish_session t s) = session_close s" "recv_skb (finish_session t s) = recv_skb s"
  "reorder_q (finish_session t s) = reorder_q s"
  by (simp_all add: finish_session_def l2tp_session_set_header_len_def Let_def)

lemma apply_session_cfg_ok:
  assumes "cfg_ok c"
  obtains s' where "apply_session_cfg c s = Inr s'" and "session_id s' = session_id s" and "s_magic s' = s_magic s"
    and "s_ref_count s' = s_ref_count s" and "s_tunnel s' = s_tunnel s" and "priv s' = priv s" and "session_close s' = session_close s"
    and "recv_skb s' = recv_skb s"
  using assms by (simp add: apply_session_cfg_def memcpy8_def cfg_ok_def)

lemma session_create_inv:
  assumes E: "wf_env E" and inv: "inv E X st" and t: "k_tunnels st tp = Some t" "t_sock t = Some a" and pr: "bare_priv pr"
    and cfg: "case cfg of None \<Rightarrow> True | Some c \<Rightarrow> cfg_ok c"
  obtains (nomem) "l2tp_session_create E pr tp sid psid cfg st = Inr (None, st)"
  | (new) s where "l2tp_session_create E pr tp sid psid cfg st = Inr (Some (k_next st), created E s tp t a st)"
      and "new_ok E X st s tp t a" and "inv E X (created E s tp t a st)" and "session_id s = sid"
      and "priv s = pr" and "session_close s = None" and "recv_skb s = None"
proof (cases "kzalloc_ok E Alloc_session \<and> kzalloc_ok E Alloc_session_stats")
  case False
  then show thesis by (intro nomem) (auto simp: l2tp_session_create_def)
next
  case True
  let ?s0 = "new_session E pr tp t sid psid"
  have s0: "session_id ?s0 = sid" "s_magic ?s0 = L2TP_SESSION_MAGIC" "s_ref_count ?s0 = 0" "s_tunnel ?s0 = Some tp" "priv ?s0 = pr"
    "session_close ?s0 = None" "recv_skb ?s0 = None" by (simp_all add: new_session_def zero_session_def Let_def)
  obtain s where s: "(case cfg of None \<Rightarrow> Inr ?s0 | Some c \<Rightarrow> apply_session_cfg c ?s0) = Inr s"
      "session_id s = sid" "s_magic s = L2TP_SESSION_MAGIC" "s_ref_count s = 0" "s_tunnel s = Some tp" "priv s = pr"
      "session_close s = None" "recv_skb s = None"
  proof (cases cfg)
    case None
    then show thesis using s0 by (intro that [of ?s0]) simp_all
  next
    case (Some c)
    then have "cfg_ok c" using cfg by simp
    then obtain s' where "apply_session_cfg c ?s0 = Inr s'" "session_id s' = session_id ?s0" "s_magic s' = s_magic ?s0"
      "s_ref_count s' = s_ref_count ?s0" "s_tunnel s' = s_tunnel ?s0" "priv s' = priv ?s0" "session_close s' = session_close ?s0"
      "recv_skb s' = recv_skb ?s0" by (rule apply_session_cfg_ok)
    then show thesis using s0 Some by (intro that [of s']) simp_all
  qed
  let ?s = "finish_session t s"
  have "no_hooks ?s" using pr s by (simp add: no_hooks_def bare_priv_def ppp_sock_of_def eth_dev_of_def zero_session_def)
  then have ok: "new_ok E X st ?s tp t a" using E inv t s by (simp add: new_ok_def)
  have "socks (k_world st) a \<noteq> None" using inv_tsock [OF inv t] by auto
  then have "l2tp_session_create E pr tp sid psid cfg st = Inr (Some (k_next st), created E ?s tp t a st)"
    using True t s(1,2) link_session_eff [OF t, of E ?s] by (simp add: l2tp_session_create_def Let_def)
  then show thesis by (rule new [OF _ ok created_inv [OF ok]]) (use s in simp_all)
qed

end
