(* ===== verification/L2tp_Inv_Mod.thy ===== *)
theory L2tp_Inv_Mod
  imports L2tp_Inv_New
begin

unbundle bit_operations_syntax

text \<open>
  Changes of one session that leave its place in the tables alone keep the invariant, and so do
  the Ethernet pseudowire's and the tunnels' creation.
\<close>

section \<open>Changing a session\<close>

lemma inv_session_upd:
  assumes inv: "inv E X st" and s: "k_sessions st p = Some s" and eq: "session_id s' = session_id s" "s_tunnel s' = s_tunnel s"
    and ok: "session_ok X st p s'" and ppp: "\<And>c. ppp_sock_of s = Some c \<Longrightarrow> ppp_sock_of s' = Some c"
    and eth: "\<And>d. priv s = PrivEth (Some d) \<Longrightarrow> priv s' = PrivEth (Some d)"
  shows "inv E X (set_session p s' st)" (is "inv E X ?st")
proof (rule invI)
  have rest: "k_sessions ?st = (k_sessions st)(p \<mapsto> s')" "k_world ?st = k_world st" "k_tunnels ?st = k_tunnels st" "k_nets ?st = k_nets st"
    "l2tp_wq ?st = l2tp_wq st" "k_rcu ?st = k_rcu st" "k_wskbs ?st = k_wskbs st" "k_next ?st = k_next st"
    "l2tp_tunnel_count ?st = l2tp_tunnel_count st" "l2tp_session_count ?st = l2tp_session_count st"
    by (simp_all add: set_session_def)
  have so: "sess_of ?st = sess_of st" using s eq by (auto simp: sess_of_def rest fun_eq_iff)
  have same: "in_tunnel ?st = in_tunnel st" "inflight ?st = inflight st" "v3_linked ?st = v3_linked st" "tunnels_in ?st = tunnels_in st"
    "is_linked ?st = is_linked st"
    by (simp_all add: in_tunnel_def inflight_def v3_linked_def tunnels_in_def is_linked_def rest fun_eq_iff)
  have tbl: "table_ok (k_sessions ?st) f m tbl" if "table_ok (k_sessions st) f m tbl" for f m tbl
    using table_ok_upd [OF that s eq(1)] by (simp add: rest)
  show "tunnel_ok E X ?st tp t" if "k_tunnels ?st tp = Some t" for tp t
    using inv_tunnel [OF inv, of tp t] that tbl by (simp add: tunnel_ok_def so same rest)
  show "\<exists>sk. socks (k_world ?st) b = Some sk \<and> tsock_ok X ?st tp b sk" if "k_tunnels ?st tp = Some t" "t_sock t = Some b" for tp t b
    using inv_tsock [OF inv, of tp t b] that by (simp add: tsock_ok_def so same rest)
  show "user_ok ?st b sk x" if "socks (k_world ?st) b = Some sk" "sk_user_data sk = Some x" for b sk x
    using inv_user [OF inv, of b sk x] that s ppp by (auto simp: user_ok_def rest)
  show "session_ok X ?st q u" if "k_sessions ?st q = Some u" for q u
  proof -
    have "session_ok X ?st q u = session_ok X st q u" by (simp add: session_ok_def rest same)
    moreover have "session_ok X st q u" using inv_session [OF inv, of q u] that ok by (cases "q = p") (auto simp: rest)
    ultimately show ?thesis by simp
  qed
  show "\<exists>u. k_sessions ?st (eth_session dev) = Some u \<and> priv u = PrivEth (Some d)" if "devs (k_world ?st) d = Some dev" for d dev
    using inv_dev [OF inv, of d dev] that s eth by (auto simp: rest)
  show "net_ok E ?st m" for m using inv_net [OF inv, of m] tbl by (simp add: net_ok_def same rest)
  show "fresh_ok ?st" using inv_rest(1) [OF inv] s by (auto simp: fresh_ok_def rest)
  show "queues_ok ?st" using inv_rest(2) [OF inv] by (simp add: queues_ok_def rest)
  have "{q. \<exists>u. k_sessions ?st q = Some u \<and> session_id u \<noteq> 0} = {q. \<exists>u. k_sessions st q = Some u \<and> session_id u \<noteq> 0}"
    using s eq by (auto simp: rest)
  then show "counts_ok ?st" using inv_rest(3) [OF inv] by (simp add: counts_ok_def rest)
qed

text \<open>Fields the invariant does not mention.\<close>

definition same_session :: "l2tp_session \<Rightarrow> l2tp_session \<Rightarrow> bool" where
  "same_session s s' \<longleftrightarrow> session_id s' = session_id s \<and> s_tunnel s' = s_tunnel s \<and> s_magic s' = s_magic s \<and> s_ref_count s' = s_ref_count s \<and>
     priv s' = priv s \<and> session_close s' = session_close s \<and> recv_skb s' = recv_skb s \<and> s_ref s' = s_ref s \<and> s_deref s' = s_deref s \<and>
     length (reorder_q s') = length (reorder_q s)"

lemma inv_same_session:
  assumes inv: "inv E X st" and s: "k_sessions st p = Some s" and same: "same_session s s'"
  shows "inv E X (set_session p s' st)"
proof (rule inv_session_upd [OF inv s])
  have "is_linked st p s' = is_linked st p s" using same by (simp add: is_linked_def same_session_def)
  moreover have "ppp_sock_of s' = ppp_sock_of s" "eth_dev_of s' = eth_dev_of s" using same by (simp_all add: same_session_def ppp_sock_of_def eth_dev_of_def)
  ultimately show "session_ok X st p s'" using inv_session [OF inv s] same
    by (simp add: session_ok_def no_hooks_def eth_ok_def ppp_ok_def same_session_def)
qed (use same in \<open>simp_all add: same_session_def ppp_sock_of_def\<close>)

lemma inv_next:
  assumes inv: "inv E X st" and n: "k_next st \<le> n"
  shows "inv E X (st\<lparr>k_next := n\<rparr>)"
proof -
  have "fresh_ok (st\<lparr>k_next := n\<rparr>)" using inv_rest(1) [OF inv] n by (auto simp: fresh_ok_def)
  then show ?thesis using inv
    by (simp add: inv_def tunnel_ok_def tsock_ok_def user_ok_def session_ok_def net_ok_def queues_ok_def counts_ok_def
      sess_of_def in_tunnel_def inflight_def is_linked_def v3_linked_def tunnels_in_def)
qed

lemma session_delete_inv:
  assumes inv: "inv E X st" and s: "k_sessions st p = Some s" "is_linked st p s"
  obtains st' where "l2tp_session_delete E p st = Inr st'" and "inv E X st'" and "\<And>tp. \<not> in_tunnel st' tp p"
    and "\<And>q u. k_sessions st' q = Some u \<Longrightarrow> k_sessions st q \<noteq> None"
proof -
  obtain tp t a where live: "session_live st p s tp t a" by (rule inv_live [OF inv s])
  let ?st = "deleted E p s tp t a st"
  have i: "inv E X ?st" by (rule inv_deleted [OF inv live s(2)])
  have u: "unlinks st p s tp t (if held_by_socket s (k_world st) then Some (purged E (length (reorder_q s)) s) else None) ?st"
    by (rule deleted_unlinks)
  have tp: "s_tunnel s = Some tp" "k_tunnels st tp = Some t" using live by (simp_all add: session_live_def)
  have "\<not> in_tunnel ?st x p" for x
  proof (cases "x = tp")
    case True
    then show ?thesis using unlinks_in_tunnel [OF u tp(2), of tp p] by simp
  next
    case False
    have "p \<notin> sess_of st x" using s(1) tp(1) False by (auto simp: sess_of_def)
    then have "\<not> in_tunnel st x p" using inv_tunnel [OF inv, of x] by (auto simp: in_tunnel_def tunnel_ok_def)
    then show ?thesis using unlinks_in_tunnel [OF u tp(2), of x p] False by simp
  qed
  moreover have "k_sessions st q \<noteq> None" if "k_sessions ?st q = Some v" for q v
    using that s(1) u by (cases "q = p") (auto simp: unlinks_def)
  ultimately show thesis using session_delete_eff [OF live] i that by blast
qed

section \<open>The Ethernet pseudowire\<close>

text \<open>A session without hooks gets a device at a fresh address.\<close>

definition eth_attached :: "ptr \<Rightarrow> l2tp_session \<Rightarrow> l2tp_eth \<Rightarrow> nat \<Rightarrow> kst \<Rightarrow> kst" where
  "eth_attached p s dev net st = set_session p s (st\<lparr>k_next := k_next st + 1, k_world := (k_world st)
     \<lparr>devs := (devs (k_world st))(k_next st \<mapsto> dev),
      eth_dev_list := (eth_dev_list (k_world st))(net := k_next st # eth_dev_list (k_world st) net)\<rparr>\<rparr>)"

lemma eth_attached_inv:
  assumes inv: "inv E X st" and s: "k_sessions st p = Some s" "no_hooks s"
    and s': "session_id s' = session_id s" "s_tunnel s' = s_tunnel s" "s_magic s' = s_magic s" "s_ref_count s' = s_ref_count s"
      "session_close s' = Some L2tp_eth_delete" "recv_skb s' = Some L2tp_eth_dev_recv" "priv s' = PrivEth (Some (k_next st))"
    and dev: "eth_session dev = p"
  shows "inv E X (eth_attached p s' dev net st)" (is "inv E X ?st")
proof (rule invI)
  have rest: "k_sessions ?st = (k_sessions st)(p \<mapsto> s')" "k_tunnels ?st = k_tunnels st" "k_nets ?st = k_nets st"
    "l2tp_wq ?st = l2tp_wq st" "k_rcu ?st = k_rcu st" "k_wskbs ?st = k_wskbs st" "k_next ?st = k_next st + 1"
    "l2tp_tunnel_count ?st = l2tp_tunnel_count st" "l2tp_session_count ?st = l2tp_session_count st"
    "socks (k_world ?st) = socks (k_world st)" "devs (k_world ?st) = (devs (k_world st))(k_next st \<mapsto> dev)"
    by (simp_all add: eth_attached_def set_session_def)
  have fr: "fresh_ok st" by (rule inv_rest(1) [OF inv])
  then have nodev: "devs (k_world st) (k_next st) = None" by (simp add: fresh_ok_def)
  have so: "sess_of ?st = sess_of st" using s s' by (auto simp: sess_of_def rest fun_eq_iff)
  have same: "in_tunnel ?st = in_tunnel st" "inflight ?st = inflight st" "v3_linked ?st = v3_linked st" "tunnels_in ?st = tunnels_in st"
    "is_linked ?st = is_linked st"
    by (simp_all add: in_tunnel_def inflight_def v3_linked_def tunnels_in_def is_linked_def rest fun_eq_iff)
  have tbl: "table_ok (k_sessions ?st) f m tbl" if "table_ok (k_sessions st) f m tbl" for f m tbl
    using table_ok_upd [OF that s(1) s'(1)] by (simp add: rest)
  show "tunnel_ok E X ?st tp t" if "k_tunnels ?st tp = Some t" for tp t
    using inv_tunnel [OF inv, of tp t] that tbl by (simp add: tunnel_ok_def so same rest)
  show "\<exists>sk. socks (k_world ?st) b = Some sk \<and> tsock_ok X ?st tp b sk" if "k_tunnels ?st tp = Some t" "t_sock t = Some b" for tp t b
    using inv_tsock [OF inv, of tp t b] that by (simp add: tsock_ok_def so same rest)
  show "user_ok ?st b sk x" if "socks (k_world ?st) b = Some sk" "sk_user_data sk = Some x" for b sk x
    using inv_user [OF inv, of b sk x] that s by (auto simp: user_ok_def rest no_hooks_def)
  show "session_ok X ?st q u" if u: "k_sessions ?st q = Some u" for q u
  proof (cases "q = p")
    case True
    then have "u = s'" using u by (simp add: rest)
    moreover have "eth_ok (k_world ?st) p s'" using s' dev by (simp add: eth_ok_def rest)
    ultimately show ?thesis using inv_session [OF inv s(1)] s' True by (simp add: session_ok_def rest)
  next
    case False
    then have old: "k_sessions st q = Some u" using u by (simp add: rest)
    have "eth_ok (k_world ?st) q u" if "eth_ok (k_world st) q u" using that nodev by (auto simp: eth_ok_def rest)
    moreover have "ppp_ok X (k_world ?st) l q u = ppp_ok X (k_world st) l q u" for l by (simp add: ppp_ok_def rest)
    ultimately show ?thesis using inv_session [OF inv old] unfolding session_ok_def same rest(2) by blast
  qed
  show "\<exists>u. k_sessions ?st (eth_session dv) = Some u \<and> priv u = PrivEth (Some d)" if dv: "devs (k_world ?st) d = Some dv" for d dv
  proof (cases "d = k_next st")
    case True
    then have "eth_session dv = p" using dv dev by (auto simp: rest)
    then show ?thesis using s'(7) True by (simp add: rest(1))
  next
    case False
    then obtain u where "k_sessions st (eth_session dv) = Some u" "priv u = PrivEth (Some d)" using inv_dev [OF inv, of d dv] dv by (auto simp: rest)
    moreover from this have "eth_session dv \<noteq> p" using s by (auto simp: no_hooks_def eth_dev_of_def)
    ultimately show ?thesis by (simp add: rest)
  qed
  show "net_ok E ?st m" for m using inv_net [OF inv, of m] tbl by (simp add: net_ok_def same rest)
  show "fresh_ok ?st" using fr s(1) by (auto simp: fresh_ok_def rest)
  show "queues_ok ?st" using inv_rest(2) [OF inv] by (simp add: queues_ok_def rest)
  have "{q. \<exists>u. k_sessions ?st q = Some u \<and> session_id u \<noteq> 0} = {q. \<exists>u. k_sessions st q = Some u \<and> session_id u \<noteq> 0}"
    using s s' by (auto simp: rest)
  then show "counts_ok ?st" using inv_rest(3) [OF inv] by (simp add: counts_ok_def rest)
qed

lemma eth_attach_inv:
  assumes inv: "inv E X st" and s: "k_sessions st p = Some s" "no_hooks s" "is_linked st p s" and t: "k_tunnels st tp = Some t"
  obtains r st' where "eth_attach E net tp p name st = Inr (r, st')" and "inv E X st'"
proof (cases "kzalloc_ok E Alloc_netdev")
  case False
  obtain st' where "l2tp_session_delete E p st = Inr st'" "inv E X st'" by (rule session_delete_inv [OF inv s(1,3)])
  then show thesis using False by (intro that [of "- ENOMEM" st']) (simp_all add: eth_attach_def)
next
  case True
  define s1 where "s1 = (if s_mtu s = 0 then s\<lparr>s_mtu := dev_mtu (new_netdev net name) - int (unat (hdr_len s))\<rparr> else s)"
  define dev1 where "dev1 = (new_netdev net name)\<lparr>dev_mtu := s_mtu s1, needed_headroom := needed_headroom (new_netdev net name) + unat (hdr_len s1),
      eth_session := p, tunnel_sock := t_sock t\<rparr>"
  define s2 where "s2 = s1\<lparr>recv_skb := Some L2tp_eth_dev_recv, session_close := Some L2tp_eth_delete, priv := PrivEth (Some (k_next st))\<rparr>"
  obtain rc dev2 where reg: "register_eth_dev E dev1 = (rc, dev2)" by (cases "register_eth_dev E dev1")
  have dev2: "eth_session dev2 = p"
    using reg by (auto simp: register_eth_dev_def l2tp_eth_dev_init_def dev1_def split: if_splits sum.splits)
  have s1: "session_id s1 = session_id s" "s_tunnel s1 = s_tunnel s" "s_magic s1 = s_magic s" "s_ref_count s1 = s_ref_count s"
    by (simp_all add: s1_def)
  have eq: "eth_attach E net tp p name st = (if rc < 0
      then bind_res (l2tp_session_delete E p (set_session p (s2\<lparr>priv := PrivEth None\<rparr>) (st\<lparr>k_next := k_next st + 1\<rparr>))) (\<lambda>st'. Inr (rc, st'))
      else Inr (0, eth_attached p (s2\<lparr>ifname := take (IFNAMSIZ - 1) (dev_name dev2)\<rparr>) (dev2\<lparr>dev_refcnt := dev_refcnt dev2 + 1\<rparr>) net st))"
    unfolding eth_attach_def eth_attached_def
    using True s(1) t reg by (simp add: Let_def s1_def [symmetric] dev1_def [symmetric] s2_def [symmetric])
  show thesis
  proof (cases "rc < 0")
    case True
    let ?s3 = "s2\<lparr>priv := PrivEth None\<rparr>" and ?st1 = "st\<lparr>k_next := k_next st + 1\<rparr>"
    have i1: "inv E X ?st1" by (rule inv_next [OF inv]) simp
    have nh: "no_hooks ?s3" by (simp add: no_hooks_def s2_def eth_dev_of_def ppp_sock_of_def)
    have i2: "inv E X (set_session p ?s3 ?st1)"
    proof (rule inv_session_upd [OF i1, of p s])
      show "session_ok X ?st1 p ?s3" using inv_session [OF i1, of p s] s(1) s1 nh by (simp add: session_ok_def s2_def)
    qed (use s s1 in \<open>auto simp: s2_def no_hooks_def ppp_sock_of_def eth_dev_of_def\<close>)
    have l: "is_linked (set_session p ?s3 ?st1) p ?s3" using s(3) s1 by (simp add: is_linked_def in_tunnel_def set_session_def s2_def)
    obtain st' where "l2tp_session_delete E p (set_session p ?s3 ?st1) = Inr st'" "inv E X st'"
      by (rule session_delete_inv [OF i2 _ l]) (simp_all add: set_session_def)
    then show thesis using eq True by (intro that [of rc st']) simp_all
  next
    case False
    have "inv E X (eth_attached p (s2\<lparr>ifname := take (IFNAMSIZ - 1) (dev_name dev2)\<rparr>) (dev2\<lparr>dev_refcnt := dev_refcnt dev2 + 1\<rparr>) net st)"
      by (rule eth_attached_inv [OF inv s(1,2)]) (simp_all add: s2_def s1 dev2)
    then show thesis using eq False that by simp
  qed
qed

text \<open>The lookups return in every state with the invariant, and what they find is alive.\<close>

lemma tunnel_find_inv:
  assumes inv: "inv E X st"
  obtains (none) "l2tp_tunnel_find net tid st = Inr None" and "\<And>tp t. k_tunnels st tp = Some t \<Longrightarrow> t_sock t \<noteq> None \<Longrightarrow> l2tp_net t = net \<Longrightarrow> tunnel_id t \<noteq> tid"
  | (found) tp t a where "l2tp_tunnel_find net tid st = Inr (Some tp)" and "k_tunnels st tp = Some t" and "t_sock t = Some a"
      and "tunnel_id t = tid" and "l2tp_net t = net"
proof -
  let ?l = "l2tp_tunnel_list (k_nets st net)" and ?P = "\<lambda>p. tunnel_id (the (k_tunnels st p)) = tid"
  have set: "set ?l = tunnels_in st net" using inv_net [OF inv, of net] by (simp add: net_ok_def)
  then have "\<forall>p \<in> set ?l. k_tunnels st p \<noteq> None" by (auto simp: tunnels_in_def)
  then have eq: "l2tp_tunnel_find net tid st = Inr (find ?P ?l)" unfolding l2tp_tunnel_find_def by (rule chain_find_returns)
  show thesis
  proof (cases "find ?P ?l")
    case None
    then have "\<forall>p \<in> set ?l. \<not> ?P p" by (simp add: find_None_iff)
    then show thesis using None eq set by (intro none) (force simp: tunnels_in_def)+
  next
    case (Some tp)
    then have "tp \<in> tunnels_in st net" "?P tp" using set by (auto simp: find_Some_iff)
    then obtain t a where "k_tunnels st tp = Some t" "t_sock t = Some a" "l2tp_net t = net" "tunnel_id t = tid" by (auto simp: tunnels_in_def)
    then show thesis using eq Some by (intro found) simp_all
  qed
qed

lemma session_find_inv:
  assumes E: "wf_env E" and inv: "inv E X st" and t: "k_tunnels st tp = Some t"
  obtains (none) "l2tp_session_find E net (Some tp) sid st = Inr None" and "\<And>p s. k_sessions st p = Some s \<Longrightarrow> in_tunnel st tp p \<Longrightarrow> session_id s \<noteq> sid"
  | (found) p s where "l2tp_session_find E net (Some tp) sid st = Inr (Some p)" and "k_sessions st p = Some s" and "session_id s = sid"
      and "in_tunnel st tp p" and "is_linked st p s"
proof -
  have ok: "th.ok E (k_sessions st) (session_hlist t)" using inv_tunnel [OF inv t] by (simp add: tunnel_ok_def)
  have eq: "l2tp_session_find E net (Some tp) sid st = th.look E (k_sessions st) (session_hlist t) sid"
    using t by (simp add: l2tp_session_find_def)
  obtain r where r: "th.look E (k_sessions st) (session_hlist t) sid = Inr r" using th.look_returns [OF E ok] by blast
  show thesis
  proof (cases r)
    case None
    then have "\<forall>p \<in> linked (session_hlist t). \<forall>s. k_sessions st p = Some s \<longrightarrow> session_id s \<noteq> sid"
      using r th.look_None [OF E ok, of sid] by simp
    then show thesis using None r eq t by (intro none) (auto simp: in_tunnel_def)
  next
    case (Some p)
    then have l: "p \<in> linked (session_hlist t)" and "\<exists>s. k_sessions st p = Some s \<and> session_id s = sid"
      using th.look_Some [OF E ok, of sid p] r by simp_all
    then obtain s where s: "k_sessions st p = Some s" "session_id s = sid" by blast
    have "p \<in> sess_of st tp" using l inv_tunnel [OF inv t] by (auto simp: tunnel_ok_def)
    then have "s_tunnel s = Some tp" using s by (auto simp: sess_of_def)
    then show thesis using l s r eq Some t by (intro found) (auto simp: in_tunnel_def is_linked_def)
  qed
qed

lemma created_linked:
  assumes "new_ok E X st s tp t a"
  shows "k_sessions (created E s tp t a st) (k_next st) = Some s" and "is_linked (created E s tp t a st) (k_next st) s"
    and "k_tunnels (created E s tp t a st) tp \<noteq> None"
  using created_views(2) [OF assms] new_basic(5) [OF assms] by (simp_all add: created_fields is_linked_def)

lemma eth_create_inv:
  assumes E: "wf_env E" and inv: "inv E X st" and cfg: "cfg_ok cfg"
  obtains r st' where "l2tp_eth_create E net tid sid psid cfg st = Inr (r, st')" and "inv E X st'"
proof (rule tunnel_find_inv [OF inv, of net tid])
  assume "l2tp_tunnel_find net tid st = Inr None"
  then show thesis using inv by (intro that [of "- ENODEV" st]) (simp_all add: l2tp_eth_create_def)
next
  fix tp t a
  assume f: "l2tp_tunnel_find net tid st = Inr (Some tp)" and t: "k_tunnels st tp = Some t" "t_sock t = Some a"
  show thesis
  proof (cases "l2tp_session_find E net (Some tp) sid st = Inr None \<and> \<not> (case cfg_ifname cfg of None \<Rightarrow> False | Some n \<Rightarrow> dev_name_taken E net n)")
    case False
    obtain r where r: "l2tp_session_find E net (Some tp) sid st = Inr r" using session_find_inv [OF E inv t(1), of net sid] by metis
    then have "l2tp_eth_create E net tid sid psid cfg st = Inr (- EEXIST, st)" using f False by (auto simp: l2tp_eth_create_def)
    then show thesis using inv by (rule that)
  next
    case True
    let ?name = "case cfg_ifname cfg of None \<Rightarrow> L2TP_ETH_DEV_NAME | Some n \<Rightarrow> take (IFNAMSIZ - 1) n"
    have eq: "l2tp_eth_create E net tid sid psid cfg st = bind_res (l2tp_session_create E (PrivEth None) tp sid psid (Some cfg) st)
        (\<lambda>(sp, st1). case sp of None \<Rightarrow> Inr (- ENOMEM, st1) | Some p \<Rightarrow> eth_attach E net tp p ?name st1)"
      using f True by (simp add: l2tp_eth_create_def Let_def)
    have "bare_priv (PrivEth None)" by (simp add: bare_priv_def ppp_sock_of_def eth_dev_of_def zero_session_def)
    then show thesis
    proof (rule session_create_inv [OF E inv t, of _ "Some cfg" sid psid])
      assume "l2tp_session_create E (PrivEth None) tp sid psid (Some cfg) st = Inr (None, st)"
      then show thesis using eq inv by (intro that [of "- ENOMEM" st]) simp_all
    next
      fix s
      assume c: "l2tp_session_create E (PrivEth None) tp sid psid (Some cfg) st = Inr (Some (k_next st), created E s tp t a st)"
        and new: "new_ok E X st s tp t a" and i: "inv E X (created E s tp t a st)"
      have nh: "no_hooks s" using new by (simp add: new_ok_def)
      obtain u where "k_tunnels (created E s tp t a st) tp = Some u" using created_linked(3) [OF new] by blast
      then obtain r st' where "eth_attach E net tp (k_next st) ?name (created E s tp t a st) = Inr (r, st')" "inv E X st'"
        using eth_attach_inv [OF i created_linked(1) [OF new] nh created_linked(2) [OF new]] by metis
      then show thesis using eq c by (intro that [of r st']) simp_all
    qed (simp add: cfg)
  qed
qed

text \<open>A PPP session without a socket, as netlink creates it.\<close>

lemma ppp_session_create_inv:
  assumes E: "wf_env E" and inv: "inv E X st" and cfg: "cfg_ok cfg"
  obtains r st' where "pppol2tp_session_create E net tid sid psid cfg st = Inr (r, st')" and "inv E X st'"
proof (rule tunnel_find_inv [OF inv, of net tid])
  assume "l2tp_tunnel_find net tid st = Inr None"
  then show thesis using inv by (intro that [of "- ENOENT" st]) (simp_all add: pppol2tp_session_create_def)
next
  fix tp t a
  assume f: "l2tp_tunnel_find net tid st = Inr (Some tp)" and t: "k_tunnels st tp = Some t" "t_sock t = Some a"
  show thesis
  proof (cases "l2tp_session_find E net (Some tp) sid st = Inr None")
    case False
    obtain r where r: "l2tp_session_find E net (Some tp) sid st = Inr r" using session_find_inv [OF E inv t(1), of net sid] by metis
    then have "pppol2tp_session_create E net tid sid psid cfg st = Inr (- EEXIST, st)"
      using f t False by (auto simp: pppol2tp_session_create_def)
    then show thesis using inv by (rule that)
  next
    case True
    define cfg1 where "cfg1 = (if cfg_mtu cfg = 0 then cfg\<lparr>cfg_mtu := 1500 - PPPOL2TP_HEADER_OVERHEAD\<rparr> else cfg)"
    define cfg2 where "cfg2 = (if cfg_mru cfg1 = 0 then cfg1\<lparr>cfg_mru := cfg_mtu cfg1\<rparr> else cfg1)"
    have cfg2: "cfg_ok cfg2" using cfg by (simp add: cfg2_def cfg1_def cfg_ok_def)
    have eq: "pppol2tp_session_create E net tid sid psid cfg st =
        bind_res (l2tp_session_create E (PrivPpp zero_ppp_session) tp sid psid (Some cfg2) st) (\<lambda>(sp, st1).
          case sp of None \<Rightarrow> Inr (- ENOMEM, st1)
          | Some p \<Rightarrow> bind_res (deref_ptr (k_sessions st1) (Some p)) (\<lambda>(_, s). bind_res (ppp_priv s) (\<lambda>ps.
              Inr (0, set_session p (s\<lparr>priv := PrivPpp (ps\<lparr>ps_tunnel_sock := t_sock t\<rparr>)\<rparr>) st1))))"
      using f t True by (simp add: pppol2tp_session_create_def Let_def cfg1_def [symmetric] cfg2_def [symmetric])
    have "bare_priv (PrivPpp zero_ppp_session)"
      by (simp add: bare_priv_def ppp_sock_of_def eth_dev_of_def zero_session_def zero_ppp_session_def)
    then show thesis
    proof (rule session_create_inv [OF E inv t, of _ "Some cfg2" sid psid])
      assume "l2tp_session_create E (PrivPpp zero_ppp_session) tp sid psid (Some cfg2) st = Inr (None, st)"
      then show thesis using eq inv by (intro that [of "- ENOMEM" st]) simp_all
    next
      fix s
      let ?st = "created E s tp t a st" and ?s = "s\<lparr>priv := PrivPpp (zero_ppp_session\<lparr>ps_tunnel_sock := t_sock t\<rparr>)\<rparr>"
      assume c: "l2tp_session_create E (PrivPpp zero_ppp_session) tp sid psid (Some cfg2) st = Inr (Some (k_next st), ?st)"
        and new: "new_ok E X st s tp t a" and i: "inv E X ?st" and pr: "priv s = PrivPpp zero_ppp_session"
      have "inv E X (set_session (k_next st) ?s ?st)"
      proof (rule inv_session_upd [OF i created_linked(1) [OF new]])
        have "no_hooks ?s" using new by (simp add: new_ok_def no_hooks_def ppp_sock_of_def eth_dev_of_def zero_ppp_session_def)
        then show "session_ok X ?st (k_next st) ?s" using new created_linked(3) [OF new] by (auto simp: session_ok_def new_ok_def)
      qed (use pr in \<open>simp_all add: ppp_sock_of_def zero_ppp_session_def\<close>)
      then show thesis using eq c pr created_linked(1) [OF new] by (intro that) (simp_all add: ppp_priv_def)
    qed (simp add: cfg2)
  qed
qed

end
