(* ===== verification/L2tp_Inv_Create.thy ===== *)
theory L2tp_Inv_Create
  imports L2tp_Inv_Mod
begin

unbundle bit_operations_syntax

text \<open>
  \<^verbatim>\<open>l2tp_tunnel_create\<close> keeps the invariant on every branch, with a socket of its own or one the
  caller passes by its descriptor. What it relies on of the socket layer is \<open>socket_layer\<close>: new
  sockets are unused and hold the reference of their \<^verbatim>\<open>struct socket\<close>, and binding and connecting
  changes nothing of that.
\<close>

section \<open>New sockets\<close>

definition unused_sock :: "sock \<Rightarrow> bool" where
  "unused_sock sk \<longleftrightarrow> sk_user_data sk = None \<and> sk_destruct sk = Some Sock_destruct"

definition new_sock :: "sock \<Rightarrow> bool" where
  "new_sock sk \<longleftrightarrow> unused_sock sk \<and> sk_socket sk \<and> \<not> sk_file sk \<and> sk_refcnt sk = 1 \<and> \<not> encap_destroy sk"

definition socket_layer :: "kenv \<Rightarrow> bool" where
  "socket_layer E \<longleftrightarrow> (\<forall>f p sk. sock_create_kern E f p = Inr sk \<longrightarrow> new_sock sk) \<and>
     (\<forall>a sk. new_sock sk \<longrightarrow> new_sock (snd (kernel_bind E a sk)) \<and> new_sock (kernel_connect E a sk))"

definition put_sock :: "ptr \<Rightarrow> sock \<Rightarrow> kst \<Rightarrow> kst" where
  "put_sock a sk st = st\<lparr>k_world := (k_world st)\<lparr>socks := (socks (k_world st))(a \<mapsto> sk)\<rparr>\<rparr>"

lemma put_sock_inv:
  assumes inv: "inv E X st" and a: "a < k_next st" "socks (k_world st) a = None" and sk: "sk_user_data sk = None"
  shows "inv E X (put_sock a sk st)" (is "inv E X ?st")
proof (rule invI)
  have rest: "k_sessions ?st = k_sessions st" "k_tunnels ?st = k_tunnels st" "k_nets ?st = k_nets st"
    "l2tp_wq ?st = l2tp_wq st" "k_rcu ?st = k_rcu st" "k_wskbs ?st = k_wskbs st" "k_next ?st = k_next st"
    "l2tp_tunnel_count ?st = l2tp_tunnel_count st" "l2tp_session_count ?st = l2tp_session_count st"
    "socks (k_world ?st) = (socks (k_world st))(a \<mapsto> sk)" "devs (k_world ?st) = devs (k_world st)"
    by (simp_all add: put_sock_def)
  have same: "sess_of ?st = sess_of st" "in_tunnel ?st = in_tunnel st" "inflight ?st = inflight st"
    "is_linked ?st = is_linked st" "v3_linked ?st = v3_linked st" "tunnels_in ?st = tunnels_in st"
    using view_same [of ?st st] by (simp_all add: rest)
  show "tunnel_ok E X ?st tp t" if "k_tunnels ?st tp = Some t" for tp t
    using inv_tunnel [OF inv, of tp t] that by (simp add: tunnel_ok_def same rest)
  show "\<exists>sk. socks (k_world ?st) b = Some sk \<and> tsock_ok X ?st tp b sk" if "k_tunnels ?st tp = Some t" "t_sock t = Some b" for tp t b
    using inv_tsock [OF inv, of tp t b] that a by (auto simp: tsock_ok_def same rest)
  show "user_ok ?st b u x" if "socks (k_world ?st) b = Some u" "sk_user_data u = Some x" for b u x
    using inv_user [OF inv, of b u x] that sk by (auto simp: user_ok_def rest split: if_splits)
  show "session_ok X ?st p s" if "k_sessions ?st p = Some s" for p s
  proof -
    have "ppp_ok X (k_world ?st) l p s" if "ppp_ok X (k_world st) l p s" for l
      using that by (rule ppp_ok_same) (use a in \<open>auto simp: rest\<close>)
    moreover have "eth_ok (k_world ?st) p s = eth_ok (k_world st) p s" by (simp add: eth_ok_def rest)
    ultimately show ?thesis using inv_session [OF inv, of p s] that unfolding session_ok_def same rest(1,2) by blast
  qed
  show "\<exists>s. k_sessions ?st (eth_session dev) = Some s \<and> priv s = PrivEth (Some d)" if "devs (k_world ?st) d = Some dev" for d dev
    using inv_dev [OF inv, of d dev] that by (simp add: rest)
  show "net_ok E ?st m" for m using inv_net [OF inv, of m] by (simp add: net_ok_def same rest)
  show "fresh_ok ?st" using inv_rest(1) [OF inv] a by (auto simp: fresh_ok_def rest)
  show "queues_ok ?st" using inv_rest(2) [OF inv] by (simp add: queues_ok_def rest)
  show "counts_ok ?st" using inv_rest(3) [OF inv] by (simp add: counts_ok_def rest)
qed

lemma put_new_sock_inv:
  assumes inv: "inv E X st" and sk: "sk_user_data sk = None"
  shows "inv E X (put_sock (k_next st) sk (st\<lparr>k_next := k_next st + 1\<rparr>))"
proof -
  have i: "inv E X (st\<lparr>k_next := k_next st + 1\<rparr>)" by (rule inv_next [OF inv]) simp
  have "socks (k_world st) (k_next st) = None" using inv_rest(1) [OF inv] by (simp add: fresh_ok_def)
  then show ?thesis by (intro put_sock_inv [OF i _ _ sk]) simp_all
qed

text \<open>Releasing a socket no tunnel uses.\<close>

lemma inv_unused_upd:
  assumes inv: "inv E X st" and sk: "socks (k_world st) a = Some sk" "unused_sock sk" and f: "unused_sock (f sk)"
  shows "inv E X (st\<lparr>k_world := upd_sock a f (k_world st)\<rparr>)"
proof -
  have "put_sock a (f sk) (drop_sock a st) = st\<lparr>k_world := upd_sock a f (k_world st)\<rparr>"
    using sk(1) by (simp add: put_sock_def drop_sock_def upd_sock_def)
  moreover have "loose_sock st a"
  proof -
    have "t_sock t \<noteq> Some a" if "k_tunnels st tp = Some t" for tp t
      using inv_tsock [OF inv that, of a] sk by (auto simp: tsock_ok_def unused_sock_def)
    moreover have "ppp_sock_of s \<noteq> Some a" if "k_sessions st p = Some s" for p s
      using inv_session [OF inv that] sk by (auto simp: session_ok_def no_hooks_def eth_ok_def ppp_ok_def ppp_sock_of_def unused_sock_def)
    ultimately show ?thesis by (simp add: loose_sock_def)
  qed
  moreover have "a < k_next st" using inv_rest(1) [OF inv] sk(1) by (auto simp: fresh_ok_def not_le [symmetric])
  ultimately show ?thesis using put_sock_inv [OF drop_sock_inv [OF inv], of a a "f sk"] f by (simp add: unused_sock_def)
qed

definition has_unused :: "kst \<Rightarrow> ptr \<Rightarrow> bool" where
  "has_unused st a \<longleftrightarrow> (\<exists>sk. socks (k_world st) a = Some sk \<and> unused_sock sk)"

lemma unused_upd:
  assumes inv: "inv E X st" and a: "has_unused st a" and f: "\<And>sk. unused_sock sk \<Longrightarrow> unused_sock (f sk)"
  shows "inv E X (st\<lparr>k_world := upd_sock a f (k_world st)\<rparr>)" and "has_unused (st\<lparr>k_world := upd_sock a f (k_world st)\<rparr>) a"
  using inv_unused_upd [OF inv] a f by (auto simp: has_unused_def socks_upd_sock)

lemma unused_refs:
  assumes inv: "inv E X st" and a: "has_unused st a"
  shows "inv E X (st\<lparr>k_world := adj_refs (Some a) k (k_world st)\<rparr>)" and "has_unused (st\<lparr>k_world := adj_refs (Some a) k (k_world st)\<rparr>) a"
  unfolding adj_refs_def option.case by (rule unused_upd [OF inv a], simp add: unused_sock_def)+

lemma unused_alive: "has_unused st a \<Longrightarrow> socks (k_world st) a \<noteq> None"
  by (auto simp: has_unused_def)

lemma hold_eff: "socks (k_world st) a \<noteq> None \<Longrightarrow> on_world (sock_hold (Some a)) st = Inr (st\<lparr>k_world := adj_refs (Some a) 1 (k_world st)\<rparr>)"
  by (simp add: sock_hold_eff)

lemma put_eff: "socks (k_world st) a \<noteq> None \<Longrightarrow> on_world (sock_put (Some a)) st = Inr (st\<lparr>k_world := adj_refs (Some a) (- 1) (k_world st)\<rparr>)"
  by (simp add: sock_put_eff)

lemma unused_to_tunnel:
  assumes "has_unused st a"
  shows "l2tp_sock_to_tunnel (Some a) st = Inr (None, st)"
proof -
  let ?st1 = "st\<lparr>k_world := adj_refs (Some a) 1 (k_world st)\<rparr>"
  obtain sk where sk: "socks (k_world st) a = Some sk" "sk_user_data sk = None" using assms by (auto simp: has_unused_def unused_sock_def)
  have "on_world (sock_put (Some a)) ?st1 = Inr st" using put_eff [of ?st1 a] sk by (simp add: socks_adj_refs del: on_world_Inr)
  then show ?thesis using sk hold_eff [of st a] by (simp add: l2tp_sock_to_tunnel_def socks_adj_refs del: on_world_Inr)
qed

lemma unused_ip_destroy:
  assumes inv: "inv E X st" and a: "has_unused st a"
  obtains st' where "l2tp_ip_destroy_sock E a st = Inr st'" and "inv E X st'" and "has_unused st' a"
proof -
  obtain sk where sk: "socks (k_world st) a = Some sk" using a by (auto simp: has_unused_def)
  let ?st = "st\<lparr>k_world := upd_sock a (\<lambda>x. x\<lparr>sk_write_queue := []\<rparr>) (k_world st)\<rparr>"
  have "inv E X ?st" "has_unused ?st a" using unused_upd [OF inv a, of "\<lambda>x. x\<lparr>sk_write_queue := []\<rparr>"] by (simp_all add: unused_sock_def)
  then show thesis using unused_to_tunnel [OF a] sk
    by (intro that [of "st\<lparr>k_trace := k_trace st @ map Kfree_skb (rev (sk_write_queue sk)),
          k_world := upd_sock a (\<lambda>x. x\<lparr>sk_write_queue := []\<rparr>) (k_world st)\<rparr>"])
       (simp_all add: l2tp_ip_destroy_sock_def has_unused_def)
qed

lemma release_unused_inv:
  assumes inv: "inv E X st" and sk: "socks (k_world st) a = Some sk" "unused_sock sk" "\<not> encap_destroy sk"
  obtains st' where "sk_release_kernel E a st = Inr st'" and "inv E X st'" and "has_unused st' a"
proof (cases "sk_socket sk")
  case False
  then show thesis using sk inv by (intro that [of st]) (simp_all add: sk_release_kernel_def has_unused_def)
next
  case True
  have a: "has_unused st a" using sk by (simp add: has_unused_def)
  let ?st1 = "st\<lparr>k_world := adj_refs (Some a) 1 (k_world st)\<rparr>"
  note i1 = unused_refs [OF inv a, of 1]
  obtain st2 where st2: "(if sk_protocol sk = IPPROTO_L2TP then l2tp_ip_destroy_sock E a ?st1 else Inr ?st1) = Inr st2" "inv E X st2" "has_unused st2 a"
    using unused_ip_destroy [OF i1] i1 by metis
  let ?st3 = "st2\<lparr>k_world := upd_sock a (\<lambda>x. x\<lparr>sk_socket := False, sk_dead := True\<rparr>) (k_world st2)\<rparr>"
  have i3: "inv E X ?st3" "has_unused ?st3 a"
    using unused_upd [OF st2(2,3), of "\<lambda>x. x\<lparr>sk_socket := False, sk_dead := True\<rparr>"] by (simp_all add: unused_sock_def)
  let ?st4 = "?st3\<lparr>k_world := adj_refs (Some a) (- 1) (k_world ?st3)\<rparr>"
  note i4 = unused_refs [OF i3, of "- 1"]
  let ?st5 = "?st4\<lparr>k_world := adj_refs (Some a) (- 1) (k_world ?st4)\<rparr>"
  note i5 = unused_refs [OF i4, of "- 1"]
  have "bind_res (on_world (sock_put (Some a)) ?st3) (on_world (sock_put (Some a))) = Inr ?st5"
    unfolding put_eff [OF unused_alive [OF i3(2)]] bind_res_simps by (rule put_eff [OF unused_alive [OF i4(2)]])
  then have "sk_release_kernel E a st = Inr ?st5"
    using sk True st2(1) hold_eff [OF unused_alive [OF a]]
    by (cases "sk_protocol sk = IPPROTO_L2TP") (simp_all add: sk_release_kernel_def del: on_world_Inr)
  then show thesis by (rule that [OF _ i5])
qed

section \<open>New tunnels\<close>

text \<open>The state after a tunnel has been set up on the socket \<open>a\<close>.\<close>

definition tunnel_created :: "l2tp_tunnel \<Rightarrow> ptr \<Rightarrow> (sock \<Rightarrow> sock) \<Rightarrow> kst \<Rightarrow> kst" where
  "tunnel_created t a f st = st\<lparr>k_next := k_next st + 1, k_world := upd_sock a f (k_world st), l2tp_tunnel_count := l2tp_tunnel_count st + 1,
     k_tunnels := (k_tunnels st)(k_next st \<mapsto> t), k_nets := (k_nets st)(l2tp_net t :=
       (k_nets st (l2tp_net t))\<lparr>l2tp_tunnel_list := k_next st # l2tp_tunnel_list (k_nets st (l2tp_net t))\<rparr>)\<rparr>"

definition tunnel_new_ok :: "kenv \<Rightarrow> (href \<Rightarrow> nat) \<Rightarrow> kst \<Rightarrow> l2tp_tunnel \<Rightarrow> ptr \<Rightarrow> sock \<Rightarrow> (sock \<Rightarrow> sock) \<Rightarrow> bool" where
  "tunnel_new_ok E X st t a sk f \<longleftrightarrow> inv E X st \<and> X (TunRef (k_next st)) = 0 \<and> X (SockRef a) = 0 \<and>
     socks (k_world st) a = Some sk \<and> sk_user_data sk = None \<and> sk_counted (sk_file sk) (if sk_socket sk then 1 else 0) (sk_refcnt sk) \<and>
     sk_user_data (f sk) = Some (k_next st) \<and> sk_destruct (f sk) = Some L2tp_tunnel_destruct \<and> sk_refcnt (f sk) = sk_refcnt sk \<and>
     sk_socket (f sk) = sk_socket sk \<and> sk_file (f sk) = sk_file sk \<and> t_magic t = L2TP_TUNNEL_MAGIC \<and> session_hlist t = replicate L2TP_HASH_SIZE [] \<and>
     t_ref_count t = 1 \<and> t_sock t = Some a"

lemma inflight_unused:
  assumes inv: "inv E X st" and a: "\<And>tp t. k_tunnels st tp = Some t \<Longrightarrow> t_sock t \<noteq> Some a"
  shows "inflight st a = 0"
proof -
  have "skb_sk skb \<noteq> Some a" if "skb \<in> set (k_wskbs st)" for skb
  proof -
    have "\<exists>b x u. skb_sk skb = Some b \<and> k_tunnels st x = Some u \<and> t_sock u = Some b"
      using inv_rest(2) [OF inv] that unfolding queues_ok_def by blast
    then show ?thesis using a by auto
  qed
  then show ?thesis by (simp add: inflight_def filter_empty_conv)
qed

lemma linked_replicate [simp]: "linked (replicate n []) = {}"
  by (simp add: linked_def)

lemma tunnel_created_inv:
  assumes new: "tunnel_new_ok E X st t a sk f"
  shows "inv E X (tunnel_created t a f st)" (is "inv E X ?st")
proof (rule invI)
  let ?p = "k_next st"
  have inv: "inv E X st" and X: "X (TunRef ?p) = 0" "X (SockRef a) = 0" and sk: "socks (k_world st) a = Some sk" "sk_user_data sk = None"
    using new by (simp_all add: tunnel_new_ok_def)
  have t: "t_magic t = L2TP_TUNNEL_MAGIC" "session_hlist t = replicate 16 []" "t_ref_count t = 1" "t_sock t = Some a"
    using new by (simp_all add: tunnel_new_ok_def)
  have fr: "fresh_ok st" by (rule inv_rest(1) [OF inv])
  have qok: "queues_ok st" by (rule inv_rest(2) [OF inv])
  have np: "k_tunnels st ?p = None" "k_sessions st ?p = None" using fr by (simp_all add: fresh_ok_def)
  have ap: "a < ?p" using fr sk(1) by (auto simp: fresh_ok_def not_le [symmetric])
  have noa: "t_sock u \<noteq> Some a" if "k_tunnels st x = Some u" for x u using inv_tsock [OF inv that, of a] sk by (auto simp: tsock_ok_def)
  have rest: "k_sessions ?st = k_sessions st" "k_tunnels ?st = (k_tunnels st)(?p \<mapsto> t)"
    "l2tp_wq ?st = l2tp_wq st" "k_rcu ?st = k_rcu st" "k_wskbs ?st = k_wskbs st" "k_next ?st = ?p + 1"
    "l2tp_tunnel_count ?st = l2tp_tunnel_count st + 1" "l2tp_session_count ?st = l2tp_session_count st"
    "socks (k_world ?st) = (socks (k_world st))(a \<mapsto> f sk)" "devs (k_world ?st) = devs (k_world st)"
    "l2tp_session_hlist (k_nets ?st n) = l2tp_session_hlist (k_nets st n)"
    "l2tp_tunnel_list (k_nets ?st n) = (if n = l2tp_net t then ?p # l2tp_tunnel_list (k_nets st n) else l2tp_tunnel_list (k_nets st n))" for n
    using sk(1) by (simp_all add: tunnel_created_def socks_upd_sock)
  have same: "sess_of ?st = sess_of st" "inflight ?st = inflight st" by (simp_all add: sess_of_def inflight_def rest fun_eq_iff)
  have it: "in_tunnel ?st = in_tunnel st" using np t by (auto simp: in_tunnel_def rest fun_eq_iff)
  have v3: "v3_linked ?st n = v3_linked st n" for n
  proof -
    have "(k_tunnels ?st x = Some u \<and> l2tp_net u = n \<and> version u \<noteq> L2TP_HDR_VER_2 \<and> q \<in> linked (session_hlist u)) =
        (k_tunnels st x = Some u \<and> l2tp_net u = n \<and> version u \<noteq> L2TP_HDR_VER_2 \<and> q \<in> linked (session_hlist u))" for x u q
      using np t by (cases "x = ?p") (auto simp: rest)
    then show ?thesis unfolding v3_linked_def by (intro Collect_cong ex_cong1)
  qed
  have ti: "tunnels_in ?st n = (if n = l2tp_net t then insert ?p (tunnels_in st n) else tunnels_in st n)" for n
    using np t by (auto simp: tunnels_in_def rest)
  have s0: "sess_of st ?p = {}"
  proof -
    have "s_tunnel s \<noteq> Some ?p" if "k_sessions st p = Some s" for p s using inv_session [OF inv that] np by (auto simp: session_ok_def)
    then show ?thesis by (auto simp: sess_of_def)
  qed
  have q0: "count_list (l2tp_wq st) ?p = 0" using qok np by (auto simp: count_list_0_iff queues_ok_def)
  show "tunnel_ok E X ?st x u" if "k_tunnels ?st x = Some u" for x u
  proof (cases "x = ?p")
    case True
    have "table_ok (k_sessions st) (l2tp_session_id_hash E) 16 (replicate 16 [])" by (simp add: table_ok_def)
    then have "tunnel_ok E X ?st ?p t" using t s0 q0 X by (simp add: tunnel_ok_def same rest)
    then show ?thesis using that True by (simp add: rest)
  next
    case False
    then show ?thesis using inv_tunnel [OF inv, of x u] that by (simp add: tunnel_ok_def same rest)
  qed
  show "\<exists>sk. socks (k_world ?st) b = Some sk \<and> tsock_ok X ?st x b sk" if u: "k_tunnels ?st x = Some u" "t_sock u = Some b" for x u b
  proof (cases "x = ?p")
    case True
    then have "b = a" using u t by (auto simp: rest)
    moreover have "tsock_ok X ?st ?p a (f sk)"
      using new s0 X inflight_unused [OF inv noa] by (simp add: tsock_ok_def same tunnel_new_ok_def)
    ultimately show ?thesis using True by (simp add: rest)
  next
    case False
    then have "k_tunnels st x = Some u" using u by (simp add: rest)
    then show ?thesis using inv_tsock [OF inv _ u(2)] noa [of x u] u(2) by (simp add: tsock_ok_def same rest)
  qed
  show "user_ok ?st b v x" if v: "socks (k_world ?st) b = Some v" "sk_user_data v = Some x" for b v x
  proof (cases "b = a")
    case True
    then have "x = ?p" "sk_destruct v = Some L2tp_tunnel_destruct" using v new by (auto simp: rest tunnel_new_ok_def)
    then show ?thesis using t True by (simp add: user_ok_def rest)
  next
    case False
    then have "user_ok st b v x" using inv_user [OF inv, of b v x] v by (simp add: rest)
    then show ?thesis using np by (auto simp: user_ok_def rest)
  qed
  show "session_ok X ?st p s" if "k_sessions ?st p = Some s" for p s
  proof -
    have old: "k_sessions st p = Some s" using that by (simp add: rest)
    have "ppp_ok X (k_world ?st) l p s" if ppp: "ppp_ok X (k_world st) l p s" for l
    proof -
      have "ppp_sock_of s \<noteq> Some a" using ppp sk by (auto simp: ppp_ok_def)
      then show ?thesis using ppp by (intro ppp_ok_same [OF ppp]) (auto simp: rest)
    qed
    moreover have "eth_ok (k_world ?st) p s = eth_ok (k_world st) p s" by (simp add: eth_ok_def rest)
    moreover have "k_tunnels ?st x \<noteq> None" if "k_tunnels st x \<noteq> None" for x using that by (simp add: rest)
    moreover have "is_linked ?st p s = is_linked st p s" by (simp add: is_linked_def it)
    ultimately show ?thesis using inv_session [OF inv old] unfolding session_ok_def by auto
  qed
  show "\<exists>s. k_sessions ?st (eth_session dev) = Some s \<and> priv s = PrivEth (Some d)" if "devs (k_world ?st) d = Some dev" for d dev
    using inv_dev [OF inv, of d dev] that by (simp add: rest)
  show "net_ok E ?st m" for m
  proof -
    have "?p \<notin> tunnels_in st m" using np by (simp add: tunnels_in_def)
    then show ?thesis using inv_net [OF inv, of m] by (auto simp: net_ok_def v3 ti rest)
  qed
  show "fresh_ok ?st" using fr ap np by (auto simp: fresh_ok_def rest)
  have "{x. \<exists>u. k_tunnels ?st x = Some u \<and> t_ref_count u = 0} = {x. \<exists>u. k_tunnels st x = Some u \<and> t_ref_count u = 0}"
    using np t by (auto simp: rest)
  moreover have "\<exists>b x u. skb_sk skb = Some b \<and> k_tunnels ?st x = Some u \<and> t_sock u = Some b" if "skb \<in> set (k_wskbs st)" for skb
  proof -
    have "\<exists>b x u. skb_sk skb = Some b \<and> k_tunnels st x = Some u \<and> t_sock u = Some b" using qok that unfolding queues_ok_def by blast
    then obtain b x u where b: "skb_sk skb = Some b" "k_tunnels st x = Some u" "t_sock u = Some b" by blast
    then have "x \<noteq> ?p" using np by auto
    then show ?thesis using b by (auto simp: rest)
  qed
  ultimately show "queues_ok ?st" using qok by (simp add: queues_ok_def rest)
  have "{x. \<exists>u. k_tunnels ?st x = Some u \<and> t_sock u \<noteq> None} = insert ?p {x. \<exists>u. k_tunnels st x = Some u \<and> t_sock u \<noteq> None}"
    using t np by (auto simp: rest)
  moreover have "finite {x. \<exists>u. k_tunnels st x = Some u \<and> t_sock u \<noteq> None}"
    using fr by (auto simp: fresh_ok_def dom_def intro: finite_subset [rotated])
  ultimately show "counts_ok ?st" using inv_rest(3) [OF inv] np by (simp add: counts_ok_def rest)
qed

section \<open>\<^verbatim>\<open>l2tp_tunnel_create\<close>\<close>

definition quiet :: "href \<Rightarrow> nat" where
  "quiet r = 0"

lemma prep_sock_simps [simp]:
  "sk_user_data (prep_sock enc tp sk) = Some tp" "sk_destruct (prep_sock enc tp sk) = Some L2tp_tunnel_destruct"
  "sk_refcnt (prep_sock enc tp sk) = sk_refcnt sk" "sk_socket (prep_sock enc tp sk) = sk_socket sk" "sk_file (prep_sock enc tp sk) = sk_file sk"
  by (simp_all add: prep_sock_def Let_def)

definition sock_at :: "kst \<Rightarrow> ptr \<Rightarrow> bool \<Rightarrow> bool \<Rightarrow> bool" where
  "sock_at st a file soc \<longleftrightarrow> (\<exists>sk. socks (k_world st) a = Some sk \<and> sk_file sk = file \<and> sk_socket sk = soc)"

lemma tunnel_on_sock_inv:
  assumes inv: "inv E quiet st" and sk: "socks (k_world st) a = Some sk" "sk_counted (sk_file sk) (if sk_socket sk then 1 else 0) (sk_refcnt sk)"
  obtains r tp st' where "tunnel_on_sock E net fd ver tid ptid cfg a st = Inr (r, tp, st')" and "inv E quiet st'"
    and "sock_at st' a (sk_file sk) (sk_socket sk)"
proof -
  define enc where "enc = (case cfg of None \<Rightarrow> L2TP_ENCAPTYPE_UDP | Some c \<Rightarrow> tcfg_encap c)"
  let ?bad = "enc = L2TP_ENCAPTYPE_UDP \<and> sk_protocol sk \<noteq> IPPROTO_UDP \<or> enc = L2TP_ENCAPTYPE_IP \<and> sk_protocol sk \<noteq> IPPROTO_L2TP \<or>
    sk_user_data sk \<noteq> None \<or> \<not> kzalloc_ok E Alloc_tunnel"
  let ?t = "new_tunnel E net fd ver tid ptid cfg enc a sk" and ?f = "prep_sock enc (k_next st)"
  have at: "sock_at st a (sk_file sk) (sk_socket sk)" using sk(1) by (simp add: sock_at_def)
  consider (bad) ?bad | (nostats) "\<not> ?bad" "\<not> kzalloc_ok E Alloc_tunnel_stats" | (ok) "\<not> ?bad" "kzalloc_ok E Alloc_tunnel_stats" by blast
  then show thesis
  proof cases
    case bad
    then have "\<exists>r tp. tunnel_on_sock E net fd ver tid ptid cfg a st = Inr (r, tp, st)"
      using sk(1) by (auto simp: tunnel_on_sock_def Let_def enc_def [symmetric])
    then show thesis using that inv at by blast
  next
    case nostats
    then have "tunnel_on_sock E net fd ver tid ptid cfg a st = Inr (- ENOMEM, Some (k_next st), st\<lparr>k_next := k_next st + 1\<rparr>)"
      using sk(1) by (auto simp: tunnel_on_sock_def Let_def enc_def [symmetric])
    moreover have "inv E quiet (st\<lparr>k_next := k_next st + 1\<rparr>)" by (rule inv_next [OF inv]) simp
    moreover have "sock_at (st\<lparr>k_next := k_next st + 1\<rparr>) a (sk_file sk) (sk_socket sk)" using at by (simp add: sock_at_def)
    ultimately show thesis by (rule that)
  next
    case ok
    have "l2tp_net ?t = net" by (simp add: new_tunnel_def)
    then have eq: "tunnel_on_sock E net fd ver tid ptid cfg a st = Inr (0, Some (k_next st), tunnel_created ?t a ?f st)"
      using sk(1) ok by (auto simp: tunnel_on_sock_def Let_def enc_def [symmetric] tunnel_created_def set_tunnel_def upd_net_def)
    have "tunnel_new_ok E quiet st ?t a sk ?f"
      using inv sk ok by (simp add: tunnel_new_ok_def quiet_def new_tunnel_def zero_tunnel_def)
    then have i: "inv E quiet (tunnel_created ?t a ?f st)" by (rule tunnel_created_inv)
    have "sock_at (tunnel_created ?t a ?f st) a (sk_file sk) (sk_socket sk)" using sk(1)
      by (simp add: sock_at_def tunnel_created_def socks_upd_sock)
    with eq i show thesis by (rule that)
  qed
qed

text \<open>The label \<^verbatim>\<open>err\<close> gives a file back.\<close>

lemma inv_file_refs:
  assumes "inv E X st"
  shows "inv E X (st\<lparr>k_world := upd_sock a (\<lambda>x. x\<lparr>file_refs := g x\<rparr>) (k_world st)\<rparr>)"
  by (rule inv_sock [OF assms]) (simp_all add: sock_step_def)

lemma tunnel_create_done_inv:
  assumes inv: "inv E X st" and a: "sock_at st a fl soc" "fl \<longrightarrow> soc"
  obtains st' where "tunnel_create_done (Some a) (r, tp, st) = Inr (r, tp, st')" and "inv E X st'"
proof -
  obtain sk where sk: "socks (k_world st) a = Some sk" "sk_file sk = fl" "sk_socket sk = soc" using a(1) by (auto simp: sock_at_def)
  show thesis
  proof (cases fl)
    case False
    then show thesis using sk inv by (intro that [of st]) (simp_all add: tunnel_create_done_def)
  next
    case True
    then show thesis using sk inv a(2) inv_file_refs [OF inv, of a "\<lambda>x. file_refs x - 1"]
      by (intro that [of "st\<lparr>k_world := upd_sock a (\<lambda>x. x\<lparr>file_refs := file_refs x - 1\<rparr>) (k_world st)\<rparr>"])
         (simp_all add: tunnel_create_done_def sockfd_put_def on_world_def)
  qed
qed

lemma sock_create_inv:
  assumes L: "socket_layer E" and inv: "inv E X st" and fin: "\<And>sk. new_sock sk \<Longrightarrow> new_sock (fin sk)"
  obtains (fail) e st' where "sock_create_bound E net fam proto la pa fin st = Inr (e, None, st')" and "inv E X st'"
  | (ok) a sk st' where "sock_create_bound E net fam proto la pa fin st = Inr (0, Some a, st')" and "inv E X st'"
      and "socks (k_world st') a = Some sk" and "new_sock sk"
proof (cases "sock_create_kern E fam proto")
  case (Inl e)
  then show thesis using inv by (intro fail [of e st]) (simp_all add: sock_create_bound_def)
next
  case (Inr sk0)
  have n0: "new_sock sk0" using L Inr by (auto simp: socket_layer_def)
  let ?sk0 = "sk0\<lparr>sk_net := net, freebind := True\<rparr>"
  have n1: "new_sock ?sk0" using n0 by (simp add: new_sock_def unused_sock_def)
  obtain e sk1 where b: "kernel_bind E la ?sk0 = (e, sk1)" by (cases "kernel_bind E la ?sk0")
  then have n2: "new_sock sk1" using L n1 unfolding socket_layer_def by (metis snd_conv)
  let ?put = "\<lambda>sk. put_sock (k_next st) sk (st\<lparr>k_next := k_next st + 1\<rparr>)"
  have iput: "inv E X (?put sk)" if "new_sock sk" for sk
    using put_new_sock_inv [OF inv, of sk] that by (simp add: new_sock_def unused_sock_def)
  have eq: "sock_create_bound E net fam proto la pa fin st =
      (if e < 0 then bind_res (sk_release_kernel E (k_next st) (?put (sk1\<lparr>sk_shutdown := True\<rparr>))) (\<lambda>st1. Inr (e, None, st1))
       else Inr (0, Some (k_next st), ?put (fin (kernel_connect E pa (sk1\<lparr>force_daddr_on_connect := True\<rparr>)))))"
    using Inr b by (simp add: sock_create_bound_def Let_def put_sock_def)
  show thesis
  proof (cases "e < 0")
    case True
    have n3: "new_sock (sk1\<lparr>sk_shutdown := True\<rparr>)" using n2 by (simp add: new_sock_def unused_sock_def)
    obtain st' where "sk_release_kernel E (k_next st) (?put (sk1\<lparr>sk_shutdown := True\<rparr>)) = Inr st'" "inv E X st'"
      by (rule release_unused_inv [OF iput [OF n3], of "k_next st" "sk1\<lparr>sk_shutdown := True\<rparr>"])
         (use n3 in \<open>simp_all add: put_sock_def new_sock_def\<close>)
    then show thesis using eq True by (intro fail [of e st']) simp_all
  next
    case False
    have "new_sock (sk1\<lparr>force_daddr_on_connect := True\<rparr>)" using n2 by (simp add: new_sock_def unused_sock_def)
    then have n3: "new_sock (fin (kernel_connect E pa (sk1\<lparr>force_daddr_on_connect := True\<rparr>)))" using L fin by (simp add: socket_layer_def)
    have at: "socks (k_world (?put sk)) (k_next st) = Some sk" for sk by (simp add: put_sock_def)
    show thesis using eq False by (intro ok [OF _ iput [OF n3] at n3]) simp
  qed
qed

lemma tunnel_sock_create_inv:
  assumes L: "socket_layer E" and inv: "inv E X st"
  obtains (fail) e st' where "l2tp_tunnel_sock_create E net tid ptid cfg st = Inr (e, None, st')" and "inv E X st'"
  | (ok) a sk st' where "l2tp_tunnel_sock_create E net tid ptid cfg st = Inr (0, Some a, st')" and "inv E X st'"
      and "socks (k_world st') a = Some sk" and "new_sock sk"
proof -
  let ?noc = "\<lambda>sk. if use_udp_checksums cfg then sk else sk\<lparr>sk_no_check := UDP_CSUM_NOXMIT\<rparr>"
  have fins: "new_sock (?noc sk)" if "new_sock sk" for sk using that by (simp add: new_sock_def unused_sock_def)
  have any: thesis if eq: "\<exists>fam proto la pa. l2tp_tunnel_sock_create E net tid ptid cfg st = sock_create_bound E net fam proto la pa fin st"
      and fin: "\<And>sk. new_sock sk \<Longrightarrow> new_sock (fin sk)" for fin
  proof -
    obtain fam proto la pa where "l2tp_tunnel_sock_create E net tid ptid cfg st = sock_create_bound E net fam proto la pa fin st"
      using eq by blast
    then show thesis using fail ok
      by (cases rule: sock_create_inv [OF L inv fin, where net = net and fam = fam and proto = proto and la = la and pa = pa]) auto
  qed
  consider (udp) "tcfg_encap cfg = L2TP_ENCAPTYPE_UDP" | (ip) "tcfg_encap cfg \<noteq> L2TP_ENCAPTYPE_UDP" "tcfg_encap cfg = L2TP_ENCAPTYPE_IP"
    | (other) "tcfg_encap cfg \<noteq> L2TP_ENCAPTYPE_UDP" "tcfg_encap cfg \<noteq> L2TP_ENCAPTYPE_IP" by blast
  then show thesis
  proof cases
    case udp
    then have "\<exists>fam proto la pa. l2tp_tunnel_sock_create E net tid ptid cfg st = sock_create_bound E net fam proto la pa ?noc st"
      by (cases "local_ip6 cfg"; cases "peer_ip6 cfg") (simp add: l2tp_tunnel_sock_create_def Let_def, blast)+
    then show thesis using fins by (rule any)
  next
    case ip
    then have "\<exists>fam proto la pa. l2tp_tunnel_sock_create E net tid ptid cfg st = sock_create_bound E net fam proto la pa (\<lambda>sk. sk) st"
      by (cases "local_ip6 cfg"; cases "peer_ip6 cfg") (simp add: l2tp_tunnel_sock_create_def Let_def, blast)+
    then show thesis by (rule any)
  next
    case other
    then show thesis using inv by (intro fail [of "- EINVAL" st]) (simp_all add: l2tp_tunnel_sock_create_def Let_def)
  qed
qed

text \<open>A descriptor of the caller names a socket that its file keeps alive.\<close>

definition fd_ok :: "kenv \<Rightarrow> int \<Rightarrow> kst \<Rightarrow> bool" where
  "fd_ok E fd st \<longleftrightarrow> (\<forall>a. sockfd_lookup E fd = Some a \<longrightarrow> (\<exists>sk. socks (k_world st) a = Some sk \<and> sk_file sk \<and> sk_socket sk \<and> 1 \<le> sk_refcnt sk))"

lemma tunnel_create_inv:
  assumes L: "socket_layer E" and inv: "inv E quiet st" and fd: "fd < 0 \<longrightarrow> cfg \<noteq> None" "fd \<ge> 0 \<longrightarrow> fd_ok E fd st"
  obtains r tp st' where "l2tp_tunnel_create E net fd ver tid ptid cfg st = Inr (r, tp, st')" and "inv E quiet st'"
proof (cases "fd < 0")
  case True
  then obtain c where c: "cfg = Some c" using fd(1) by auto
  show thesis
  proof (cases rule: tunnel_sock_create_inv [OF L inv, where net = net and tid = tid and ptid = ptid and cfg = c])
    case (1 e st')
    then show thesis using True c by (intro that [of e None st']) (simp_all add: l2tp_tunnel_create_def)
  next
    case (2 a sk st')
    have ref: "sk_counted (sk_file sk) (if sk_socket sk then 1 else 0) (sk_refcnt sk)" using 2(4) by (simp add: new_sock_def sk_counted_def)
    obtain r tp st2 where t: "tunnel_on_sock E net fd ver tid ptid cfg a st' = Inr (r, tp, st2)" "inv E quiet st2"
      "sock_at st2 a (sk_file sk) (sk_socket sk)" by (rule tunnel_on_sock_inv [OF 2(2,3) ref])
    obtain st3 where "tunnel_create_done (Some a) (r, tp, st2) = Inr (r, tp, st3)" "inv E quiet st3"
      by (rule tunnel_create_done_inv [OF t(2,3)]) (use 2(4) in \<open>simp_all add: new_sock_def\<close>)
    then show thesis using True c 2(1) t(1) by (intro that [of r tp st3]) (simp_all add: l2tp_tunnel_create_def)
  qed
next
  case False
  show thesis
  proof (cases "sockfd_lookup E fd")
    case None
    then show thesis using False inv by (intro that [of "- EBADF" None st]) (simp_all add: l2tp_tunnel_create_def)
  next
    case (Some a)
    then obtain sk where sk: "socks (k_world st) a = Some sk" "sk_file sk" "sk_socket sk" "1 \<le> sk_refcnt sk" using fd(2) False by (auto simp: fd_ok_def)
    let ?st1 = "st\<lparr>k_world := upd_sock a (\<lambda>x. x\<lparr>file_refs := file_refs x + 1\<rparr>) (k_world st)\<rparr>"
    let ?sk1 = "sk\<lparr>file_refs := file_refs sk + 1\<rparr>"
    have i1: "inv E quiet ?st1" by (rule inv_file_refs [OF inv])
    have s1: "socks (k_world ?st1) a = Some ?sk1" using sk by (simp add: socks_upd_sock)
    have at: "sock_at ?st1 a (sk_file ?sk1) (sk_socket ?sk1)" using s1 by (simp add: sock_at_def)
    obtain r tp st2 where t: "(if sk_net sk \<noteq> net then Inr (- EINVAL, None, ?st1) else tunnel_on_sock E net fd ver tid ptid cfg a ?st1) = Inr (r, tp, st2)"
      "inv E quiet st2" "sock_at st2 a (sk_file ?sk1) (sk_socket ?sk1)"
    proof (cases "sk_net sk = net")
      case True
      have ref: "sk_counted (sk_file ?sk1) (if sk_socket ?sk1 then 1 else 0) (sk_refcnt ?sk1)" using sk by (simp add: sk_counted_def)
      obtain r tp st2 where "tunnel_on_sock E net fd ver tid ptid cfg a ?st1 = Inr (r, tp, st2)" "inv E quiet st2"
        "sock_at st2 a (sk_file ?sk1) (sk_socket ?sk1)" by (rule tunnel_on_sock_inv [OF i1 s1 ref])
      then show thesis using True by (intro that [of r tp st2]) simp_all
    next
      case False
      then have "(if sk_net sk \<noteq> net then Inr (- EINVAL, None, ?st1) else tunnel_on_sock E net fd ver tid ptid cfg a ?st1) = Inr (- EINVAL, None, ?st1)" by simp
      then show thesis using i1 at by (rule that)
    qed
    obtain st3 where "tunnel_create_done (Some a) (r, tp, st2) = Inr (r, tp, st3)" "inv E quiet st3"
      by (rule tunnel_create_done_inv [OF t(2,3)]) (use sk in simp_all)
    then show thesis using False Some sk(1) t(1) by (intro that [of r tp st3]) (simp_all add: l2tp_tunnel_create_def Let_def)
  qed
qed

end
