(* ===== verification/L2tp_Inv_Xmit.thy ===== *)
theory L2tp_Inv_Xmit
  imports L2tp_Inv_Create
begin

unbundle bit_operations_syntax

text \<open>
  Sending keeps the invariant: \<^verbatim>\<open>l2tp_xmit_skb\<close> on a session whose header fits, and the device of
  an Ethernet pseudowire that calls it. A packet handed to IP holds a reference to the tunnel's
  socket. What sending relies on of the kernel is \<open>cow_head_ok\<close>: \<^verbatim>\<open>skb_cow_head\<close> gives the packet
  back with its data and at least the headroom that was asked for.
\<close>

section \<open>What the invariant does not mention\<close>

text \<open>Fields of a tunnel that the invariant does not mention, such as its counters and debug flags.\<close>

lemma inv_tunnel_upd:
  assumes inv: "inv E X st" and t: "k_tunnels st tp = Some t"
    and eq: "tview t' = tview t" "t_ref_count t' = t_ref_count t" "t_magic t' = t_magic t"
  shows "inv E X (set_tunnel tp t' st)" (is "inv E X ?st")
proof (rule invI)
  have tun: "k_tunnels ?st = (k_tunnels st)(tp \<mapsto> t')" by (simp add: set_tunnel_def)
  have rest: "k_sessions ?st = k_sessions st" "k_world ?st = k_world st" "k_nets ?st = k_nets st" "l2tp_wq ?st = l2tp_wq st" "k_rcu ?st = k_rcu st"
    "k_wskbs ?st = k_wskbs st" "k_next ?st = k_next st" "l2tp_tunnel_count ?st = l2tp_tunnel_count st" "l2tp_session_count ?st = l2tp_session_count st"
    by (simp_all add: set_tunnel_def)
  have t': "session_hlist t' = session_hlist t" "t_sock t' = t_sock t" using eq(1) by (simp_all add: tview_def)
  have "map_option tview (k_tunnels ?st x) = map_option tview (k_tunnels st x)" for x using t eq(1) by (simp add: tun)
  then have same: "sess_of ?st = sess_of st" "in_tunnel ?st = in_tunnel st" "inflight ?st = inflight st"
    "is_linked ?st = is_linked st" "v3_linked ?st = v3_linked st" "tunnels_in ?st = tunnels_in st"
    using view_same [of ?st st] by (simp_all add: rest)
  have bwd: "\<exists>u. k_tunnels st x = Some u \<and> t_sock u = t_sock v \<and> t_ref_count u = t_ref_count v" if "k_tunnels ?st x = Some v" for x v
    using that t t' eq(2) by (cases "x = tp") (auto simp: tun)
  have fwd: "\<exists>v. k_tunnels ?st x = Some v \<and> t_sock v = t_sock u \<and> t_ref_count v = t_ref_count u" if "k_tunnels st x = Some u" for x u
    using that t t' eq(2) by (cases "x = tp") (auto simp: tun)
  show "tunnel_ok E X ?st x u" if u: "k_tunnels ?st x = Some u" for x u
  proof (cases "x = tp")
    case True
    have "tunnel_ok E X ?st tp t'" using inv_tunnel [OF inv t] t' eq by (simp add: tunnel_ok_def same rest)
    then show ?thesis using u True by (simp add: tun)
  next
    case False
    then show ?thesis using inv_tunnel [OF inv, of x u] u by (simp add: tunnel_ok_def same rest tun)
  qed
  show "\<exists>sk. socks (k_world ?st) b = Some sk \<and> tsock_ok X ?st x b sk" if u: "k_tunnels ?st x = Some u" "t_sock u = Some b" for x u b
  proof -
    have "tsock_ok X ?st x b sk = tsock_ok X st x b sk" for sk by (simp add: tsock_ok_def same)
    then show ?thesis using bwd [OF u(1)] inv_tsock [OF inv, of x _ b] u(2) by (auto simp: rest)
  qed
  show "user_ok ?st b sk x" if "socks (k_world ?st) b = Some sk" "sk_user_data sk = Some x" for b sk x
    using inv_user [OF inv, of b sk x] that fwd [of x] by (auto simp: user_ok_def rest)
  show "session_ok X ?st p s" if "k_sessions ?st p = Some s" for p s
    using inv_session [OF inv, of p s] that by (auto simp: session_ok_def rest tun same)
  show "\<exists>s. k_sessions ?st (eth_session dev) = Some s \<and> priv s = PrivEth (Some d)" if "devs (k_world ?st) d = Some dev" for d dev
    using inv_dev [OF inv, of d dev] that by (simp add: rest)
  show "net_ok E ?st m" for m using inv_net [OF inv, of m] by (simp add: net_ok_def rest same)
  show "fresh_ok ?st" using inv_rest(1) [OF inv] t by (auto simp: fresh_ok_def rest tun)
  have ok: "queues_ok st" by (rule inv_rest(2) [OF inv])
  have "{x. \<exists>u. k_tunnels ?st x = Some u \<and> t_ref_count u = 0} = {x. \<exists>u. k_tunnels st x = Some u \<and> t_ref_count u = 0}"
    using bwd fwd by (intro Collect_cong) metis
  moreover have "\<exists>b x u. skb_sk skb = Some b \<and> k_tunnels ?st x = Some u \<and> t_sock u = Some b" if "skb \<in> set (k_wskbs st)" for skb
  proof -
    have "\<exists>b x u. skb_sk skb = Some b \<and> k_tunnels st x = Some u \<and> t_sock u = Some b" using ok that unfolding queues_ok_def by blast
    then show ?thesis using fwd by metis
  qed
  moreover have "k_tunnels ?st x \<noteq> None" if "k_tunnels st x \<noteq> None" for x using that by (simp add: tun)
  ultimately show "queues_ok ?st" using ok by (simp add: queues_ok_def rest)
  have "{x. \<exists>u. k_tunnels ?st x = Some u \<and> t_sock u \<noteq> None} = {x. \<exists>u. k_tunnels st x = Some u \<and> t_sock u \<noteq> None}"
    using bwd fwd by (intro Collect_cong) metis
  then show "counts_ok ?st" using inv_rest(3) [OF inv] by (simp add: counts_ok_def rest)
qed

text \<open>The counters of a device.\<close>

lemma inv_dstats:
  assumes inv: "inv E X st"
  shows "inv E X (st\<lparr>k_world := upd_dstats E' d f (k_world st)\<rparr>)" (is "inv E X ?st")
proof (rule invI)
  have sk: "socks (k_world ?st) = socks (k_world st)" by (simp add: upd_dstats_def)
  have dev: "map_option eth_session (devs (k_world ?st) x) = map_option eth_session (devs (k_world st) x)" for x
    by (simp add: upd_dstats_def option.map_comp comp_def)
  have rest: "k_sessions ?st = k_sessions st" "k_tunnels ?st = k_tunnels st" "k_nets ?st = k_nets st" "l2tp_wq ?st = l2tp_wq st" "k_rcu ?st = k_rcu st"
    "k_wskbs ?st = k_wskbs st" "k_next ?st = k_next st" "l2tp_tunnel_count ?st = l2tp_tunnel_count st" "l2tp_session_count ?st = l2tp_session_count st"
    by simp_all
  have same: "sess_of ?st = sess_of st" "in_tunnel ?st = in_tunnel st" "inflight ?st = inflight st"
    "is_linked ?st = is_linked st" "v3_linked ?st = v3_linked st" "tunnels_in ?st = tunnels_in st"
    using view_same [of ?st st] by simp_all
  have eth: "eth_ok (k_world ?st) p s = eth_ok (k_world st) p s" for p s
  proof -
    have "(\<exists>v. devs (k_world ?st) x = Some v \<and> eth_session v = p) = (\<exists>v. devs (k_world st) x = Some v \<and> eth_session v = p)" for x
      using dev [of x] by (cases "devs (k_world ?st) x"; cases "devs (k_world st) x") auto
    then show ?thesis unfolding eth_ok_def by blast
  qed
  have ppp: "ppp_ok X (k_world ?st) l p s = ppp_ok X (k_world st) l p s" for l p s unfolding ppp_ok_def sk ..
  show "tunnel_ok E X ?st x u" if "k_tunnels ?st x = Some u" for x u using inv_tunnel [OF inv, of x u] that by (simp add: tunnel_ok_def same)
  show "\<exists>k. socks (k_world ?st) b = Some k \<and> tsock_ok X ?st x b k" if "k_tunnels ?st x = Some u" "t_sock u = Some b" for x u b
    using that inv_tsock [OF inv, of x u b] unfolding tsock_ok_def same sk rest by blast
  show "user_ok ?st b k x" if "socks (k_world ?st) b = Some k" "sk_user_data k = Some x" for b k x
    using that inv_user [OF inv, of b k x] unfolding user_ok_def sk rest by blast
  show "session_ok X ?st p s" if "k_sessions ?st p = Some s" for p s
    using that inv_session [OF inv, of p s] unfolding session_ok_def eth ppp same rest by blast
  show "\<exists>s. k_sessions ?st (eth_session v) = Some s \<and> priv s = PrivEth (Some x)" if "devs (k_world ?st) x = Some v" for x v
    using dev [of x] that inv_dev [OF inv, of x] by (cases "devs (k_world st) x") auto
  show "net_ok E ?st m" for m using inv_net [OF inv, of m] by (simp only: net_ok_def rest same)
  have "devs (k_world ?st) x = None \<longleftrightarrow> devs (k_world st) x = None" for x using dev [of x] by (metis map_option_is_None)
  then show "fresh_ok ?st" using inv_rest(1) [OF inv] unfolding fresh_ok_def rest sk by blast
  show "queues_ok ?st" using inv_rest(2) [OF inv] unfolding queues_ok_def rest .
  show "counts_ok ?st" using inv_rest(3) [OF inv] unfolding counts_ok_def rest .
qed

section \<open>Building the headers\<close>

text \<open>
  A session whose header fits: the header length it keeps is the length of the header it builds,
  and a default sublayer has room for its four bytes. Configurations outside of it exist: netlink
  accepts every sublayer length.
\<close>

definition header_fits :: "l2tp_tunnel \<Rightarrow> l2tp_session \<Rightarrow> bool" where
  "header_fits t s \<longleftrightarrow>
     (if version t = L2TP_HDR_VER_2
      then build_header s = L2tp_build_l2tpv2_header \<and> unat (hdr_len s) = (if send_seq s \<noteq> 0 then 10 else 6)
      else build_header s = L2tp_build_l2tpv3_header \<and> v3_ok t s \<and> unat (hdr_len s) = v3_hdr_len t s)"

definition cow_head_ok :: "kenv \<Rightarrow> bool" where
  "cow_head_ok E \<longleftrightarrow> (\<forall>skb n skb'. skb_cow_head E skb n = Some skb' \<longrightarrow> skb_data skb' = skb_data skb \<and> n \<le> length (skb_head skb') \<and>
     (wf_skb skb \<longrightarrow> wf_skb skb'))"

lemma same_session_ns: "same_session s (next_ns M s)" "same_session s (next_ns_v3 s)"
  by (simp_all add: same_session_def next_ns_def next_ns_v3_def)

lemma build_header_ok:
  assumes "header_fits t s" and "length area = unat (hdr_len s)"
  obtains n s' b where "call_build_header (build_header s) t s area = Inr (n, s', b)" and "same_session s s'" and "length b = unat (hdr_len s)"
proof (cases "version t = L2TP_HDR_VER_2")
  case True
  then have "length area = (if send_seq s \<noteq> 0 then 10 else 6)" using assms by (simp add: header_fits_def)
  then have b: "l2tp_build_l2tpv2_header t s area = Inr (int (length area) div 2, next_ns 0xffff s, l2tpv2_bytes t s)"
    using build_v2_area [of area s t "[]"] by simp
  have h: "build_header s = L2tp_build_l2tpv2_header" "length (l2tpv2_bytes t s) = unat (hdr_len s)"
    using True assms(1) by (simp_all add: header_fits_def length_l2tpv2_bytes)
  show thesis by (rule that [of "int (length area) div 2" "next_ns 0xffff s" "l2tpv2_bytes t s"]) (use b h same_session_ns(1) in simp_all)
next
  case False
  then have v: "v3_ok t s" "length area = v3_hdr_len t s" using assms by (simp_all add: header_fits_def)
  have "length (l2tpv3_bytes t s) \<le> length area" using length_l2tpv3_bytes [OF v(1)] v(2) by simp
  then have l: "length (l2tpv3_bytes t s @ drop (length (l2tpv3_bytes t s)) area) = unat (hdr_len s)" using assms(2) by simp
  have h: "build_header s = L2tp_build_l2tpv3_header" using False assms(1) by (simp add: header_fits_def)
  show thesis
    by (rule that [of "int (length area)" "next_ns_v3 s" "l2tpv3_bytes t s @ drop (length (l2tpv3_bytes t s)) area"])
       (use build_v3_area [OF v, of "[]"] h l same_session_ns(2) in simp_all)
qed

lemma put_l2tp_header_ok:
  assumes "header_fits t s" and "unat (hdr_len s) \<le> length (skb_head skb)"
  obtains s' skb' where "put_l2tp_header t s skb (unat (hdr_len s)) = Inr (s', skb')" and "same_session s s'"
    and "length (skb_head skb') = length (skb_head skb) - unat (hdr_len s)" and "wf_skb skb \<longrightarrow> wf_skb skb'"
proof -
  let ?n = "unat (hdr_len s)" and ?k = "length (skb_head skb)"
  let ?area = "drop (?k - ?n) (skb_head skb)"
  have len: "length ?area = ?n" using assms(2) by simp
  obtain n s' b where b: "call_build_header (build_header s) t s ?area = Inr (n, s', b)" "same_session s s'" "length b = ?n"
    by (rule build_header_ok [OF assms(1) len])
  have "put_l2tp_header t s skb ?n = Inr (s', skb\<lparr>skb_head := take (?k - ?n) (skb_head skb), skb_data := b @ skb_data skb,
      skb_headlen := skb_headlen skb + ?n\<rparr>)"
    using assms(2) b(1) len by (simp add: put_l2tp_header_def skb_push_def Let_def)
  then show thesis by (rule that) (use b assms(2) in \<open>simp_all add: wf_skb_def\<close>)
qed

lemma put_check_ok: "8 \<le> skb_headlen skb \<Longrightarrow> wf_skb skb \<Longrightarrow> \<exists>skb'. put_check skb c = Inr skb'"
  using length_linear [of skb] by (simp add: put_check_def put_at_def)

lemma put_udp_header_ok:
  assumes "8 \<le> length (skb_head skb)" and "wf_skb skb"
  shows "\<exists>skb'. put_udp_header E t sk skb n = Inr skb'"
proof -
  let ?k = "length (skb_head skb)"
  define skb1 where "skb1 = skb\<lparr>skb_head := take (?k - 8) (skb_head skb), skb_data := drop (?k - 8) (skb_head skb) @ skb_data skb,
      skb_headlen := skb_headlen skb + 8\<rparr>"
  define u where "u = put_be16 (inet_sport sk) @ put_be16 (inet_dport sk) @ put_be16 (of_nat n) @ put_be16 0"
  have p: "skb_push skb UDP_HLEN = Inr skb1" using assms(1) by (simp add: skb_push_def Let_def skb1_def)
  have w: "wf_skb skb1" "8 \<le> skb_headlen skb1" using assms by (simp_all add: wf_skb_def skb1_def)
  have l: "length u = 8" by (simp add: u_def)
  have ll: "length (linear skb1) = skb_headlen skb1" by (rule length_linear [OF w(1)])
  define b where "b = u @ drop 8 (linear skb1)"
  have b: "put_at (linear skb1) 0 u = Inr b" "length b = skb_headlen skb1" using l ll w(2) by (simp_all add: put_at_Inr b_def)
  define skb2 where "skb2 = skb1\<lparr>skb_data := b @ drop (skb_headlen skb1) (skb_data skb1)\<rparr>"
  have w2: "wf_skb skb2" "8 \<le> skb_headlen skb2" using w b(2) by (simp_all add: skb2_def wf_skb_def)
  have c: "\<exists>skb'. put_check (skb2\<lparr>ip_summed := i\<rparr>) v = Inr skb'" for i v
    by (rule put_check_ok) (use w2 in \<open>simp_all add: wf_skb_def\<close>)
  have "\<exists>skb'. l2tp_xmit_ipv6_csum E sk skb2 n = Inr skb'" "\<exists>skb'. xmit_ipv4_csum E sk skb2 n = Inr skb'"
    using c by (simp_all add: l2tp_xmit_ipv6_csum_def xmit_ipv4_csum_def Let_def)
  then show ?thesis using p b(1) by (simp add: put_udp_header_def u_def [symmetric] skb2_def [symmetric] Let_def)
qed

section \<open>Sending\<close>

text \<open>What sending leaves alone: the tunnels, the chains, what a session belongs to, and the sockets' owners.\<close>

definition xmit_frame :: "kst \<Rightarrow> kst \<Rightarrow> bool" where
  "xmit_frame st st' \<longleftrightarrow> same_tunnels st st' \<and> in_tunnel st' = in_tunnel st \<and> (\<forall>a. has_socket st' a = has_socket st a) \<and>
     (\<forall>q. map_option (\<lambda>s. (s_tunnel s, priv s)) (k_sessions st' q) = map_option (\<lambda>s. (s_tunnel s, priv s)) (k_sessions st q)) \<and> l2tp_wq st' = l2tp_wq st"

lemma xmit_frame_trans [trans]: "xmit_frame st st1 \<Longrightarrow> xmit_frame st1 st2 \<Longrightarrow> xmit_frame st st2"
  unfolding xmit_frame_def by (metis same_tunnels_trans)

lemma xmit_frame_session:
  assumes "k_sessions st p = Some s" and "same_session s s'"
  shows "xmit_frame st (set_session p s' st)"
  using assms by (auto simp: xmit_frame_def same_tunnels_def in_tunnel_def has_socket_def set_session_def same_session_def fun_eq_iff)

lemma xmit_frame_tunnel:
  assumes "k_tunnels st tp = Some t"
  shows "xmit_frame st (set_tunnel tp (upd_t_stats E f t) st)"
proof -
  have "in_tunnel (set_tunnel tp (upd_t_stats E f t) st) x q = in_tunnel st x q" for x q
    using assms by (cases "x = tp") (simp_all add: in_tunnel_def set_tunnel_def upd_t_stats_def)
  moreover have "same_tunnels st (set_tunnel tp (upd_t_stats E f t) st)"
    using assms by (auto simp: same_tunnels_def set_tunnel_def upd_t_stats_def tunnel_core_def)
  ultimately show ?thesis by (auto simp: xmit_frame_def has_socket_def set_tunnel_def fun_eq_iff)
qed

lemma tview_stats [simp]: "tview (upd_t_stats E f t) = tview t" "t_ref_count (upd_t_stats E f t) = t_ref_count t" "t_magic (upd_t_stats E f t) = t_magic t"
  by (simp_all add: upd_t_stats_def tview_def)

lemma same_session_stats: "same_session s (upd_s_stats E f s)"
  by (simp add: same_session_def upd_s_stats_def)

lemma count_tx_inv:
  assumes inv: "inv E X st" and s: "k_sessions st p = Some s" "s_tunnel s = Some tp" and t: "k_tunnels st tp = Some t"
  obtains st' where "count_tx E' p f st = Inr st'" and "inv E X st'" and "k_wskbs st' = k_wskbs st" and "xmit_frame st st'"
proof -
  let ?st1 = "set_tunnel tp (upd_t_stats E' f t) st"
  have i1: "inv E X ?st1" by (rule inv_tunnel_upd [OF inv t]) simp_all
  have s1: "k_sessions ?st1 p = Some s" using s by (simp add: set_tunnel_def)
  have i2: "inv E X (set_session p (upd_s_stats E' f s) ?st1)" by (rule inv_same_session [OF i1 s1 same_session_stats])
  have "xmit_frame st (set_session p (upd_s_stats E' f s) ?st1)"
    by (rule xmit_frame_trans [OF xmit_frame_tunnel [OF t] xmit_frame_session [OF s1 same_session_stats]])
  then show thesis by (intro that [OF _ i2]) (use s t in \<open>simp_all add: count_tx_def set_session_def set_tunnel_def\<close>)
qed

text \<open>Handing a packet to IP: the packet takes a reference to the socket and is in flight.\<close>

lemma xmit_core_inv:
  assumes inv: "inv E X st" and s: "k_sessions st p = Some s" "s_tunnel s = Some tp" and t: "k_tunnels st tp = Some t" "t_sock t = Some a"
  obtains st1 st' where "l2tp_skb_set_owner_w skb a st = Inr (skb\<lparr>skb_sk := Some a\<rparr>, st1)"
    and "l2tp_xmit_core E' p (skb\<lparr>skb_sk := Some a\<rparr>) st1 = Inr (0, st')" and "inv E X st'"
    and "k_wskbs st' = skb\<lparr>skb_sk := Some a\<rparr> # k_wskbs st" and "xmit_frame st st'"
proof -
  let ?skb = "skb\<lparr>skb_sk := Some a\<rparr>" and ?st1 = "st\<lparr>k_world := adj_refs (Some a) 1 (k_world st)\<rparr>" and ?X = "more (SockRef a) X"
  obtain sk where sk: "socks (k_world st) a = Some sk" by (rule tunnel_user [OF inv t])
  then have "socks (k_world st) a \<noteq> None" by simp
  note hold = sock_hold_inv [OF inv this]
  let ?st2 = "?st1\<lparr>k_trace := k_trace ?st1 @ [Xmit_skb ?skb], k_wskbs := ?skb # k_wskbs ?st1\<rparr>"
  have "inv E ?X (?st1\<lparr>k_trace := k_trace ?st1 @ [Xmit_skb ?skb]\<rparr>)" (is "inv E ?X ?st3") using hold(2) by (simp only: inv_trace)
  then have i2: "inv E X ?st2"
  proof (rule inv_wskbs)
    show "length (filter (\<lambda>x. skb_sk x = Some b) (?skb # k_wskbs ?st1)) + X (SockRef b) = inflight ?st3 b + ?X (SockRef b)" for b
      by (simp add: inflight_def)
  qed (use t in auto)
  let ?f = "\<lambda>e. if e \<ge> 0 then tx_ok (skb_len ?skb) else tx_err"
  define e where "e = (if sk_family sk = AF_INET6 \<and> \<not> v4mapped t then inet6_csk_xmit E' ?skb else ip_queue_xmit E' ?skb)"
  obtain st' where st': "count_tx E' p (?f e) ?st2 = Inr st'" "inv E X st'" "k_wskbs st' = k_wskbs ?st2" "xmit_frame ?st2 st'"
    by (rule count_tx_inv [OF i2, of p s tp t E' "?f e"]) (use s t in simp_all)
  have "xmit_frame st ?st2" by (auto simp: xmit_frame_def same_tunnels_def in_tunnel_def has_socket_def socks_adj_refs option.map_comp comp_def fun_eq_iff)
  then have fr: "xmit_frame st st'" using st'(4) by (rule xmit_frame_trans)
  show thesis
  proof (rule that)
    show "l2tp_skb_set_owner_w skb a st = Inr (?skb, ?st1)" using hold(1) by (simp add: l2tp_skb_set_owner_w_def del: on_world_Inr)
    show "l2tp_xmit_core E' p ?skb ?st1 = Inr (0, st')"
      using s t sk st'(1) by (simp add: l2tp_xmit_core_def socks_adj_refs e_def Let_def)
  qed (use st' fr in simp_all)
qed

lemma session_tunnel_sock:
  assumes "inv E X st" and "k_sessions st p = Some s"
  obtains tp t a where "s_tunnel s = Some tp" and "k_tunnels st tp = Some t" and "t_sock t = Some a"
proof -
  obtain tp t where t: "s_tunnel s = Some tp" "k_tunnels st tp = Some t" using inv_session [OF assms] by (auto simp: session_ok_def)
  then have "p \<in> sess_of st tp" using assms(2) by (simp add: sess_of_def)
  then have "t_sock t \<noteq> None" using inv_tunnel [OF assms(1) t(2)] by (auto simp: tunnel_ok_def)
  then show thesis using t that by auto
qed

definition sent :: "ptr \<Rightarrow> kst \<Rightarrow> kst \<Rightarrow> bool" where
  "sent a st st' \<longleftrightarrow> (\<exists>skb. skb_sk skb = Some a \<and> k_wskbs st' = skb # k_wskbs st)"

lemma xmit_skb_inv:
  assumes E: "cow_head_ok E" and inv: "inv E0 X st" and s: "k_sessions st p = Some s" "s_tunnel s = Some tp"
    and t: "k_tunnels st tp = Some t" "t_sock t = Some a" and fits: "header_fits t s" and skb: "wf_skb skb"
  obtains r st' where "l2tp_xmit_skb E p skb (unat (hdr_len s)) st = Inr (r, st')" and "inv E0 X st'"
    and "if r = NET_XMIT_SUCCESS then sent a st st' else k_wskbs st' = k_wskbs st" and "xmit_frame st st'"
    and "\<not> sock_owned_by_user E a \<and> (\<forall>n. skb_cow_head E skb n \<noteq> None) \<longrightarrow> r = NET_XMIT_SUCCESS"
proof -
  define u h where "u = (if encap t = L2TP_ENCAPTYPE_UDP then UDP_HLEN else 0)" and "h = unat (hdr_len s)"
  show thesis
  proof (cases "skb_cow_head E skb (NET_SKB_PAD E + IP_HLEN + u + h)")
    case None
    have "xmit_frame st (st\<lparr>k_trace := k_trace st @ [Kfree_skb skb]\<rparr>)" by (simp add: xmit_frame_def same_tunnels_def in_tunnel_def has_socket_def fun_eq_iff)
    moreover have "\<not> (\<forall>n. skb_cow_head E skb n \<noteq> None)" using None by blast
    ultimately show thesis using None s t inv
      by (intro that [of NET_XMIT_DROP "st\<lparr>k_trace := k_trace st @ [Kfree_skb skb]\<rparr>"]) (simp_all add: l2tp_xmit_skb_def Let_def u_def h_def)
  next
    case (Some skb0)
    then have room: "NET_SKB_PAD E + IP_HLEN + u + h \<le> length (skb_head skb0)" "wf_skb skb0" using E skb unfolding cow_head_ok_def by blast+
    have room0: "h \<le> length (skb_head (skb0\<lparr>skb_sk := None\<rparr>))" using room(1) by simp
    obtain s' skb1 where hd: "put_l2tp_header t s (skb0\<lparr>skb_sk := None\<rparr>) h = Inr (s', skb1)" "same_session s s'"
      "length (skb_head skb1) = length (skb_head (skb0\<lparr>skb_sk := None\<rparr>)) - h" "wf_skb (skb0\<lparr>skb_sk := None\<rparr>) \<longrightarrow> wf_skb skb1"
      using put_l2tp_header_ok [OF fits room0 [unfolded h_def]] unfolding h_def by blast
    have w1: "wf_skb skb1" using hd(4) room(2) by (simp add: wf_skb_def)
    have room1: "u \<le> length (skb_head skb1)" using hd(3) room(1) by simp
    let ?st1 = "set_session p s' st"
    have i1: "inv E0 X ?st1" by (rule inv_same_session [OF inv s(1) hd(2)])
    obtain sk where sk: "socks (k_world st) a = Some sk" by (rule tunnel_user [OF inv t])
    have f1: "k_sessions ?st1 p = Some s'" "s_tunnel s' = Some tp" "k_tunnels ?st1 tp = Some t" "k_world ?st1 = k_world st" "k_wskbs ?st1 = k_wskbs st"
      using s(2) hd(2) t by (simp_all add: set_session_def same_session_def)
    define skb2 where "skb2 = skb1\<lparr>skb_dst := sk_dst_check E a\<rparr>"
    have "\<exists>skb3. (if encap t = L2TP_ENCAPTYPE_UDP then put_udp_header E t sk skb2 (u + h + skb_len skb) else Inr skb2) = Inr skb3"
      using put_udp_header_ok [of skb2 E t sk "u + h + skb_len skb"] w1 room1 by (cases "encap t = L2TP_ENCAPTYPE_UDP") (simp_all add: skb2_def wf_skb_def u_def)
    then obtain skb3 where ud: "(if encap t = L2TP_ENCAPTYPE_UDP then put_udp_header E t sk skb2 (u + h + skb_len skb) else Inr skb2) = Inr skb3" ..
    obtain st2 st3 where c: "l2tp_skb_set_owner_w skb3 a ?st1 = Inr (skb3\<lparr>skb_sk := Some a\<rparr>, st2)"
      "l2tp_xmit_core E p (skb3\<lparr>skb_sk := Some a\<rparr>) st2 = Inr (0, st3)" "inv E0 X st3"
      "k_wskbs st3 = skb3\<lparr>skb_sk := Some a\<rparr> # k_wskbs ?st1" "xmit_frame ?st1 st3" by (rule xmit_core_inv [OF i1 f1(1-3) t(2)])
    have eq: "l2tp_xmit_skb E p skb h st = (if sock_owned_by_user E a
        then Inr (NET_XMIT_DROP, ?st1\<lparr>k_trace := k_trace ?st1 @ [Kfree_skb skb1]\<rparr>) else Inr (NET_XMIT_SUCCESS, st3))"
      using Some s t sk hd(1) f1(4) ud c(1,2) 
      by (cases "encap t = L2TP_ENCAPTYPE_UDP") (simp_all add: l2tp_xmit_skb_def Let_def u_def skb2_def [symmetric])
    have fr: "xmit_frame st ?st1" by (rule xmit_frame_session [OF s(1) hd(2)])
    have fr2: "xmit_frame ?st1 (?st1\<lparr>k_trace := tr\<rparr>)" for tr by (simp add: xmit_frame_def same_tunnels_def in_tunnel_def has_socket_def fun_eq_iff)
    have sent: "sent a st st3" using c(4) f1(5) by (auto simp: sent_def)
    show thesis
    proof (cases "sock_owned_by_user E a")
      case True
      show thesis by (rule that [OF eq [unfolded if_P [OF True] h_def]]) (use True i1 f1(5) xmit_frame_trans [OF fr fr2] in simp_all)
    next
      case False
      show thesis by (rule that [OF eq [unfolded if_not_P [OF False] h_def]]) (use c(3) sent xmit_frame_trans [OF fr c(5)] in simp_all)
    qed
  qed
qed

text \<open>The device of an Ethernet pseudowire.\<close>

definition dev_sock :: "kst \<Rightarrow> ptr \<Rightarrow> ptr \<Rightarrow> bool" where
  "dev_sock st d a \<longleftrightarrow> (\<exists>dev s tp t. devs (k_world st) d = Some dev \<and> k_sessions st (eth_session dev) = Some s \<and>
     s_tunnel s = Some tp \<and> k_tunnels st tp = Some t \<and> t_sock t = Some a)"

definition can_send :: "kst \<Rightarrow> ptr \<Rightarrow> bool" where
  "can_send st d \<longleftrightarrow> (\<exists>dev s tp t. devs (k_world st) d = Some dev \<and> k_sessions st (eth_session dev) = Some s \<and>
     s_tunnel s = Some tp \<and> k_tunnels st tp = Some t \<and> header_fits t s)"

lemma eth_dev_xmit_inv:
  assumes E: "cow_head_ok E" and inv: "inv E0 X st" and d: "can_send st d" and skb: "wf_skb skb"
  obtains st' where "l2tp_eth_dev_xmit E skb d st = Inr st'" and "inv E0 X st'" and "xmit_frame st st'"
    and "\<forall>b. dev_sock st d b \<and> \<not> sock_owned_by_user E b \<and> (\<forall>n. skb_cow_head E skb n \<noteq> None) \<longrightarrow> sent b st st'"
proof -
  obtain dev s tp t where d: "devs (k_world st) d = Some dev" "k_sessions st (eth_session dev) = Some s" "s_tunnel s = Some tp"
    "k_tunnels st tp = Some t" "header_fits t s" using d by (auto simp: can_send_def)
  obtain tp' t' a where "s_tunnel s = Some tp'" "k_tunnels st tp' = Some t'" "t_sock t' = Some a" by (rule session_tunnel_sock [OF inv d(2)])
  then have a: "t_sock t = Some a" using d(3,4) by simp
  obtain r st1 where x: "l2tp_xmit_skb E (eth_session dev) skb (unat (hdr_len s)) st = Inr (r, st1)" "inv E0 X st1"
    "if r = NET_XMIT_SUCCESS then sent a st st1 else k_wskbs st1 = k_wskbs st" "xmit_frame st st1"
    "\<not> sock_owned_by_user E a \<and> (\<forall>n. skb_cow_head E skb n \<noteq> None) \<longrightarrow> r = NET_XMIT_SUCCESS"
    by (rule xmit_skb_inv [OF E inv d(2,3,4) a d(5) skb])
  let ?f = "if r = NET_XMIT_SUCCESS then eth_tx_ok (skb_len skb) else eth_tx_dropped"
  show thesis
  proof (rule that)
    show "l2tp_eth_dev_xmit E skb d st = Inr (st1\<lparr>k_world := upd_dstats E d ?f (k_world st1)\<rparr>)"
      using d x(1) by (simp add: l2tp_eth_dev_xmit_def)
    show "inv E0 X (st1\<lparr>k_world := upd_dstats E d ?f (k_world st1)\<rparr>)" by (rule inv_dstats [OF x(2)])
    have "xmit_frame st1 (st1\<lparr>k_world := upd_dstats E d ?f (k_world st1)\<rparr>)"
      by (simp add: xmit_frame_def same_tunnels_def in_tunnel_def has_socket_def upd_dstats_def fun_eq_iff)
    then show "xmit_frame st (st1\<lparr>k_world := upd_dstats E d ?f (k_world st1)\<rparr>)" by (rule xmit_frame_trans [OF x(4)])
    show "\<forall>b. dev_sock st d b \<and> \<not> sock_owned_by_user E b \<and> (\<forall>n. skb_cow_head E skb n \<noteq> None) \<longrightarrow>
        sent b st (st1\<lparr>k_world := upd_dstats E d ?f (k_world st1)\<rparr>)"
    proof (intro allI impI)
      fix b
      assume b: "dev_sock st d b \<and> \<not> sock_owned_by_user E b \<and> (\<forall>n. skb_cow_head E skb n \<noteq> None)"
      then have "b = a" using d a by (simp add: dev_sock_def)
      then show "sent b st (st1\<lparr>k_world := upd_dstats E d ?f (k_world st1)\<rparr>)" using b x(3,5) by (simp add: sent_def)
    qed
  qed
qed

end
