(* ===== verification/L2tp_System.thy ===== *)
theory L2tp_System
  imports L2tp_Inv_Xmit
begin

unbundle bit_operations_syntax

text \<open>
  The running system: requests of the netlink interface, the work item of a deleted tunnel, the
  destructors of sockets, the RCU callback, and packets sent by Ethernet pseudowires and leaving, in
  any order. Every operation that
  is enabled returns, and the invariant of the heap holds in every reachable state.
\<close>

section \<open>Netlink commands keep the invariant\<close>

lemma table_find_inv:
  assumes "\<And>p. p \<in> set (concat tbl) \<Longrightarrow> h p \<noteq> None"
  obtains r where "table_find h P tbl = Inr r" and "\<forall>p. r = Some p \<longrightarrow> p \<in> set (concat tbl)"
  using assms
proof (induction tbl arbitrary: thesis)
  case Nil
  then show ?case by simp
next
  case (Cons c cs)
  have c: "chain_find h P c = Inr (find (\<lambda>p. P (the (h p))) c)" using Cons.prems(2) by (intro chain_find_returns) auto
  show ?case
  proof (cases "find (\<lambda>p. P (the (h p))) c")
    case None
    then show ?thesis using Cons.IH [of thesis] Cons.prems c by auto
  next
    case (Some p)
    then have "p \<in> set c" by (auto simp: find_Some_iff)
    then show ?thesis using Some c Cons.prems(1) [of "Some p"] by auto
  qed
qed

lemma v3_linked_session:
  assumes inv: "inv E X st" and p: "p \<in> v3_linked st n"
  obtains s where "k_sessions st p = Some s" and "is_linked st p s"
proof -
  obtain tp t where t: "k_tunnels st tp = Some t" "p \<in> linked (session_hlist t)" using p by (auto simp: v3_linked_def)
  then have "p \<in> sess_of st tp" using inv_tunnel [OF inv t(1)] by (auto simp: tunnel_ok_def)
  then obtain s where "k_sessions st p = Some s" "s_tunnel s = Some tp" by (auto simp: sess_of_def)
  then show thesis using t by (intro that) (auto simp: is_linked_def in_tunnel_def)
qed

lemma find_by_ifname_inv:
  assumes inv: "inv E X st"
  obtains (none) "l2tp_session_find_by_ifname net name st = Inr None"
  | (found) p s where "l2tp_session_find_by_ifname net name st = Inr (Some p)" and "k_sessions st p = Some s" and "is_linked st p s"
proof -
  let ?tbl = "l2tp_session_hlist (k_nets st net)"
  have eq: "set (concat ?tbl) = v3_linked st net" using inv_net [OF inv, of net] by (simp add: net_ok_def linked_def)
  have alive: "k_sessions st p \<noteq> None" if "p \<in> set (concat ?tbl)" for p using v3_linked_session [OF inv] that unfolding eq by blast
  obtain r where r: "table_find (k_sessions st) (\<lambda>s. ifname s = name) ?tbl = Inr r" "\<forall>p. r = Some p \<longrightarrow> p \<in> set (concat ?tbl)"
    by (rule table_find_inv [of ?tbl "k_sessions st" "\<lambda>s. ifname s = name", OF alive])
  show thesis
  proof (cases r)
    case None
    then show thesis using r(1) by (intro none) (simp add: l2tp_session_find_by_ifname_def)
  next
    case (Some p)
    then obtain s where "k_sessions st p = Some s" "is_linked st p s" using v3_linked_session [OF inv] r(2) unfolding eq by blast
    then show thesis using r(1) Some by (intro found) (simp_all add: l2tp_session_find_by_ifname_def)
  qed
qed

lemma nl_session_find_inv:
  assumes E: "wf_env E" and inv: "inv E X st"
  obtains (none) "l2tp_nl_session_find E net at st = Inr None"
  | (found) p s where "l2tp_nl_session_find E net at st = Inr (Some p)" and "k_sessions st p = Some s" and "is_linked st p s"
proof (cases "at L2TP_ATTR_IFNAME")
  case (Some n)
  then show thesis
    by (cases rule: find_by_ifname_inv [OF inv, of net "nla_string n"])
       (use none found in \<open>auto simp: l2tp_nl_session_find_def\<close>)
next
  case None
  show thesis
  proof (cases "at L2TP_ATTR_SESSION_ID = None \<or> at L2TP_ATTR_CONN_ID = None")
    case True
    then show thesis using None by (intro none) (auto simp: l2tp_nl_session_find_def split: option.splits)
  next
    case False
    then obtain sid tid where id: "at L2TP_ATTR_SESSION_ID = Some sid" "at L2TP_ATTR_CONN_ID = Some tid" by auto
    show thesis
    proof (rule tunnel_find_inv [OF inv, of net "nla_get_u32 tid"])
      assume "l2tp_tunnel_find net (nla_get_u32 tid) st = Inr None"
      then show thesis using None id by (intro none) (simp add: l2tp_nl_session_find_def)
    next
      fix tp t a
      assume f: "l2tp_tunnel_find net (nla_get_u32 tid) st = Inr (Some tp)" and t: "k_tunnels st tp = Some t"
      show thesis
        by (rule session_find_inv [OF E inv t, of net "nla_get_u32 sid"])
           (use None id f in \<open>auto simp: l2tp_nl_session_find_def intro: none found\<close>)
    qed
  qed
qed

lemma on_nl_tunnel_inv:
  assumes inv: "inv E X st" and f: "\<And>tp t a. k_tunnels st tp = Some t \<Longrightarrow> t_sock t = Some a \<Longrightarrow> \<exists>r st'. f tp = Inr (r, st') \<and> inv E X st'"
  shows "\<exists>r st'. on_nl_tunnel net at f st = Inr (r, st') \<and> inv E X st'"
proof (cases "at L2TP_ATTR_CONN_ID")
  case None
  then show ?thesis using inv by (simp add: on_nl_tunnel_def)
next
  case (Some tid)
  show ?thesis
    by (rule tunnel_find_inv [OF inv, of net "nla_get_u32 tid"]) (use Some f inv in \<open>auto simp: on_nl_tunnel_def\<close>)
qed

lemma nl_tunnel_create_inv:
  assumes L: "socket_layer E" and inv: "inv E quiet st"
    and fd: "\<And>v. at L2TP_ATTR_FD = Some v \<Longrightarrow> 0 \<le> sint (nla_get_u32 v) \<Longrightarrow> fd_ok E (sint (nla_get_u32 v)) st"
  shows "\<exists>r st'. l2tp_nl_cmd_tunnel_create E net at st = Inr (r, st') \<and> inv E quiet st'"
proof -
  define fd where "fd = attr_or at L2TP_ATTR_FD (\<lambda>v. sint (nla_get_u32 v)) (- 1)"
  have fdok: "0 \<le> fd \<longrightarrow> fd_ok E fd st" using fd by (auto simp: fd_def attr_or_def split: option.splits)
  have cr: "\<exists>r tp st'. l2tp_tunnel_create E net fd ver tid ptid (Some c) st = Inr (r, tp, st') \<and> inv E quiet st'" for ver tid ptid c
    by (rule tunnel_create_inv [OF L inv, of fd "Some c" net ver tid ptid]) (use fdok in auto)
  have fi: "\<exists>r. l2tp_tunnel_find net tid st = Inr r" for tid by (rule tunnel_find_inv [OF inv, of net tid]) auto
  have body: "\<exists>r st'. (case tunnel_cfg_of at (nla_get_u16 enc) of None \<Rightarrow> Inr (- EINVAL, st)
           | Some cfg \<Rightarrow> bind_res (l2tp_tunnel_find net (nla_get_u32 tid) st) (\<lambda>old.
               if old \<noteq> None then Inr (- EEXIST, st)
               else if tcfg_encap cfg = L2TP_ENCAPTYPE_UDP \<or> tcfg_encap cfg = L2TP_ENCAPTYPE_IP
               then bind_res (l2tp_tunnel_create E net fd (int (unat (nla_get_u8 ver))) (nla_get_u32 tid)
                       (nla_get_u32 ptid) (Some cfg) st) (\<lambda>(ret, _, st'). Inr (ret, st'))
               else Inr (- EINVAL, st))) = Inr (r, st') \<and> inv E quiet st'" for tid ptid ver enc
  proof (cases "tunnel_cfg_of at (nla_get_u16 enc)")
    case (Some cfg)
    obtain r where "l2tp_tunnel_find net (nla_get_u32 tid) st = Inr r" using fi by blast
    moreover obtain r1 tp1 st1 where "l2tp_tunnel_create E net fd (int (unat (nla_get_u8 ver))) (nla_get_u32 tid) (nla_get_u32 ptid) (Some cfg) st =
        Inr (r1, tp1, st1)" "inv E quiet st1" using cr by blast
    ultimately show ?thesis using Some inv by simp
  qed (use inv in simp)
  show ?thesis
    by (cases "at L2TP_ATTR_CONN_ID"; cases "at L2TP_ATTR_PEER_CONN_ID"; cases "at L2TP_ATTR_PROTO_VERSION"; cases "at L2TP_ATTR_ENCAP_TYPE")
       (use inv body in \<open>simp_all add: l2tp_nl_cmd_tunnel_create_def fd_def [symmetric]\<close>)
qed

lemma nl_tunnel_delete_inv:
  assumes inv: "inv E X st"
  shows "\<exists>r st'. l2tp_nl_cmd_tunnel_delete E net at st = Inr (r, st') \<and> inv E X st'"
  unfolding l2tp_nl_cmd_tunnel_delete_def
proof (rule on_nl_tunnel_inv [OF inv])
  fix tp t a
  assume t: "k_tunnels st tp = Some t" "t_sock t = Some a"
  obtain r st' where "l2tp_tunnel_delete E tp st = Inr (r, st')" "inv E X st'"
    by (rule tunnel_delete_inv [OF inv t(1)]) (use t in auto)
  then show "\<exists>r st'. bind_res (l2tp_tunnel_delete E tp st) (\<lambda>(_, st'). Inr (0, st')) = Inr (r, st') \<and> inv E X st'" by simp
qed

lemma nl_tunnel_modify_inv:
  assumes inv: "inv E X st"
  shows "\<exists>r st'. l2tp_nl_cmd_tunnel_modify net at st = Inr (r, st') \<and> inv E X st'"
  unfolding l2tp_nl_cmd_tunnel_modify_def
proof (rule on_nl_tunnel_inv [OF inv])
  fix tp t a
  assume t: "k_tunnels st tp = Some t"
  let ?t = "t\<lparr>t_debug := attr_or at L2TP_ATTR_DEBUG nla_get_u32 (t_debug t)\<rparr>"
  have "inv E X (set_tunnel tp ?t st)" by (rule inv_tunnel_upd [OF inv t]) (simp_all add: tview_def)
  then show "\<exists>r st'. bind_res (deref_ptr (k_tunnels st) (Some tp)) (\<lambda>(_, t). Inr (0, set_tunnel tp (t\<lparr>t_debug := attr_or at L2TP_ATTR_DEBUG
      nla_get_u32 (t_debug t)\<rparr>) st)) = Inr (r, st') \<and> inv E X st'" using t by simp
qed

lemma cookie_attr_ok: "cookie_attr at i = Some (c, n) \<Longrightarrow> n \<le> 8 \<and> n \<le> length c"
  by (auto simp: cookie_attr_def Let_def split: option.splits if_splits)

lemma nl_create_cfg_ok: "nl_create_cfg E at t pwt = Some cfg \<Longrightarrow> cfg_ok cfg"
proof -
  assume "nl_create_cfg E at t pwt = Some cfg"
  then obtain c where c: "(if version t > 2 then session_cfg_v3 at ((ppp_cfg 0)\<lparr>cfg_pw_type := pwt\<rparr>) else Some ((ppp_cfg 0)\<lparr>cfg_pw_type := pwt\<rparr>)) = Some c"
    "cfg = session_cfg_common E at c" by (auto simp: nl_create_cfg_def Let_def)
  have "cfg_ok c" using c(1)
    by (auto simp: session_cfg_v3_def cfg_ok_def ppp_cfg_def split: option.splits if_splits prod.splits dest: cookie_attr_ok)
  then show ?thesis by (simp add: c(2) session_cfg_common_def cfg_ok_def)
qed

lemma nl_session_create_inv:
  assumes E: "wf_env E" and inv: "inv E X st"
  shows "\<exists>r st'. l2tp_nl_cmd_session_create E net at st = Inr (r, st') \<and> inv E X st'"
  unfolding l2tp_nl_cmd_session_create_def
proof (rule on_nl_tunnel_inv [OF inv])
  fix tp t a
  assume t: "k_tunnels st tp = Some t"
  have pw: "\<exists>r st'. nl_create_pw E net at tid sid psid cfg st = Inr (r, st') \<and> inv E X st'" if "cfg_ok cfg" for tid sid psid cfg
  proof -
    have "\<exists>r st'. call_nl_create ops E net tid sid psid cfg st = Inr (r, st') \<and> inv E X st'" for ops
      by (cases ops) (simp_all, (rule eth_create_inv [OF E inv that, of net tid sid psid] ppp_session_create_inv [OF E inv that, of net tid sid psid], blast)+)
    then show ?thesis using inv by (auto simp: nl_create_pw_def split: option.splits)
  qed
  show "\<exists>r st'. (case at L2TP_ATTR_SESSION_ID of None \<Rightarrow> Inr (- EINVAL, st)
       | Some sid \<Rightarrow> bind_res (l2tp_session_find E net (Some tp) (nla_get_u32 sid) st) (\<lambda>old.
           if old \<noteq> None then Inr (- EEXIST, st)
           else case (at L2TP_ATTR_PEER_SESSION_ID, at L2TP_ATTR_PW_TYPE) of
             (Some psid, Some pwt) \<Rightarrow>
               if nla_get_u16 pwt \<ge> L2TP_PWTYPE_MAX then Inr (- EINVAL, st)
               else bind_res (deref_ptr (k_tunnels st) (Some tp)) (\<lambda>(_, t).
                 case nl_create_cfg E at t (nla_get_u16 pwt) of
                   None \<Rightarrow> Inr (- EINVAL, st)
                 | Some cfg \<Rightarrow> nl_create_pw E net at (attr_or at L2TP_ATTR_CONN_ID nla_get_u32 0) (nla_get_u32 sid)
                       (nla_get_u32 psid) cfg st)
           | _ \<Rightarrow> Inr (- EINVAL, st))) = Inr (r, st') \<and> inv E X st'"
  proof (cases "at L2TP_ATTR_SESSION_ID")
    case (Some sid)
    obtain old where old: "l2tp_session_find E net (Some tp) (nla_get_u32 sid) st = Inr old"
      by (rule session_find_inv [OF E inv t, of net "nla_get_u32 sid"]) auto
    show ?thesis
    proof (cases "at L2TP_ATTR_PEER_SESSION_ID = None \<or> at L2TP_ATTR_PW_TYPE = None")
      case True
      then show ?thesis using Some old inv by (auto split: option.splits)
    next
      case False
      then obtain psid pwt where a: "at L2TP_ATTR_PEER_SESSION_ID = Some psid" "at L2TP_ATTR_PW_TYPE = Some pwt" by auto
      show ?thesis
      proof (cases "nl_create_cfg E at t (nla_get_u16 pwt)")
        case None
        then show ?thesis using Some old a t inv by simp
      next
        case (Some cfg)
        then show ?thesis using \<open>at L2TP_ATTR_SESSION_ID = _\<close> old a t inv pw [OF nl_create_cfg_ok [OF Some]] by simp
      qed
    qed
  qed (use inv in simp)
qed

lemma nl_session_delete_inv:
  assumes E: "wf_env E" and inv: "inv E X st"
  shows "\<exists>r st'. l2tp_nl_cmd_session_delete E net at st = Inr (r, st') \<and> inv E X st'"
proof (rule nl_session_find_inv [OF E inv, of net at])
  fix p s
  assume f: "l2tp_nl_session_find E net at st = Inr (Some p)" and s: "k_sessions st p = Some s" "is_linked st p s"
  obtain st' where "l2tp_session_delete E p st = Inr st'" "inv E X st'" by (rule session_delete_inv [OF inv s])
  then show ?thesis using f s inv by (simp add: l2tp_nl_cmd_session_delete_def)
qed (use inv in \<open>simp add: l2tp_nl_cmd_session_delete_def\<close>)

lemma modify_session_same: "same_session s (modify_session E at t s)"
  by (cases "at L2TP_ATTR_SEND_SEQ")
     (simp_all add: same_session_def modify_session_def Let_def attr_or_def l2tp_session_set_header_len_def)

lemma nl_session_modify_inv:
  assumes E: "wf_env E" and inv: "inv E X st"
  shows "\<exists>r st'. l2tp_nl_cmd_session_modify E net at st = Inr (r, st') \<and> inv E X st'"
proof (rule nl_session_find_inv [OF E inv, of net at])
  fix p s
  assume f: "l2tp_nl_session_find E net at st = Inr (Some p)" and s: "k_sessions st p = Some s" "is_linked st p s"
  obtain tp t where "s_tunnel s = Some tp" "k_tunnels st tp = Some t" using s(2) by (auto simp: is_linked_def in_tunnel_def)
  then show ?thesis using f s inv_same_session [OF inv s(1) modify_session_same]
    by (cases "at L2TP_ATTR_SEND_SEQ") (simp_all add: l2tp_nl_cmd_session_modify_def)
qed (use inv in \<open>simp add: l2tp_nl_cmd_session_modify_def\<close>)

section \<open>Events\<close>

text \<open>
  What can happen between two states: a netlink request with its attributes in a namespace, the
  work item of a tunnel, the release of a tunnel's socket by its owner, the end of a socket without
  references, the end of an RCU grace period, a packet that the device of an Ethernet pseudowire
  sends, a packet leaving the device queue, and a socket that userspace opens.
\<close>

datatype event = Tunnel_create nat nl_attrs | Tunnel_delete nat nl_attrs | Tunnel_modify nat nl_attrs
  | Session_create nat nl_attrs | Session_delete nat nl_attrs | Session_modify nat nl_attrs
  | Del_work ptr | Release ptr | Sk_free ptr | Grace_period ptr | Eth_xmit sk_buff ptr | Wfree sk_buff | Open_sock sock

definition drop_ret :: "('a \<times> kst) kres \<Rightarrow> kst kres" where
  "drop_ret r = bind_res r (\<lambda>(_, st). Inr st)"

fun run_event :: "kenv \<Rightarrow> event \<Rightarrow> kst \<Rightarrow> kst kres" where
  "run_event E (Tunnel_create net at) st = drop_ret (l2tp_nl_cmd_tunnel_create E net at st)"
| "run_event E (Tunnel_delete net at) st = drop_ret (l2tp_nl_cmd_tunnel_delete E net at st)"
| "run_event E (Tunnel_modify net at) st = drop_ret (l2tp_nl_cmd_tunnel_modify net at st)"
| "run_event E (Session_create net at) st = drop_ret (l2tp_nl_cmd_session_create E net at st)"
| "run_event E (Session_delete net at) st = drop_ret (l2tp_nl_cmd_session_delete E net at st)"
| "run_event E (Session_modify net at) st = drop_ret (l2tp_nl_cmd_session_modify E net at st)"
| "run_event E (Del_work tp) st = l2tp_tunnel_del_work E tp st"
| "run_event E (Release a) st = sk_release_kernel E a st"
| "run_event E (Sk_free a) st = sk_free E a st"
| "run_event E (Grace_period tp) st = Inr (free_percpu_and_l2tp_tunnel tp st)"
| "run_event E (Eth_xmit skb d) st = l2tp_eth_dev_xmit E skb d st"
| "run_event E (Wfree skb) st = l2tp_sock_wfree skb st"
| "run_event E (Open_sock sk) st = Inr (put_sock (k_next st) sk (st\<lparr>k_next := k_next st + 1\<rparr>))"

text \<open>
  When an event can happen. A descriptor in a request names an open socket of the caller; the
  work item finds the kernel's socket still there or the caller's descriptor closed; a released
  socket is a tunnel's; a device sends when the header of its session fits.
\<close>

fun enabled :: "kenv \<Rightarrow> event \<Rightarrow> kst \<Rightarrow> bool" where
  "enabled E (Tunnel_create net at) st \<longleftrightarrow>
     (case at L2TP_ATTR_FD of None \<Rightarrow> True | Some v \<Rightarrow> 0 \<le> sint (nla_get_u32 v) \<longrightarrow> fd_ok E (sint (nla_get_u32 v)) st)"
| "enabled E (Del_work tp) st \<longleftrightarrow> tp \<in> set (l2tp_wq st) \<and>
     (case k_tunnels st tp of None \<Rightarrow> False
      | Some t \<Rightarrow> if t_fd t < 0 then t_sock t \<noteq> None else sockfd_lookup E (t_fd t) = None)"
| "enabled E (Release a) st \<longleftrightarrow> (case socks (k_world st) a of None \<Rightarrow> False
      | Some sk \<Rightarrow> sk_destruct sk = Some L2tp_tunnel_destruct \<and> sk_user_data sk \<noteq> None)"
| "enabled E (Sk_free a) st \<longleftrightarrow> (case socks (k_world st) a of None \<Rightarrow> False | Some sk \<Rightarrow> sk_refcnt sk = 0)"
| "enabled E (Grace_period tp) st \<longleftrightarrow> tp \<in> set (k_rcu st)"
| "enabled E (Eth_xmit skb d) st \<longleftrightarrow> can_send st d \<and> wf_skb skb"
| "enabled E (Wfree skb) st \<longleftrightarrow> skb \<in> set (k_wskbs st)"
| "enabled E (Open_sock sk) st \<longleftrightarrow> unused_sock sk"
| "enabled E _ st \<longleftrightarrow> True"

text \<open>A sequence of events, each enabled when its turn comes.\<close>

fun run_events :: "kenv \<Rightarrow> event list \<Rightarrow> kst \<Rightarrow> kst kres" where
  "run_events E [] st = Inr st"
| "run_events E (ev # evs) st = bind_res (run_event E ev st) (run_events E evs)"

fun all_enabled :: "kenv \<Rightarrow> event list \<Rightarrow> kst \<Rightarrow> bool" where
  "all_enabled E [] st \<longleftrightarrow> True"
| "all_enabled E (ev # evs) st \<longleftrightarrow> enabled E ev st \<and> (case run_event E ev st of Inl _ \<Rightarrow> False | Inr st' \<Rightarrow> all_enabled E evs st')"

lemma drop_ret_Inr: "r = Inr (x, st) \<Longrightarrow> drop_ret r = Inr st"
  by (simp add: drop_ret_def)

lemma run_event_inv:
  assumes E: "wf_env E" "socket_layer E" "cow_head_ok E" and inv: "inv E quiet st" and en: "enabled E ev st"
  obtains st' where "run_event E ev st = Inr st'" and "inv E quiet st'"
proof (cases ev)
  case (Tunnel_create net at)
  have "\<exists>r st'. l2tp_nl_cmd_tunnel_create E net at st = Inr (r, st') \<and> inv E quiet st'"
    by (rule nl_tunnel_create_inv [OF E(2) inv]) (use en Tunnel_create in auto)
  then show thesis using that Tunnel_create by (auto simp: drop_ret_Inr)
next
  case (Tunnel_delete net at)
  then show thesis using that nl_tunnel_delete_inv [OF inv, of net at] by (auto simp: drop_ret_Inr)
next
  case (Tunnel_modify net at)
  then show thesis using that nl_tunnel_modify_inv [OF inv, of net at] by (auto simp: drop_ret_Inr)
next
  case (Session_create net at)
  then show thesis using that nl_session_create_inv [OF E(1) inv, of net at] by (auto simp: drop_ret_Inr)
next
  case (Session_delete net at)
  then show thesis using that nl_session_delete_inv [OF E(1) inv, of net at] by (auto simp: drop_ret_Inr)
next
  case (Session_modify net at)
  then show thesis using that nl_session_modify_inv [OF E(1) inv, of net at] by (auto simp: drop_ret_Inr)
next
  case (Del_work tp)
  then obtain t where t: "tp \<in> set (l2tp_wq st)" "k_tunnels st tp = Some t" "if t_fd t < 0 then t_sock t \<noteq> None else sockfd_lookup E (t_fd t) = None"
    using en by (auto split: option.splits)
  show thesis
  proof (cases "t_fd t < 0")
    case True
    then obtain a where "t_sock t = Some a" using t(3) by auto
    then obtain st' where "l2tp_tunnel_del_work E tp st = Inr st'" "inv E quiet st'" using del_work_kernel [OF inv t(1,2) _ True] by metis
    then show thesis using Del_work by (intro that) simp_all
  next
    case False
    then obtain st' where "l2tp_tunnel_del_work E tp st = Inr st'" "inv E quiet st'"
      using del_work_closed_fd [OF inv t(1,2)] t(3) by (metis not_le)
    then show thesis using Del_work by (intro that) simp_all
  qed
next
  case (Release a)
  then obtain sk tp where sk: "socks (k_world st) a = Some sk" "sk_destruct sk = Some L2tp_tunnel_destruct" "sk_user_data sk = Some tp"
    using en by (auto split: option.splits)
  then obtain t where "k_tunnels st tp = Some t" "t_sock t = Some a" using inv_user [OF inv sk(1,3)] by (auto simp: user_ok_def)
  then obtain st' where "sk_release_kernel E a st = Inr st'" "inv E quiet st'" by (rule release_kernel_inv [OF inv])
  then show thesis using Release by (intro that) simp_all
next
  case (Sk_free a)
  then obtain sk where sk: "socks (k_world st) a = Some sk" "sk_refcnt sk = 0" using en by (auto split: option.splits)
  obtain st' where "sk_free E a st = Inr st'" "inv E quiet st'" by (rule sk_free_inv [OF inv sk])
  then show thesis using Sk_free by (intro that) simp_all
next
  case (Grace_period tp)
  then show thesis using that rcu_inv [OF inv, of tp] en by simp
next
  case (Eth_xmit skb d)
  then have "can_send st d" "wf_skb skb" using en by simp_all
  then obtain st' where "l2tp_eth_dev_xmit E skb d st = Inr st'" "inv E quiet st'" by (rule eth_dev_xmit_inv [OF E(3) inv])
  then show thesis using Eth_xmit by (intro that) simp_all
next
  case (Wfree skb)
  then obtain st' where "l2tp_sock_wfree skb st = Inr st'" "inv E quiet st'" using wfree_inv [OF inv, of skb] en by auto
  then show thesis using Wfree by (intro that) simp_all
next
  case (Open_sock sk)
  then show thesis using that put_new_sock_inv [OF inv, of sk] en by (simp add: unused_sock_def)
qed

section \<open>Reachable states\<close>

text \<open>
  The module just loaded: no tunnel, no session, the lists of every namespace empty; sockets exist,
  but none of them belongs to L2TP. The environment may change from step to step, but not its
  hash function.
\<close>

definition init_state :: "kst \<Rightarrow> bool" where
  "init_state st \<longleftrightarrow> k_tunnels st = (\<lambda>_. None) \<and> k_sessions st = (\<lambda>_. None) \<and> devs (k_world st) = (\<lambda>_. None) \<and>
     (\<forall>a sk. socks (k_world st) a = Some sk \<longrightarrow> unused_sock sk \<and> a < k_next st) \<and>
     (\<forall>n. k_nets st n = \<lparr>l2tp_tunnel_list = [], l2tp_session_hlist = replicate L2TP_HASH_SIZE_2 []\<rparr>) \<and>
     l2tp_wq st = [] \<and> k_rcu st = [] \<and> k_wskbs st = [] \<and> l2tp_tunnel_count st = 0 \<and> l2tp_session_count st = 0"

definition env_ok :: "(u32 \<Rightarrow> nat \<Rightarrow> nat) \<Rightarrow> kenv \<Rightarrow> bool" where
  "env_ok H E \<longleftrightarrow> wf_env E \<and> socket_layer E \<and> cow_head_ok E \<and> hash_32 E = H"

inductive reachable :: "(u32 \<Rightarrow> nat \<Rightarrow> nat) \<Rightarrow> kst \<Rightarrow> bool" for H where
  init: "init_state st \<Longrightarrow> reachable H st"
| step: "reachable H st \<Longrightarrow> env_ok H E \<Longrightarrow> enabled E ev st \<Longrightarrow> run_event E ev st = Inr st' \<Longrightarrow> reachable H st'"

lemma init_inv:
  assumes "init_state st"
  shows "inv E X st"
proof (rule invI)
  have i: "k_tunnels st = (\<lambda>_. None)" "k_sessions st = (\<lambda>_. None)" "devs (k_world st) = (\<lambda>_. None)" "l2tp_wq st = []" "k_rcu st = []" "k_wskbs st = []"
    "l2tp_tunnel_count st = 0" "l2tp_session_count st = 0" "k_nets st n = \<lparr>l2tp_tunnel_list = [], l2tp_session_hlist = replicate 256 []\<rparr>" for n
    using assms by (simp_all add: init_state_def)
  have sk: "unused_sock sk \<and> a < k_next st" if "socks (k_world st) a = Some sk" for a sk using assms that by (simp add: init_state_def)
  show "user_ok st a sk x" if "socks (k_world st) a = Some sk" for a sk x using sk [OF that] by (simp add: user_ok_def unused_sock_def)
  show "net_ok E st n" for n by (simp add: net_ok_def i table_ok_def v3_linked_def tunnels_in_def)
  show "fresh_ok st" using sk by (fastforce simp: fresh_ok_def i not_le [symmetric] dest: leD intro: ccontr)
  show "queues_ok st" by (simp add: queues_ok_def i)
  show "counts_ok st" by (simp add: counts_ok_def i)
qed (use assms in \<open>simp_all add: init_state_def\<close>)

lemma inv_env:
  assumes "hash_32 E' = hash_32 E"
  shows "inv E' X st = inv E X st"
proof -
  have h: "l2tp_session_id_hash E' = l2tp_session_id_hash E" "l2tp_session_id_hash_2 E' = l2tp_session_id_hash_2 E"
    using assms by (simp_all add: l2tp_session_id_hash_def l2tp_session_id_hash_2_def fun_eq_iff)
  show ?thesis unfolding inv_def tunnel_ok_def net_ok_def h by (rule refl)
qed

lemma reachable_inv:
  assumes "reachable H st" and "env_ok H E"
  shows "inv E quiet st"
  using assms
proof (induction arbitrary: E rule: reachable.induct)
  case (init st)
  then show ?case by (intro init_inv)
next
  case (step st E' ev st')
  have "inv E' quiet st" by (rule step.IH [OF step.hyps(2)])
  then obtain st1 where "run_event E' ev st = Inr st1" "inv E' quiet st1"
    using run_event_inv [OF _ _ _ _ step.hyps(3)] step.hyps(2) by (auto simp: env_ok_def)
  then have "inv E' quiet st'" using step.hyps(4) by simp
  moreover have "hash_32 E = hash_32 E'" using step.hyps(2) step.prems by (simp add: env_ok_def)
  ultimately show ?case using inv_env by metis
qed

lemma reachable_events:
  "reachable H st \<Longrightarrow> env_ok H E \<Longrightarrow> all_enabled E evs st \<Longrightarrow> \<exists>st'. run_events E evs st = Inr st' \<and> reachable H st'"
proof (induction evs arbitrary: st)
  case (Cons ev evs)
  then obtain st1 where st1: "run_event E ev st = Inr st1" "all_enabled E evs st1" by (auto split: sum.splits)
  have "reachable H st1" by (rule reachable.step [OF Cons.prems(1,2) _ st1(1)]) (use Cons.prems in simp)
  then show ?case using Cons.IH [OF _ Cons.prems(2) st1(2)] st1(1) by simp
qed simp

end
