(* ===== verification/Sample_Run.thy ===== *)
theory Sample_Run
  imports L2tp_System
begin

unbundle bit_operations_syntax

text \<open>
  A run of the system from a module just loaded: a tunnel over a socket of the kernel, an Ethernet
  session in it, and the deletion of both. The witnesses of the properties of reachable states are
  taken from it.
\<close>

definition kern_sock :: sock where
  "kern_sock = sample_sock\<lparr>sk_file := False\<rparr>"

lemma kern_sock_simps [simp]:
  "sk_user_data kern_sock = None" "sk_file kern_sock = False" "sk_protocol kern_sock = 17" "sk_family kern_sock = 2"
  "sk_destruct kern_sock = Some Sock_destruct" "sk_socket kern_sock" "sk_refcnt kern_sock = 1" "encap_destroy kern_sock = False"
  by (simp_all add: kern_sock_def sample_sock_def)

definition kern_env :: kenv where
  "kern_env = sample_env\<lparr>sock_create_kern := (\<lambda>_ _. Inr kern_sock),
     skb_cow_head := (\<lambda>skb n. Some (skb\<lparr>skb_head := replicate (n - length (skb_head skb)) 0 @ skb_head skb\<rparr>))\<rparr>"

lemma kern_env_simps [simp]:
  "skb_cow_head kern_env skb k = Some (skb\<lparr>skb_head := replicate (k - length (skb_head skb)) 0 @ skb_head skb\<rparr>)"
  "sock_create_kern kern_env f p = Inr kern_sock" "kernel_bind kern_env a sk = (0, sk)" "kernel_connect kern_env a sk = sk"
  "kzalloc_ok kern_env i" "possible_cpus kern_env = 2" "hash_32 kern_env x n = unat x mod 2 ^ n" "wf_env kern_env"
  "register_netdev kern_env dev = Inr ''l2tpeth0''" "dev_name_taken kern_env n name = False" "dst_pmtu kern_env q = None"
  "sk_dst_check kern_env q = None"
  by (simp_all add: kern_env_def sample_env_def wf_env_def)

definition run_init :: kst where
  "run_init = \<lparr>k_tunnels = (\<lambda>_. None), k_sessions = (\<lambda>_. None),
     k_world = \<lparr>socks = (\<lambda>_. None), devs = (\<lambda>_. None), eth_dev_list = (\<lambda>_. [])\<rparr>,
     k_nets = (\<lambda>_. \<lparr>l2tp_tunnel_list = [], l2tp_session_hlist = replicate 256 []\<rparr>),
     l2tp_tunnel_count = 0, l2tp_session_count = 0, l2tp_wq = [], k_rcu = [], k_wskbs = [], k_trace = [], k_next = 10,
     l2tp_nl_cmd_ops = (\<lambda>_. None)(5 \<mapsto> L2tp_eth_nl_cmd_ops)\<rparr>"

definition run_tunnel :: nl_attrs where
  "run_tunnel = (\<lambda>_. None)(L2TP_ATTR_CONN_ID \<mapsto> Nl_u32 3, L2TP_ATTR_PEER_CONN_ID \<mapsto> Nl_u32 4,
     L2TP_ATTR_PROTO_VERSION \<mapsto> Nl_u8 3, L2TP_ATTR_ENCAP_TYPE \<mapsto> Nl_u16 0,
     L2TP_ATTR_IP_SADDR \<mapsto> Nl_u32 0x7f000001, L2TP_ATTR_IP_DADDR \<mapsto> Nl_u32 0x7f000001)"

definition run_session :: nl_attrs where
  "run_session = (\<lambda>_. None)(L2TP_ATTR_CONN_ID \<mapsto> Nl_u32 3, L2TP_ATTR_SESSION_ID \<mapsto> Nl_u32 7,
     L2TP_ATTR_PEER_SESSION_ID \<mapsto> Nl_u32 9, L2TP_ATTR_PW_TYPE \<mapsto> Nl_u16 5)"

definition run_sk :: sock where
  "run_sk = prep_sock 0 11 (kern_sock\<lparr>sk_net := 0, freebind := True, force_daddr_on_connect := True, sk_no_check := 1\<rparr>)"

definition run_tun :: l2tp_tunnel where
  "run_tun = sample_tunnel\<lparr>t_sock := Some 10, t_fd := - 1\<rparr>"

definition run_st1 :: kst where
  "run_st1 = run_init\<lparr>k_tunnels := (\<lambda>_. None)(11 \<mapsto> run_tun), k_world := (k_world run_init)\<lparr>socks := (\<lambda>_. None)(10 \<mapsto> run_sk)\<rparr>,
     k_nets := (k_nets run_init)(0 := \<lparr>l2tp_tunnel_list = [11], l2tp_session_hlist = replicate 256 []\<rparr>), l2tp_tunnel_count := 1, k_next := 12\<rparr>"

lemma run_tun_new [simp]: "tcfg_debug c = 0 \<Longrightarrow> new_tunnel kern_env 0 (- 1) 3 3 4 (Some c) 0 10
     (kern_sock\<lparr>sk_net := 0, freebind := True, force_daddr_on_connect := True, sk_no_check := Suc 0\<rparr>) = run_tun"
  by (simp add: new_tunnel_def run_tun_def sample_tunnel_def zero_tunnel_def sock_v4mapped_def numeral_eq_Suc)

lemma run_created: "run_event kern_env (Tunnel_create 0 run_tunnel) run_init = Inr run_st1"
  by (simp add: run_tunnel_def run_init_def drop_ret_def l2tp_nl_cmd_tunnel_create_def tunnel_cfg_of_def tunnel_addrs_def attr_or_def
   tunnel_ports_def connect_tcfg_def l2tp_tunnel_find_def l2tp_tunnel_create_def l2tp_tunnel_sock_create_def sock_create_bound_def tunnel_on_sock_def deref_ptr_def
   tunnel_create_done_def set_tunnel_def upd_net_def upd_sock_def Let_def run_st1_def run_sk_def)

lemma run_st1_simps [simp]:
  "k_tunnels run_st1 = (\<lambda>_. None)(11 \<mapsto> run_tun)" "k_sessions run_st1 = (\<lambda>_. None)" "socks (k_world run_st1) = (\<lambda>_. None)(10 \<mapsto> run_sk)"
  "k_nets run_st1 0 = \<lparr>l2tp_tunnel_list = [11], l2tp_session_hlist = replicate 256 []\<rparr>" "k_next run_st1 = 12"
  "l2tp_nl_cmd_ops run_st1 = (\<lambda>_. None)(5 \<mapsto> L2tp_eth_nl_cmd_ops)" "l2tp_wq run_st1 = []" "k_wskbs run_st1 = []" "k_rcu run_st1 = []"
  "devs (k_world run_st1) = (\<lambda>_. None)" "l2tp_tunnel_count run_st1 = 1" "l2tp_session_count run_st1 = 0"
  by (simp_all add: run_st1_def run_init_def)

lemma run_tun_simps [simp]:
  "t_magic run_tun = 0x42114DDA" "session_hlist run_tun = replicate 16 []" "tunnel_id run_tun = 3" "version run_tun = 3" "encap run_tun = 0"
  "l2tp_net run_tun = 0" "t_ref_count run_tun = 1" "t_sock run_tun = Some 10" "t_fd run_tun = - 1"
  by (simp_all add: run_tun_def)

lemma kern_register [simp]: "fst (register_eth_dev kern_env dev) = 0"
  by (simp add: register_eth_dev_def l2tp_eth_dev_init_def)

lemma new_session_ids [simp]: "s_tunnel (new_session E pr tp t sid psid) = Some tp" "session_id (new_session E pr tp t sid psid) = sid"
  by (simp_all add: new_session_def Let_def)

text \<open>What the witnesses need to know of the state with a session.\<close>

definition run_state2 :: "kst \<Rightarrow> l2tp_session \<Rightarrow> l2tp_tunnel \<Rightarrow> bool" where
  "run_state2 st s t \<longleftrightarrow> k_sessions st 12 = Some s \<and> (\<forall>p. p \<noteq> 12 \<longrightarrow> k_sessions st p = None) \<and> s_tunnel s = Some 11 \<and> session_id s = 7 \<and> priv s = PrivEth (Some 13) \<and>
     header_fits t s \<and> k_tunnels st 11 = Some t \<and> t_sock t = Some 10 \<and> tunnel_id t = 3 \<and> t_fd t < 0 \<and> 12 \<in> linked (session_hlist t) \<and>
     (\<exists>dev. devs (k_world st) 13 = Some dev \<and> eth_session dev = 12) \<and> (\<exists>sk. socks (k_world st) 10 = Some sk \<and> \<not> sk_file sk) \<and>
     l2tp_tunnel_list (k_nets st 0) = [11] \<and> l2tp_wq st = [] \<and> k_wskbs st = []"

lemma kern_register_session [simp]: "eth_session (snd (register_eth_dev kern_env dev)) = eth_session dev"
  by (simp add: register_eth_dev_def l2tp_eth_dev_init_def)

lemma run_sk_file [simp]: "sk_file run_sk = False"
  by (simp add: run_sk_def prep_sock_def Let_def sock_v4mapped_def)

lemma run_finish [simp]:
  "build_header (finish_session run_tun s) = L2tp_build_l2tpv3_header" "cookie_len (finish_session t s) = cookie_len s" "cookie (finish_session t s) = cookie s"
  "l2specific_len (finish_session t s) = l2specific_len s" "l2specific_type (finish_session t s) = l2specific_type s" "s_offset (finish_session t s) = s_offset s"
  "hdr_len (finish_session run_tun s) = hdr_len (l2tp_session_set_header_len run_tun s 3)"
  by (simp_all add: finish_session_def l2tp_session_set_header_len_def Let_def)

lemma run_session_created: "\<exists>st s t. run_event kern_env (Session_create 0 run_session) run_st1 = Inr st \<and> run_state2 st s t"
  by (simp add: case_prod_unfold run_state2_def socks_upd_sock header_fits_def v3_ok_def v3_hdr_len_def l2tp_session_set_header_len_def run_session_def drop_ret_def l2tp_nl_cmd_session_create_def on_nl_tunnel_def l2tp_tunnel_find_def deref_ptr_def
   l2tp_session_find_def l2tp_session_id_hash_def nl_create_cfg_def session_cfg_v3_def cookie_attr_def attr_or_def ppp_cfg_def session_cfg_common_def
   nl_create_pw_def l2tp_eth_create_def l2tp_session_create_def apply_session_cfg_def memcpy8_def Let_def set_session_def link_session_def
   l2tp_tunnel_inc_refcount_def set_tunnel_def on_world_def sock_hold_def upd_net_def eth_attach_def)

lemma run_new_session: "\<exists>p st. l2tp_session_create kern_env (PrivEth None) 11 7 9 None run_st1 = Inr (Some p, st)"
  by (simp add: l2tp_session_create_def Let_def set_session_def link_session_def l2tp_tunnel_inc_refcount_def set_tunnel_def
   on_world_def sock_hold_def deref_ptr_def)
definition run_hash :: "u32 \<Rightarrow> nat \<Rightarrow> nat" where
  "run_hash x n = unat x mod 2 ^ n"

lemma run_env_ok [simp]: "env_ok run_hash kern_env"
  by (auto simp: env_ok_def socket_layer_def cow_head_ok_def wf_skb_def new_sock_def unused_sock_def run_hash_def fun_eq_iff)

lemma run_init_reachable [simp]: "reachable run_hash run_init"
  by (rule reachable.init) (simp add: init_state_def run_init_def)

lemma run_st1_reachable [simp]: "reachable run_hash run_st1"
  by (rule reachable.step [OF run_init_reachable run_env_ok _ run_created]) (simp add: run_tunnel_def)

lemma run_st2:
  obtains st s t where "reachable run_hash st" and "run_state2 st s t"
proof -
  obtain st s t where st: "run_event kern_env (Session_create 0 run_session) run_st1 = Inr st" "run_state2 st s t" using run_session_created by blast
  have "reachable run_hash st" by (rule reachable.step [OF run_st1_reachable run_env_ok _ st(1)]) simp
  then show thesis using st(2) by (rule that)
qed

end
