(* ===== verification/L2tp_Store.thy ===== *)
theory L2tp_Store
  imports Sample_Run
begin

unbundle bit_operations_syntax

text \<open>
  The sessions of a tunnel as a table from session ids to sessions. \<open>session_table\<close> abstracts
  from hash chains, reference counts and the rest of the heap; creating, deleting and looking up a
  session act on it as insertion, removal and search. The laws are the locale \<open>session_store\<close>,
  and what a client gets from them is proved there once.
\<close>

section \<open>The abstract table\<close>

definition session_table :: "kst \<Rightarrow> ptr \<Rightarrow> u32 \<Rightarrow> ptr set" where
  "session_table st tp sid = {p. in_tunnel st tp p \<and> (\<exists>s. k_sessions st p = Some s \<and> session_id s = sid)}"

definition table_insert :: "ptr \<Rightarrow> u32 \<Rightarrow> ptr \<Rightarrow> (ptr \<Rightarrow> u32 \<Rightarrow> ptr set) \<Rightarrow> ptr \<Rightarrow> u32 \<Rightarrow> ptr set" where
  "table_insert tp sid p T = (\<lambda>x i. if x = tp \<and> i = sid then insert p (T x i) else T x i)"

definition table_remove :: "ptr \<Rightarrow> (ptr \<Rightarrow> u32 \<Rightarrow> ptr set) \<Rightarrow> ptr \<Rightarrow> u32 \<Rightarrow> ptr set" where
  "table_remove p T = (\<lambda>x i. T x i - {p})"

text \<open>The answer a search may give: some session with the id, or none if there is none.\<close>

definition table_answer :: "ptr set \<Rightarrow> ptr option \<Rightarrow> bool" where
  "table_answer S r \<longleftrightarrow> (case r of None \<Rightarrow> S = {} | Some p \<Rightarrow> p \<in> S)"

locale session_store =
  fixes good :: "'s \<Rightarrow> bool" and live :: "'s \<Rightarrow> ptr \<Rightarrow> bool" and tab :: "'s \<Rightarrow> ptr \<Rightarrow> u32 \<Rightarrow> ptr set"
    and new :: "ptr \<Rightarrow> u32 \<Rightarrow> 's \<Rightarrow> (ptr option \<times> 's) kres" and del :: "ptr \<Rightarrow> 's \<Rightarrow> 's kres"
    and look :: "ptr \<Rightarrow> u32 \<Rightarrow> 's \<Rightarrow> ptr option kres"
  assumes look_spec: "good st \<Longrightarrow> live st tp \<Longrightarrow> \<exists>r. look tp sid st = Inr r \<and> table_answer (tab st tp sid) r"
    and new_spec: "good st \<Longrightarrow> live st tp \<Longrightarrow> new tp sid st = Inr (Some p, st') \<Longrightarrow>
      good st' \<and> live st' tp \<and> tab st' = table_insert tp sid p (tab st) \<and> (\<forall>x i. p \<notin> tab st x i)"
    and del_spec: "good st \<Longrightarrow> live st tp \<Longrightarrow> p \<in> tab st tp sid \<Longrightarrow>
      \<exists>st'. del p st = Inr st' \<and> good st' \<and> live st' tp \<and> tab st' = table_remove p (tab st)"
begin

lemma new_found:
  assumes "good st" and "live st tp" and "tab st tp sid = {}" and "new tp sid st = Inr (Some p, st')"
  shows "look tp sid st' = Inr (Some p)"
proof -
  have n: "good st'" "live st' tp" "tab st' = table_insert tp sid p (tab st)" using new_spec [OF assms(1,2,4)] by simp_all
  obtain r where "look tp sid st' = Inr r" "table_answer (tab st' tp sid) r" using look_spec [OF n(1,2)] by blast
  then show ?thesis using n(3) assms(3) by (auto simp: table_answer_def table_insert_def split: option.splits)
qed

lemma new_others:
  assumes "good st" and "live st tp" and "new tp sid st = Inr (Some p, st')" and "i \<noteq> sid"
  shows "look tp i st' = Inr None \<longleftrightarrow> look tp i st = Inr None"
proof -
  have n: "good st'" "live st' tp" "tab st' tp i = tab st tp i" using new_spec [OF assms(1-3)] assms(4) by (simp_all add: table_insert_def)
  obtain r r' where "look tp i st = Inr r" "table_answer (tab st tp i) r" "look tp i st' = Inr r'" "table_answer (tab st tp i) r'"
    using look_spec [OF assms(1,2)] look_spec [OF n(1,2), of i] n(3) by metis
  then show ?thesis by (auto simp: table_answer_def split: option.splits)
qed

lemma del_gone:
  assumes "good st" and "live st tp" and "tab st tp sid = {p}"
  shows "\<exists>st'. del p st = Inr st' \<and> look tp sid st' = Inr None"
proof -
  obtain st' where d: "del p st = Inr st'" "good st'" "live st' tp" "tab st' = table_remove p (tab st)"
    using del_spec [OF assms(1,2), of p sid] assms(3) by auto
  obtain r where "look tp sid st' = Inr r" "table_answer (tab st' tp sid) r" using look_spec [OF d(2,3)] by blast
  then show ?thesis using d assms(3) by (auto simp: table_answer_def table_remove_def split: option.splits)
qed

end

section \<open>The operations on the heap\<close>

definition has_tunnel :: "kst \<Rightarrow> ptr \<Rightarrow> bool" where
  "has_tunnel st tp \<longleftrightarrow> (\<exists>t. k_tunnels st tp = Some t \<and> t_sock t \<noteq> None)"

lemma session_find_table:
  assumes E: "wf_env E" and inv: "inv E X st" and "has_tunnel st tp"
  shows "\<exists>r. l2tp_session_find E net (Some tp) sid st = Inr r \<and> table_answer (session_table st tp sid) r"
proof -
  obtain t where t: "k_tunnels st tp = Some t" using assms(3) by (auto simp: has_tunnel_def)
  show ?thesis
    by (rule session_find_inv [OF E inv t, of net sid]) (auto simp: table_answer_def session_table_def)
qed

lemma created_table:
  assumes "new_ok E X st s tp t a"
  shows "session_table (created E s tp t a st) = table_insert tp (session_id s) (k_next st) (session_table st)"
    and "k_next st \<notin> session_table st x i"
proof -
  have n: "k_sessions st (k_next st) = None" by (rule new_basic(6) [OF assms])
  then show "k_next st \<notin> session_table st x i" by (simp add: session_table_def)
  have no: "\<not> in_tunnel st x (k_next st)" for x
  proof
    assume "in_tunnel st x (k_next st)"
    then obtain u where "k_tunnels st x = Some u" "k_next st \<in> linked (session_hlist u)" by (auto simp: in_tunnel_def)
    then have "k_next st \<in> sess_of st x" using inv_tunnel [OF new_basic(2) [OF assms], of x u] unfolding tunnel_ok_def by blast
    then show False using n by (simp add: sess_of_def)
  qed
  show "session_table (created E s tp t a st) = table_insert tp (session_id s) (k_next st) (session_table st)"
    by (rule ext)+ (use n no in \<open>auto simp: session_table_def table_insert_def created_views(2) [OF assms] created_fields\<close>)
qed

lemma session_create_table:
  assumes E: "wf_env E" and inv: "inv E X st" and t: "has_tunnel st tp" and pr: "bare_priv pr"
    and cfg: "case cfg of None \<Rightarrow> True | Some c \<Rightarrow> cfg_ok c"
    and c: "l2tp_session_create E pr tp sid psid cfg st = Inr (Some p, st')"
  shows "inv E X st' \<and> has_tunnel st' tp \<and> session_table st' = table_insert tp sid p (session_table st) \<and> (\<forall>x i. p \<notin> session_table st x i)"
proof -
  obtain t a where t: "k_tunnels st tp = Some t" "t_sock t = Some a" using t by (auto simp: has_tunnel_def)
  show ?thesis
  proof (rule session_create_inv [OF E inv t pr cfg, of sid psid])
    fix s
    assume s: "l2tp_session_create E pr tp sid psid cfg st = Inr (Some (k_next st), created E s tp t a st)" "new_ok E X st s tp t a"
      "inv E X (created E s tp t a st)" "session_id s = sid"
    then have "p = k_next st" "st' = created E s tp t a st" using c by simp_all
    then show ?thesis using s(3,4) created_table [OF s(2)] t by (simp add: has_tunnel_def created_fields)
  qed (use c in simp)
qed

lemma session_delete_table:
  assumes inv: "inv E X st" and p: "p \<in> session_table st tp sid" and x: "has_tunnel st x"
  shows "\<exists>st'. l2tp_session_delete E p st = Inr st' \<and> inv E X st' \<and> has_tunnel st' x \<and> session_table st' = table_remove p (session_table st)"
proof -
  obtain s where s: "k_sessions st p = Some s" "in_tunnel st tp p" using p by (auto simp: session_table_def)
  obtain u where u: "k_tunnels st tp = Some u" "p \<in> linked (session_hlist u)" using s(2) by (auto simp: in_tunnel_def)
  have "s_tunnel s = Some tp" by (rule linked_own [OF inv u s(1)])
  then have l: "is_linked st p s" using s(2) by (simp add: is_linked_def)
  obtain tp' t a where live: "session_live st p s tp' t a" by (rule inv_live [OF inv s(1) l])
  let ?st = "deleted E p s tp' t a st" and ?x = "if held_by_socket s (k_world st) then Some (purged E (length (reorder_q s)) s) else None"
  have un: "unlinks st p s tp' t ?x ?st" by (rule deleted_unlinks)
  have t: "k_tunnels st tp' = Some t" "s_tunnel s = Some tp'" using live by (simp_all add: session_live_def)
  have own: "y = tp'" if "in_tunnel st y p" for y
    using that linked_own [OF inv _ _ s(1), of y] t(2) by (auto simp: in_tunnel_def)
  have "session_table ?st = table_remove p (session_table st)"
  proof (intro ext)
    fix y i
    have it: "in_tunnel ?st y q \<longleftrightarrow> in_tunnel st y q \<and> q \<noteq> p" for q
      using unlinks_in_tunnel [OF un t(1), of y q] own [of y] by (auto split: if_splits)
    have "k_sessions ?st q = k_sessions st q" if "q \<noteq> p" for q using un that by (simp add: unlinks_def)
    then show "session_table ?st y i = table_remove p (session_table st) y i"
      unfolding session_table_def table_remove_def it by auto
  qed
  moreover have "has_tunnel ?st x"
    unfolding has_tunnel_def un [unfolded unlinks_def, THEN conjunct2, THEN conjunct1] using x t(1) by (auto simp: has_tunnel_def)
  moreover have "l2tp_session_delete E p st = Inr ?st" by (rule session_delete_eff [OF live])
  moreover have "inv E X ?st" by (rule inv_deleted [OF inv live l])
  ultimately show ?thesis by blast
qed

definition new_args_ok :: "session_priv \<Rightarrow> l2tp_session_cfg option \<Rightarrow> bool" where
  "new_args_ok pr cfg \<longleftrightarrow> bare_priv pr \<and> (case cfg of None \<Rightarrow> True | Some c \<Rightarrow> cfg_ok c)"

interpretation ss: session_store "\<lambda>st. new_args_ok pr cfg \<and> wf_env E \<and> inv E quiet st" has_tunnel session_table
    "\<lambda>tp sid. l2tp_session_create E pr tp sid psid cfg" "l2tp_session_delete E" "\<lambda>tp sid. l2tp_session_find E net (Some tp) sid"
    for E pr cfg psid net
proof unfold_locales
  fix st tp sid
  assume "new_args_ok pr cfg \<and> wf_env E \<and> inv E quiet st" "has_tunnel st tp"
  then show "\<exists>r. l2tp_session_find E net (Some tp) sid st = Inr r \<and> table_answer (session_table st tp sid) r"
    using session_find_table by blast
next
  fix st tp sid p st'
  assume a: "new_args_ok pr cfg \<and> wf_env E \<and> inv E quiet st" "has_tunnel st tp" "l2tp_session_create E pr tp sid psid cfg st = Inr (Some p, st')"
  then show "(new_args_ok pr cfg \<and> wf_env E \<and> inv E quiet st') \<and> has_tunnel st' tp \<and>
      session_table st' = table_insert tp sid p (session_table st) \<and> (\<forall>x i. p \<notin> session_table st x i)"
    using session_create_table [OF _ _ a(2) _ _ a(3), of quiet] by (simp add: new_args_ok_def)
next
  fix st tp p sid
  assume a: "new_args_ok pr cfg \<and> wf_env E \<and> inv E quiet st" "has_tunnel st tp" "p \<in> session_table st tp sid"
  then show "\<exists>st'. l2tp_session_delete E p st = Inr st' \<and> (new_args_ok pr cfg \<and> wf_env E \<and> inv E quiet st') \<and>
      has_tunnel st' tp \<and> session_table st' = table_remove p (session_table st)"
    using session_delete_table [OF _ a(3,2)] by blast
qed

text \<open>The lookup by id alone, over the version 3 tunnels of a namespace.\<close>

definition net_table :: "kst \<Rightarrow> nat \<Rightarrow> u32 \<Rightarrow> ptr set" where
  "net_table st n sid = (\<Union>tp \<in> {tp. \<exists>t. k_tunnels st tp = Some t \<and> l2tp_net t = n \<and> version t \<noteq> L2TP_HDR_VER_2}. session_table st tp sid)"

lemma session_find_net_table:
  assumes E: "wf_env E" and inv: "inv E X st"
  shows "\<exists>r. l2tp_session_find E net None sid st = Inr r \<and> table_answer (net_table st net sid) r"
proof -
  let ?tbl = "l2tp_session_hlist (k_nets st net)"
  have ok: "gh.ok E (k_sessions st) ?tbl" and l: "linked ?tbl = v3_linked st net"
    using inv_net [OF inv, of net] by (simp_all add: net_ok_def)
  have nt: "net_table st net sid = {p \<in> linked ?tbl. \<exists>s. k_sessions st p = Some s \<and> session_id s = sid}"
    unfolding l net_table_def session_table_def v3_linked_def in_tunnel_def by auto metis
  have eq: "l2tp_session_find E net None sid st = gh.look E (k_sessions st) ?tbl sid"
    by (simp add: l2tp_session_find_def l2tp_session_find_2_def)
  obtain r where r: "gh.look E (k_sessions st) ?tbl sid = Inr r" using gh.look_returns [OF E ok] by blast
  have "table_answer (net_table st net sid) r"
  proof (cases r)
    case None
    then show ?thesis using r gh.look_None [OF E ok, of sid] unfolding nt by (auto simp: table_answer_def)
  next
    case (Some p)
    then show ?thesis using gh.look_Some [OF E ok, of sid p] r unfolding nt by (simp add: table_answer_def)
  qed
  then show ?thesis using eq r by simp
qed

section \<open>Properties\<close>

lemma reachable_good:
  assumes "reachable H st" and "env_ok H E"
  shows "wf_env E \<and> inv E quiet st"
  using assms reachable_inv [OF assms] by (simp add: env_ok_def)

text \<open>
  C12: looking up a session refines the search in the table of sessions. In a reachable state
  \<^verbatim>\<open>l2tp_session_find\<close> returns without a fault; with a tunnel it answers with a linked session of
  that tunnel that has the id, without one with a session of some version 3 tunnel of the
  namespace, and it answers with nothing only if there is no such session.
\<close>

theorem session_find_refines:
  assumes "reachable H st" and "env_ok H E" and "has_tunnel st tp"
  shows "(\<exists>r. l2tp_session_find E net (Some tp) sid st = Inr r \<and> table_answer (session_table st tp sid) r) \<and>
    (\<exists>r. l2tp_session_find E net None sid st = Inr r \<and> table_answer (net_table st net sid) r)"
  using reachable_good [OF assms(1,2)] session_find_table [OF _ _ assms(3)] session_find_net_table by blast

theorem session_find_refines_witness:
  "\<exists>r. l2tp_session_find kern_env 0 (Some 11) 7 run_st1 = Inr r \<and> table_answer (session_table run_st1 11 7) r"
  using session_find_refines [OF run_st1_reachable run_env_ok, of 11 0 7] by (simp add: has_tunnel_def)

text \<open>
  C10: creating a session inserts it into the table, and a lookup finds it. From a reachable state,
  when \<^verbatim>\<open>l2tp_session_create\<close> returns a session for an id that the tunnel does not have, the session
  is new, the table changes at this tunnel and id only, the lookup of the id returns exactly this
  session, and the lookup of every other id succeeds or fails as before.
\<close>

theorem session_create_refines:
  assumes "reachable H st" and "env_ok H E" and "has_tunnel st tp" and "new_args_ok pr cfg"
    and "l2tp_session_find E net (Some tp) sid st = Inr None"
    and "l2tp_session_create E pr tp sid psid cfg st = Inr (Some p, st')"
  shows "session_table st' = table_insert tp sid p (session_table st) \<and> (\<forall>x i. p \<notin> session_table st x i) \<and>
    l2tp_session_find E net (Some tp) sid st' = Inr (Some p) \<and>
    (i \<noteq> sid \<longrightarrow> (l2tp_session_find E net (Some tp) i st' = Inr None \<longleftrightarrow> l2tp_session_find E net (Some tp) i st = Inr None))"
proof -
  have g: "new_args_ok pr cfg \<and> wf_env E \<and> inv E quiet st" using reachable_good [OF assms(1,2)] assms(4) by simp
  have e: "session_table st tp sid = {}"
    using ss.look_spec [OF g assms(3), of net sid] assms(5) by (auto simp: table_answer_def)
  show ?thesis using ss.new_spec [OF g assms(3,6)] ss.new_found [OF g assms(3) e assms(6)] ss.new_others [OF g assms(3,6)] by blast
qed

theorem session_create_refines_witness:
  "\<exists>p st'. l2tp_session_create kern_env (PrivEth None) 11 7 9 None run_st1 = Inr (Some p, st') \<and>
     l2tp_session_find kern_env 0 (Some 11) 7 st' = Inr (Some p)"
proof -
  obtain p st' where c: "l2tp_session_create kern_env (PrivEth None) 11 7 9 None run_st1 = Inr (Some p, st')" using run_new_session by blast
  have "l2tp_session_find kern_env 0 (Some 11) 7 run_st1 = Inr None" by (simp add: l2tp_session_find_def l2tp_session_id_hash_def)
  moreover have "new_args_ok (PrivEth None) None" by (simp add: new_args_ok_def bare_priv_def ppp_sock_of_def eth_dev_of_def zero_session_def)
  ultimately show ?thesis
    using session_create_refines [OF run_st1_reachable run_env_ok _ _ _ c, of 0 0] c by (simp add: has_tunnel_def)
qed

text \<open>
  C11: deleting a session removes exactly it from the table. In a reachable state
  \<^verbatim>\<open>l2tp_session_delete\<close> on a linked session returns without a fault and the table loses this
  session and nothing else; if it was the only one with its id, the id is not found any more.
\<close>

theorem session_delete_refines:
  assumes "reachable H st" and "env_ok H E" and "has_tunnel st tp" and "p \<in> session_table st tp sid"
  shows "\<exists>st'. l2tp_session_delete E p st = Inr st' \<and> session_table st' = table_remove p (session_table st) \<and>
    (session_table st tp sid = {p} \<longrightarrow> l2tp_session_find E net (Some tp) sid st' = Inr None)"
proof -
  have g: "new_args_ok (PrivEth None) None \<and> wf_env E \<and> inv E quiet st"
    using reachable_good [OF assms(1,2)] by (simp add: new_args_ok_def bare_priv_def ppp_sock_of_def eth_dev_of_def zero_session_def)
  obtain st' where d: "l2tp_session_delete E p st = Inr st'" "session_table st' = table_remove p (session_table st)"
    using ss.del_spec [OF g assms(3,4)] by blast
  then show ?thesis using ss.del_gone [OF g assms(3), of sid p net] by auto
qed

theorem session_delete_refines_witness:
  "\<exists>st st'. reachable run_hash st \<and> 12 \<in> session_table st 11 7 \<and> l2tp_session_delete kern_env 12 st = Inr st' \<and>
     session_table st' = table_remove 12 (session_table st)"
proof -
  obtain st s t where r: "reachable run_hash st" "run_state2 st s t" by (rule run_st2)
  then have st: "reachable run_hash st" "k_sessions st 12 = Some s" "session_id s = 7" "k_tunnels st 11 = Some t" "t_sock t = Some 10"
    "12 \<in> linked (session_hlist t)" by (simp_all add: run_state2_def)
  have "has_tunnel st 11" "12 \<in> session_table st 11 7" using st by (simp_all add: has_tunnel_def session_table_def in_tunnel_def)
  then show ?thesis using session_delete_refines [OF st(1) run_env_ok, of 11 12 7 0] st(1) by blast
qed

end
