(* ===== verification/L2tp_Props.thy ===== *)
theory L2tp_Props
  imports Sample_Run
begin

unbundle bit_operations_syntax

text \<open>
  Properties of the running system: no enabled operation faults in a reachable state, reference
  counts and counters say what they should, and a deleted tunnel is given back with its socket and
  its sessions.
\<close>

section \<open>Safety\<close>

text \<open>
  C1: in every state the system can reach from the module just loaded, every operation that is
  enabled returns: no netlink request, delete work, socket release, destructor, RCU callback,
  packet sent through an Ethernet pseudowire or leaving packet dereferences a null or freed
  pointer, writes outside a buffer or fails a \<^verbatim>\<open>BUG_ON\<close>, and the state it leaves is reachable
  again. The environment answers as it likes within \<open>env_ok\<close>; allocations, binds and
  registrations may fail at any time. Runs that the code mishandles are not enabled: the delete
  work of a tunnel whose socket is already gone, or whose descriptor is still open, and sending
  when the configured header does not fit.
\<close>

theorem system_never_faults:
  assumes "reachable H st" and "env_ok H E" and "enabled E ev st"
  shows "\<exists>st'. run_event E ev st = Inr st' \<and> reachable H st'"
proof -
  have E: "wf_env E" "socket_layer E" "cow_head_ok E" using assms(2) by (simp_all add: env_ok_def)
  obtain st' where st': "run_event E ev st = Inr st'"
    using run_event_inv [OF E reachable_inv [OF assms(1,2)] assms(3)] by metis
  then show ?thesis using reachable.step [OF assms st'] by blast
qed

theorem system_never_faults_witness:
  "\<exists>st'. run_event kern_env (Tunnel_delete 0 run_tunnel) run_st1 = Inr st' \<and> reachable run_hash st'"
  by (rule system_never_faults [of run_hash run_st1 kern_env "Tunnel_delete 0 run_tunnel"]) simp_all

section \<open>Reference counts and counters\<close>

lemma reachable_heap:
  assumes "reachable H st"
  obtains E where "hash_32 E = H" and "inv E quiet st"
proof -
  have "inv E quiet st" if "hash_32 E = H" for E
    using assms that
  proof (induction arbitrary: E rule: reachable.induct)
    case (init st)
    then show ?case by (intro init_inv)
  next
    case (step st E' ev st')
    have h: "hash_32 E' = H" using step.hyps(2) by (simp add: env_ok_def)
    obtain st1 where "run_event E' ev st = Inr st1" "inv E' quiet st1"
      using run_event_inv [OF _ _ _ step.IH [OF h] step.hyps(3)] step.hyps(2) by (auto simp: env_ok_def)
    then show ?case using step.hyps(4) inv_env [of E E' quiet st'] h step.prems by simp
  qed
  then show thesis using that [of "undefined\<lparr>hash_32 := H\<rparr>"] by simp
qed

lemma count_list_once: "distinct xs \<Longrightarrow> count_list xs x = (if x \<in> set xs then 1 else 0)"
  by (induction xs) auto

text \<open>
  C2: a tunnel's reference count is exact in every reachable state. It is one for the socket, as
  long as the destructor has not run, one for every session of the tunnel, linked or not, and one
  for a queued delete. A tunnel whose socket is gone has no session left, and it waits for its
  grace period exactly when the count is zero.
\<close>

theorem tunnel_refcount_exact:
  assumes "reachable H st" and "k_tunnels st tp = Some t"
  shows "t_ref_count t = (if t_sock t = None then 0 else 1) + int (card {p. \<exists>s. k_sessions st p = Some s \<and> s_tunnel s = Some tp})
      + (if tp \<in> set (l2tp_wq st) then 1 else 0) \<and>
    (t_sock t = None \<longrightarrow> (\<forall>p s. k_sessions st p = Some s \<longrightarrow> s_tunnel s \<noteq> Some tp)) \<and>
    (tp \<in> set (k_rcu st) \<longleftrightarrow> t_ref_count t = 0)"
proof -
  obtain E where inv: "inv E quiet st" using reachable_heap [OF assms(1)] by metis
  have ok: "tunnel_ok E quiet st tp t" by (rule inv_tunnel [OF inv assms(2)])
  have q: "queues_ok st" by (rule inv_rest(2) [OF inv])
  have c: "count_list (l2tp_wq st) tp = (if tp \<in> set (l2tp_wq st) then 1 else 0)"
    by (rule count_list_once) (use q in \<open>simp add: queues_ok_def\<close>)
  have none: "t_sock t = None \<longrightarrow> (\<forall>p s. k_sessions st p = Some s \<longrightarrow> s_tunnel s \<noteq> Some tp)"
    using ok by (auto simp: tunnel_ok_def sess_of_def)
  have rcu: "tp \<in> set (k_rcu st) \<longleftrightarrow> t_ref_count t = 0" using q assms(2) by (auto simp: queues_ok_def)
  show ?thesis using ok none rcu by (simp add: tunnel_ok_def sess_of_def quiet_def c)
qed

theorem tunnel_refcount_exact_witness:
  "\<exists>st t. reachable run_hash st \<and> k_tunnels st 11 = Some t \<and> k_sessions st 12 \<noteq> None \<and>
     t_ref_count t = (if t_sock t = None then 0 else 1) + int (card {p. \<exists>s. k_sessions st p = Some s \<and> s_tunnel s = Some 11})
      + (if 11 \<in> set (l2tp_wq st) then 1 else 0)"
proof -
  obtain st s t where r: "reachable run_hash st" "run_state2 st s t" by (rule run_st2)
  then have st: "reachable run_hash st" "k_sessions st 12 = Some s" "k_tunnels st 11 = Some t" by (simp_all add: run_state2_def)
  show ?thesis using st tunnel_refcount_exact [OF st(1,3)] by blast
qed

text \<open>
  C9: the module's counters and lists are exact. The tunnel counter is the number of tunnels that
  still have a socket, the session counter the number of sessions with a nonzero id, and a
  namespace lists exactly its tunnels that still have a socket, each once.
\<close>

theorem counters_exact:
  assumes "reachable H st"
  shows "l2tp_tunnel_count st = int (card {tp. \<exists>t. k_tunnels st tp = Some t \<and> t_sock t \<noteq> None}) \<and>
    l2tp_session_count st = int (card {p. \<exists>s. k_sessions st p = Some s \<and> session_id s \<noteq> 0}) \<and>
    distinct (l2tp_tunnel_list (k_nets st n)) \<and>
    set (l2tp_tunnel_list (k_nets st n)) = {tp. \<exists>t. k_tunnels st tp = Some t \<and> l2tp_net t = n \<and> t_sock t \<noteq> None}"
proof -
  obtain E where inv: "inv E quiet st" using reachable_heap [OF assms] by metis
  show ?thesis using inv_rest(3) [OF inv] inv_net [OF inv, of n] by (simp add: counts_ok_def net_ok_def tunnels_in_def)
qed

theorem counters_exact_witness:
  "l2tp_tunnel_count run_st1 = int (card {tp. \<exists>t. k_tunnels run_st1 tp = Some t \<and> t_sock t \<noteq> None}) \<and> l2tp_tunnel_count run_st1 = 1"
  using counters_exact [OF run_st1_reachable, of 0] by simp

end
