(* ===== verification/L2tp_Dump.thy ===== *)
theory L2tp_Dump
  imports L2tp_Props
begin

unbundle bit_operations_syntax

text \<open>
  The netlink dump of the sessions. User space calls it again and again, and each call goes on at
  the tunnel and session index where the one before ran out of room. The order it walks in is a
  list of sessions, and one call reports a prefix of what is left of that list.
\<close>

section \<open>Definitions\<close>

definition tunnel_sessions :: "kst \<Rightarrow> ptr \<Rightarrow> ptr list" where
  "tunnel_sessions st tp = (case k_tunnels st tp of None \<Rightarrow> [] | Some t \<Rightarrow> concat (session_hlist t))"

text \<open>The sessions left when the walk is at session \<open>si\<close> of tunnel \<open>ti\<close>.\<close>

definition dump_from :: "nat \<Rightarrow> kst \<Rightarrow> nat \<Rightarrow> nat \<Rightarrow> ptr list" where
  "dump_from net st ti si =
     (case drop ti (l2tp_tunnel_list (k_nets st net)) of
        [] \<Rightarrow> []
      | tp # tps \<Rightarrow> drop si (tunnel_sessions st tp) @ concat (map (tunnel_sessions st) tps))"

text \<open>What is reported of a session.\<close>

definition session_report :: "kenv \<Rightarrow> kst \<Rightarrow> ptr \<Rightarrow> (nlattr_id \<times> nl_val) list" where
  "session_report E st p =
     (case k_sessions st p of
        None \<Rightarrow> []
      | Some s \<Rightarrow> (case s_tunnel s of
          None \<Rightarrow> []
        | Some tp \<Rightarrow> (case k_tunnels st tp of None \<Rightarrow> [] | Some t \<Rightarrow> session_attrs E t s)))"

definition reportable :: "kst \<Rightarrow> ptr \<Rightarrow> bool" where
  "reportable st p \<longleftrightarrow> (case k_sessions st p of None \<Rightarrow> False
     | Some s \<Rightarrow> (case s_tunnel s of None \<Rightarrow> False | Some tp \<Rightarrow> k_tunnels st tp \<noteq> None))"

definition dumpable :: "nat \<Rightarrow> kst \<Rightarrow> bool" where
  "dumpable net st \<longleftrightarrow> (\<forall>tp \<in> set (l2tp_tunnel_list (k_nets st net)). k_tunnels st tp \<noteq> None \<and>
     (\<forall>p \<in> set (tunnel_sessions st tp). reportable st p))"

text \<open>One call: it returns, reports the first \<open>k\<close> sessions of \<open>ps\<close>, and stops where the rest begins.\<close>

definition dumps :: "kenv \<Rightarrow> nat \<Rightarrow> kst \<Rightarrow> ptr list \<Rightarrow> nl_msg \<Rightarrow> ((nat \<times> nat) \<times> nl_msg) kres \<Rightarrow> bool" where
  "dumps E net st ps m res \<longleftrightarrow> (\<exists>ti si m' k. res = Inr ((ti, si), m') \<and> k \<le> length ps \<and>
     nl_attrs m' = nl_attrs m @ concat (map (session_report E st) (take k ps)) \<and> dump_from net st ti si = drop k ps \<and>
     (k < length ps \<longrightarrow> fst (nl_reply (session_report E st (ps ! k)) m') < 0))"

section \<open>The walk\<close>

lemma nla_put_all_attrs:
  "nla_put_all as m = Some m' \<Longrightarrow> nl_attrs m' = nl_attrs m @ as \<and> nl_room m' \<le> nl_room m"
  by (induction as arbitrary: m) (fastforce simp: nla_put_def Let_def split: option.splits if_splits)+

lemma nl_reply_cases:
  assumes "nl_reply as m = (ret, m')"
  shows "ret \<le> 0 \<and> ret < 0 \<and> m' = m \<or> 0 < ret \<and> nl_attrs m' = nl_attrs m @ as"
  using assms nla_put_all_attrs [of as "m\<lparr>nl_room := nl_room m - 20\<rparr>" m']
  by (auto simp: nl_reply_def split: if_splits option.splits)

lemma send_report: "reportable st p \<Longrightarrow> l2tp_nl_session_send E p m st = Inr (nl_reply (session_report E st p) m)"
  by (auto simp: reportable_def l2tp_nl_session_send_def session_report_def split: option.splits)

lemma find_nth_drop: "l2tp_tunnel_find_nth net ti st = (case drop ti (l2tp_tunnel_list (k_nets st net)) of [] \<Rightarrow> None | tp # _ \<Rightarrow> Some tp)"
proof (cases "ti < length (l2tp_tunnel_list (k_nets st net))")
  case True
  then show ?thesis by (simp add: l2tp_tunnel_find_nth_def chain_nth_cases Cons_nth_drop_Suc [symmetric])
qed (simp add: l2tp_tunnel_find_nth_def chain_nth_cases)

lemma session_nth: "k_tunnels st tp \<noteq> None \<Longrightarrow>
    l2tp_session_find_nth tp n st = Inr (if n < length (tunnel_sessions st tp) then Some (tunnel_sessions st tp ! n) else None)"
  by (auto simp: l2tp_session_find_nth_def tunnel_sessions_def table_nth_concat)

lemma dump_from_end: "dump_from net st (Suc ti) 0 = concat (map (tunnel_sessions st) (drop (Suc ti) (l2tp_tunnel_list (k_nets st net))))"
  by (cases "drop (Suc ti) (l2tp_tunnel_list (k_nets st net))") (simp_all add: dump_from_def)

lemma dumps_more:
  assumes "dumps E net st ps m' res" and "nl_attrs m' = nl_attrs m @ session_report E st p"
  shows "dumps E net st (p # ps) m res"
proof -
  obtain ti si m2 k where "res = Inr ((ti, si), m2)" "k \<le> length ps"
    "nl_attrs m2 = nl_attrs m' @ concat (map (session_report E st) (take k ps))" "dump_from net st ti si = drop k ps"
    "k < length ps \<longrightarrow> fst (nl_reply (session_report E st (ps ! k)) m2) < 0"
    using assms(1) by (auto simp: dumps_def)
  then show ?thesis unfolding dumps_def using assms(2) by (intro exI [of _ ti] exI [of _ si] exI [of _ m2] exI [of _ "Suc k"]) simp
qed

lemma dumps_stop:
  assumes "dump_from net st ti si = ps" and "ps = [] \<or> fst (nl_reply (session_report E st (hd ps)) m) < 0"
  shows "dumps E net st ps m (Inr ((ti, si), m))"
  unfolding dumps_def using assms
  by (intro exI [of _ ti] exI [of _ si] exI [of _ m] exI [of _ 0]) (auto simp: hd_conv_nth)

lemma dump_loop:
  assumes "dumpable net st" and "tun \<noteq> None \<Longrightarrow> \<exists>tps. drop ti (l2tp_tunnel_list (k_nets st net)) = the tun # tps"
  shows "dumps E net st (dump_from net st ti si) m (session_dump_loop E net st tun ti si m)"
  using assms
proof (induction E net st tun ti si m rule: session_dump_loop.induct)
  case (1 E net st ti si m)
  let ?l = "l2tp_tunnel_list (k_nets st net)"
  show ?case
  proof (cases "drop ti ?l")
    case Nil
    then have "dumps E net st (dump_from net st ti si) m (Inr ((ti, si), m))"
      by (intro dumps_stop) (simp_all add: dump_from_def)
    then show ?thesis using Nil by (subst session_dump_loop.simps) (simp add: find_nth_drop)
  next
    case (Cons tp tps)
    then have f: "l2tp_tunnel_find_nth net ti st = Some tp" by (simp add: find_nth_drop)
    have "dumps E net st (dump_from net st ti si) m (session_dump_loop E net st (Some tp) ti si m)"
      by (rule "1.IH" [OF f "1.prems"(1)]) (simp add: Cons)
    then show ?thesis using f by (subst session_dump_loop.simps) simp
  qed
next
  case (2 E net st tp ti si m)
  let ?l = "l2tp_tunnel_list (k_nets st net)" and ?ss = "tunnel_sessions st tp"
  obtain tps where d: "drop ti ?l = tp # tps" using "2.prems"(2) by auto
  then have mem: "tp \<in> set ?l" by (metis in_set_dropD list.set_intros(1))
  then have tp: "k_tunnels st tp \<noteq> None" and rep: "\<forall>p \<in> set ?ss. reportable st p" using "2.prems"(1) by (simp_all add: dumpable_def)
  have tl: "drop (Suc ti) ?l = tps" using d by (metis drop_Suc drop_tl list.sel(3) tl_drop)
  have rest: "dump_from net st ti si = drop si ?ss @ concat (map (tunnel_sessions st) tps)" using d by (simp add: dump_from_def)
  show ?case
  proof (cases "si < length ?ss")
    case False
    then have n: "l2tp_session_find_nth tp si st = Inr None" using session_nth [OF tp] by simp
    have "dumps E net st (dump_from net st (ti + 1) 0) m (session_dump_loop E net st None (ti + 1) 0 m)"
      by (rule "2.IH"(1) [OF n refl "2.prems"(1)]) simp
    then show ?thesis using False n rest dump_from_end [of net st ti] tl by (subst session_dump_loop.simps) simp
  next
    case True
    let ?p = "?ss ! si"
    have n: "l2tp_session_find_nth tp si st = Inr (Some ?p)" using session_nth [OF tp] True by simp
    have ps: "dump_from net st ti si = ?p # dump_from net st ti (Suc si)"
      using True d by (simp add: dump_from_def Cons_nth_drop_Suc [symmetric])
    obtain ret m' where r: "nl_reply (session_report E st ?p) m = (ret, m')" by fastforce
    have s: "l2tp_nl_session_send E ?p m st = Inr (ret, m')" using send_report rep True r by simp
    show ?thesis
    proof (cases "ret \<le> 0")
      case neg: True
      have "dumps E net st (dump_from net st ti si) m (Inr ((ti, si), m))"
        by (rule dumps_stop [OF refl]) (use ps r neg nl_reply_cases [OF r] in auto)
      then show ?thesis using n s neg nl_reply_cases [OF r] by (subst session_dump_loop.simps) auto
    next
      case pos: False
      have "dumps E net st (dump_from net st ti (si + 1)) m' (session_dump_loop E net st (Some tp) ti (si + 1) m')"
        by (rule "2.IH"(2) [OF n refl s refl pos "2.prems"(1)]) (simp add: d)
      then have "dumps E net st (dump_from net st ti si) m (session_dump_loop E net st (Some tp) ti (si + 1) m')"
        unfolding ps using dumps_more [of E net st "dump_from net st ti (Suc si)" m'] nl_reply_cases [OF r] pos by simp
      then show ?thesis using n s pos by (subst session_dump_loop.simps) simp
    qed
  qed
qed

section \<open>Reachable states\<close>

lemma inv_dumpable:
  assumes inv: "inv E X st"
  shows "dumpable net st"
  unfolding dumpable_def
proof (intro ballI conjI)
  fix tp
  assume "tp \<in> set (l2tp_tunnel_list (k_nets st net))"
  then have "tp \<in> tunnels_in st net" using inv_net [OF inv, of net] by (simp add: net_ok_def)
  then obtain t where t: "k_tunnels st tp = Some t" by (auto simp: tunnels_in_def)
  then show "k_tunnels st tp \<noteq> None" by simp
  fix p
  assume "p \<in> set (tunnel_sessions st tp)"
  then have "p \<in> sess_of st tp" using inv_tunnel [OF inv t] t by (auto simp: tunnel_sessions_def tunnel_ok_def linked_def)
  then show "reportable st p" using t by (auto simp: sess_of_def reportable_def)
qed

lemma inv_dump_all:
  assumes inv: "inv E X st"
  shows "distinct (dump_from net st 0 0)" and "set (dump_from net st 0 0) = (\<Union>tp \<in> tunnels_in st net. {p. in_tunnel st tp p})"
proof -
  let ?l = "l2tp_tunnel_list (k_nets st net)"
  have all: "dump_from net st 0 0 = concat (map (tunnel_sessions st) ?l)" by (cases ?l) (simp_all add: dump_from_def)
  have net: "distinct ?l" "set ?l = tunnels_in st net" using inv_net [OF inv, of net] by (simp_all add: net_ok_def)
  have sub: "set (tunnel_sessions st tp) \<subseteq> sess_of st tp" and dis: "distinct (tunnel_sessions st tp)" for tp
    using inv_tunnel [OF inv, of tp]
    by (cases "k_tunnels st tp"; simp add: tunnel_sessions_def tunnel_ok_def linked_def table_ok_def)+
  have disj: "set (tunnel_sessions st x) \<inter> set (tunnel_sessions st y) = {}" if "x \<noteq> y" for x y
  proof -
    have "sess_of st x \<inter> sess_of st y = {}" using that by (auto simp: sess_of_def)
    then show ?thesis using sub [of x] sub [of y] by blast
  qed
  have "distinct (concat (map (tunnel_sessions st) l))" if "distinct l" for l
    using that
  proof (induction l)
    case (Cons a l)
    then have "\<forall>y \<in> set l. set (tunnel_sessions st a) \<inter> set (tunnel_sessions st y) = {}"
      using disj [of a] by (metis distinct.simps(2))
    then show ?case using Cons dis [of a] by auto
  qed simp
  then show "distinct (dump_from net st 0 0)" using net(1) all by simp
  show "set (dump_from net st 0 0) = (\<Union>tp \<in> tunnels_in st net. {p. in_tunnel st tp p})"
  proof -
    have "set (tunnel_sessions st tp) = {p. in_tunnel st tp p}" for tp
      by (cases "k_tunnels st tp") (auto simp: tunnel_sessions_def in_tunnel_def linked_def)
    then show ?thesis using net(2) by (simp add: all)
  qed
qed

section \<open>Properties\<close>

text \<open>
  C14: a dump reports every session once. In every reachable state a call of the session dump
  returns, whatever indices it starts from: it appends to the message the reports of the next
  sessions of the walk, in order, and returns indices from which the walk goes on exactly behind
  them; it stops early only when the next report does not fit the message. The walk from
  the indices zero lists every session linked in a tunnel of the namespace exactly once. So calls
  that each start where the one before stopped, each with room for at least one report, report every session
  exactly once.
\<close>

theorem session_dump_reports_all:
  assumes "reachable H st" and "env_ok H E"
  shows "(\<exists>ti' si' m' k. l2tp_nl_cmd_session_dump E net st ti si m = Inr ((ti', si'), m') \<and> k \<le> length (dump_from net st ti si) \<and>
      nl_attrs m' = nl_attrs m @ concat (map (session_report E st) (take k (dump_from net st ti si))) \<and>
      dump_from net st ti' si' = drop k (dump_from net st ti si) \<and>
      (k < length (dump_from net st ti si) \<longrightarrow> fst (nl_reply (session_report E st (dump_from net st ti si ! k)) m') < 0)) \<and>
    distinct (dump_from net st 0 0) \<and> set (dump_from net st 0 0) = (\<Union>tp \<in> tunnels_in st net. {p. in_tunnel st tp p})"
proof -
  have inv: "inv E quiet st" by (rule reachable_inv [OF assms])
  have "dumps E net st (dump_from net st ti si) m (l2tp_nl_cmd_session_dump E net st ti si m)"
    unfolding l2tp_nl_cmd_session_dump_def by (rule dump_loop [OF inv_dumpable [OF inv]]) simp
  then show ?thesis unfolding dumps_def using inv_dump_all [OF inv] by blast
qed

lemma only_element: "distinct xs \<Longrightarrow> set xs = {a} \<Longrightarrow> xs = [a]"
  by (cases xs; cases "tl xs") auto

theorem session_dump_reports_all_witness:
  "\<exists>st ti si m k. reachable run_hash st \<and> k_sessions st 12 \<noteq> None \<and>
     l2tp_nl_cmd_session_dump kern_env 0 st 0 0 nl_new_msg = Inr ((ti, si), m) \<and>
     nl_attrs m = concat (map (session_report kern_env st) (take k [12])) \<and> dump_from 0 st ti si = drop k [12]"
proof -
  obtain st s t where r: "reachable run_hash st" "run_state2 st s t" by (rule run_st2)
  have l: "k_sessions st 12 = Some s" "k_tunnels st 11 = Some t" "l2tp_tunnel_list (k_nets st 0) = [11]" "12 \<in> linked (session_hlist t)"
    "\<forall>p. p \<noteq> 12 \<longrightarrow> k_sessions st p = None"
    using r(2) by (simp_all add: run_state2_def)
  have inv: "inv kern_env quiet st" by (rule reachable_inv [OF r(1) run_env_ok])
  have net: "tunnels_in st 0 = {11}" using inv_net [OF inv, of 0] l(3) by (simp add: net_ok_def)
  have "in_tunnel st 11 p \<longleftrightarrow> p = 12" for p
  proof
    assume "in_tunnel st 11 p"
    then have "p \<in> sess_of st 11" using inv_tunnel [OF inv l(2)] l(2) by (auto simp: in_tunnel_def tunnel_ok_def)
    then show "p = 12" using l(5) unfolding sess_of_def by (cases "p = 12") simp_all
  qed (use l(2,4) in \<open>simp add: in_tunnel_def\<close>)
  then have "dump_from 0 st 0 0 = [12]"
    using session_dump_reports_all [OF r(1) run_env_ok, of 0 0 0 nl_new_msg] net by (intro only_element) simp_all
  then show ?thesis using session_dump_reports_all [OF r(1) run_env_ok, of 0 0 0 nl_new_msg] r(1) l(1)
    by (simp add: nl_new_msg_def) blast
qed

end
