(* ===== verification/L2tp_Reclaim.thy ===== *)
theory L2tp_Reclaim
  imports L2tp_Props
begin

unbundle bit_operations_syntax

text \<open>
  What becomes of a deleted tunnel: its sessions, its socket and its memory are given back, step by
  step, once no packet is in flight; and what goes wrong when the work item runs after the socket is gone.
\<close>

section \<open>Ending all sessions\<close>

text \<open>Every session of the tunnel is linked and belongs to no PPP socket.\<close>

definition plain_sessions :: "ptr \<Rightarrow> kst \<Rightarrow> bool" where
  "plain_sessions tp st \<longleftrightarrow> (\<forall>q s. k_sessions st q = Some s \<longrightarrow> s_tunnel s = Some tp \<longrightarrow> in_tunnel st tp q \<and> ppp_sock_of s = None)"

lemma plain_kept: "kept_by_delete E X tp (plain_sessions tp)"
  unfolding kept_by_delete_def
proof (intro allI impI)
  fix st p s t a
  assume inv: "inv E X st" and live: "session_live st p s tp t a" and l: "is_linked st p s" and pl: "plain_sessions tp st"
  have s: "k_sessions st p = Some s" "s_tunnel s = Some tp" "k_tunnels st tp = Some t" using live by (simp_all add: session_live_def)
  then have "ppp_sock_of s = None" using pl by (auto simp: plain_sessions_def)
  then have "\<not> held_by_socket s (k_world st)" by (simp add: held_by_socket_def)
  then have un: "unlinks st p s tp t None (deleted E p s tp t a st)" using deleted_unlinks [of st p s tp t E a] by simp
  then have k: "k_sessions (deleted E p s tp t a st) = (k_sessions st)(p := None)" by (simp add: unlinks_def)
  show "plain_sessions tp (deleted E p s tp t a st)"
    unfolding plain_sessions_def k using pl unlinks_in_tunnel [OF un s(3), of tp] by (auto simp: plain_sessions_def split: if_splits)
qed

lemma plain_empty:
  assumes "plain_sessions tp st" and "k_tunnels st tp = Some t" and "linked (session_hlist t) = {}"
  shows "sess_of st tp = {}"
  using assms by (auto simp: plain_sessions_def sess_of_def in_tunnel_def)

lemma delete_plain:
  assumes inv: "inv E X st" and t: "k_tunnels st tp = Some t" "t_sock t \<noteq> None" and pl: "plain_sessions tp st"
  obtains r st' where "l2tp_tunnel_delete E tp st = Inr (r, st')" and "inv E X st'" and "tp \<in> set (l2tp_wq st')"
    and "sess_of st' tp = {}" and "same_tunnels st st'" and "k_wskbs st' = k_wskbs st" and "\<forall>a. has_socket st' a = has_socket st a"
proof -
  obtain r st' where d: "l2tp_tunnel_delete E tp st = Inr (r, st')" "inv E X st'" "set (l2tp_wq st') = insert tp (set (l2tp_wq st))"
    by (rule tunnel_delete_inv [OF inv t])
  have "t_ref_count t \<noteq> 0" using tunnel_ref_pos [OF inv t] by simp
  note inc = tunnel_inc_inv [OF inv t(1) this]
  let ?t1 = "t\<lparr>t_ref_count := t_ref_count t + 1\<rparr>"
  let ?st1 = "set_tunnel tp ?t1 st"
  have t1: "k_tunnels ?st1 tp = Some ?t1" by (simp add: set_tunnel_def)
  have p1: "plain_sessions tp ?st1" using pl t(1) by (auto simp: plain_sessions_def in_tunnel_def set_tunnel_def)
  obtain st2 t2 where c: "l2tp_tunnel_closeall E tp ?st1 = Inr st2" "close_frame tp ?st1 st2"
    "k_tunnels st2 tp = Some t2" "linked (session_hlist t2) = {}" "plain_sessions tp st2"
    by (rule closeall_keeps [OF plain_kept inc(2) t1 p1])
  have e: "sess_of st2 tp = {}" by (rule plain_empty [OF c(5,3,4)])
  have sa: "same_tunnels st st2"
    unfolding same_tunnels_def
  proof (intro conjI allI)
    fix n x
    show "l2tp_tunnel_list (k_nets st2 n) = l2tp_tunnel_list (k_nets st n)" using c(2) by (simp add: close_frame_def set_tunnel_def)
    have "map_option tunnel_core (k_tunnels st2 x) = map_option tunnel_core (k_tunnels ?st1 x)" using c(2) unfolding close_frame_def by blast
    then show "map_option tunnel_core (k_tunnels st2 x) = map_option tunnel_core (k_tunnels st x)"
      using t(1) by (cases "x = tp") (simp_all add: set_tunnel_def tunnel_core_def)
  qed
  have w: "k_wskbs st2 = k_wskbs st" using c(2) by (simp add: close_frame_def set_tunnel_def)
  have h: "has_socket st2 a = has_socket st a" for a using has_socket_close [OF c(2), of a] by (simp add: has_socket_def set_tunnel_def)
  have eq: "Inr (r, st') = (if tp \<in> set (l2tp_wq st2) then bind_res (l2tp_tunnel_dec_refcount tp st2) (\<lambda>st3. Inr (1, st3))
      else Inr (0, st2\<lparr>l2tp_wq := l2tp_wq st2 @ [tp]\<rparr>))"
    using d(1) inc(1) c(1) by (simp add: l2tp_tunnel_delete_def)
  have "sess_of st' tp = {} \<and> same_tunnels st st' \<and> k_wskbs st' = k_wskbs st \<and> (\<forall>a. has_socket st' a = has_socket st a)"
  proof (cases "tp \<in> set (l2tp_wq st2)")
    case True
    then have "l2tp_tunnel_dec_refcount tp st2 = Inr st'" using eq by (auto simp: bind_res_def split: sum.splits)
    then show ?thesis
    proof (rule tunnel_dec_cases)
      fix u
      assume u: "k_tunnels st2 tp = Some u" "st' = (set_tunnel tp (u\<lparr>t_ref_count := t_ref_count u - 1\<rparr>) st2)\<lparr>k_rcu := k_rcu st2 @ (if t_ref_count u = 1 then [tp] else [])\<rparr>"
      have "same_tunnels st2 st'" unfolding same_tunnels_def using u by (auto simp: set_tunnel_def tunnel_core_def)
      then show ?thesis using same_tunnels_trans [OF sa] u(2) e w h by (simp add: sess_of_def has_socket_def set_tunnel_def)
    qed
  next
    case False
    then have st': "st' = st2\<lparr>l2tp_wq := l2tp_wq st2 @ [tp]\<rparr>" using eq by simp
    have "same_tunnels st st'" using sa unfolding st' same_tunnels_def by simp
    then show ?thesis using st' e w h by (simp add: sess_of_def has_socket_def)
  qed
  then show thesis using that [OF d(1,2)] d(3) by blast
qed

section \<open>The work item and the destructor\<close>

text \<open>A tunnel over a socket that the kernel made, which has no file.\<close>

definition kernel_tunnel :: "kst \<Rightarrow> ptr \<Rightarrow> ptr \<Rightarrow> bool" where
  "kernel_tunnel st tp a \<longleftrightarrow> (\<exists>t b. k_tunnels st tp = Some t \<and> t_sock t = Some a \<and> t_fd t < 0 \<and> has_socket st a = Some (b, False))"

lemma kernel_tunnel_same:
  assumes "kernel_tunnel st tp a" and "same_tunnels st st'" and "has_socket st' a = Some (b, False)"
  shows "kernel_tunnel st' tp a"
proof -
  obtain t where t: "k_tunnels st tp = Some t" "t_sock t = Some a" "t_fd t < 0" using assms(1) by (auto simp: kernel_tunnel_def)
  obtain t' where t': "k_tunnels st' tp = Some t'" "tunnel_core t' = tunnel_core t"
    using assms(2) t(1) unfolding same_tunnels_def by (metis map_option_eq_Some)
  then show ?thesis using t assms(3) tunnel_core_fields(1,2) [OF t'(2)] by (simp add: kernel_tunnel_def)
qed

lemma delete_and_work:
  assumes inv: "inv E X st" and k: "kernel_tunnel st tp a" and pl: "plain_sessions tp st"
  obtains r st1 st2 where "l2tp_tunnel_delete E tp st = Inr (r, st1)" and "enabled E (Del_work tp) st1"
    and "l2tp_tunnel_del_work E tp st1 = Inr st2" and "inv E X st2" and "tp \<notin> set (l2tp_wq st2)" and "sess_of st2 tp = {}"
    and "has_socket st2 a = Some (False, False)" and "k_wskbs st2 = k_wskbs st" and "same_tunnels st st2"
proof -
  obtain t b where t: "k_tunnels st tp = Some t" "t_sock t = Some a" "t_fd t < 0" "has_socket st a = Some (b, False)"
    using k by (auto simp: kernel_tunnel_def)
  have tn: "t_sock t \<noteq> None" using t by simp
  obtain r st1 where d: "l2tp_tunnel_delete E tp st = Inr (r, st1)" "inv E X st1" "tp \<in> set (l2tp_wq st1)" "sess_of st1 tp = {}"
    "same_tunnels st st1" "k_wskbs st1 = k_wskbs st" "\<forall>a. has_socket st1 a = has_socket st a" by (rule delete_plain [OF inv t(1) tn pl])
  have h1: "has_socket st1 a = Some (b, False)" using d(7) t(4) by simp
  obtain t1 where t1: "k_tunnels st1 tp = Some t1" "t_sock t1 = Some a" "t_fd t1 < 0"
    using kernel_tunnel_same [OF k d(5) h1] by (auto simp: kernel_tunnel_def)
  obtain st2 where w: "l2tp_tunnel_del_work E tp st1 = Inr st2" "inv E X st2" "l2tp_wq st2 = remove1 tp (l2tp_wq st1)"
    "has_socket st2 a = map_option (\<lambda>(_, f). (False, f)) (has_socket st1 a)" "\<forall>x. sess_of st2 x \<subseteq> sess_of st1 x" "k_wskbs st2 = k_wskbs st1"
    "same_tunnels st1 st2" by (rule del_work_kernel [OF d(2,3) t1])
  have "distinct (l2tp_wq st1)" using inv_rest(2) [OF d(2)] by (simp add: queues_ok_def)
  then have "tp \<notin> set (l2tp_wq st2)" using w(3) by simp
  moreover have "sess_of st2 tp = {}" using w(5) d(4) by auto
  moreover have "enabled E (Del_work tp) st1" using t1 d(3) by simp
  ultimately show thesis using that [OF d(1) _ w(1,2)] w(4,6,7) h1 d(6) same_tunnels_trans [OF d(5)] by simp
qed

lemma idle_refcnt:
  assumes inv: "inv E quiet st" and k: "k_tunnels st tp = Some t" "t_sock t = Some a" and "sess_of st tp = {}" and "inflight st a = 0"
    and "has_socket st a = Some (False, False)"
  obtains sk where "socks (k_world st) a = Some sk" and "sk_refcnt sk = 0"
proof -
  obtain sk where sk: "socks (k_world st) a = Some sk" "tsock_ok quiet st tp a sk" using inv_tsock [OF inv k] by blast
  then have "\<not> sk_socket sk" "\<not> sk_file sk" using assms(6) by (simp_all add: has_socket_def)
  then have "sk_refcnt sk = 0" using sk(2) assms(4,5) by (simp add: tsock_ok_def sk_counted_def quiet_def)
  then show thesis using sk(1) that by blast
qed

text \<open>A netlink request whose connection id names the tunnel.\<close>

definition names_tunnel :: "nat \<Rightarrow> nl_attrs \<Rightarrow> ptr \<Rightarrow> kst \<Rightarrow> bool" where
  "names_tunnel net at tp st \<longleftrightarrow> (\<exists>v. at L2TP_ATTR_CONN_ID = Some v \<and> l2tp_tunnel_find net (nla_get_u32 v) st = Inr (Some tp))"

lemma names_tunnel_same: "same_tunnels st st' \<Longrightarrow> names_tunnel net at tp st' = names_tunnel net at tp st"
  by (simp add: names_tunnel_def same_tunnels_find)

lemma run_tunnel_delete:
  assumes "names_tunnel net at tp st" and "l2tp_tunnel_delete E tp st = Inr (r, st')"
  shows "run_event E (Tunnel_delete net at) st = Inr st'"
  using assms by (auto simp: names_tunnel_def l2tp_nl_cmd_tunnel_delete_def on_nl_tunnel_def drop_ret_def)

lemma free_idle:
  assumes inv: "inv E quiet st" and t: "k_tunnels st tp = Some t" "t_sock t = Some a" and e: "sess_of st tp = {}" "inflight st a = 0"
    and h: "has_socket st a = Some (False, False)"
  obtains st' where "enabled E (Sk_free a) st" and "sk_free E a st = Inr st'" and "inv E quiet st'"
    and "st' = tunnel_put tp (t\<lparr>t_sock := None\<rparr>) (orphan tp t a st)" and "t_ref_count t = 1 + int (count_list (l2tp_wq st) tp)"
proof -
  obtain sk where sk: "socks (k_world st) a = Some sk" "sk_refcnt sk = 0" by (rule idle_refcnt [OF inv t e h])
  have "t_ref_count t = 1 + int (count_list (l2tp_wq st) tp)" using inv_tunnel [OF inv t(1)] t(2) e(1) by (simp add: tunnel_ok_def quiet_def)
  moreover obtain st' where "sk_free E a st = Inr st'" "inv E quiet st'" "st' = tunnel_put tp (t\<lparr>t_sock := None\<rparr>) (orphan tp t a st)"
    by (rule sk_free_tunnel [OF inv t sk])
  ultimately show thesis using sk by (intro that) simp_all
qed

section \<open>Properties\<close>

text \<open>
  C13: a deleted tunnel is given back. Take a reachable state and a tunnel over a socket of the
  kernel, without packets in flight, whose sessions are linked and belong to no PPP socket. A
  netlink request that deletes the tunnel, its work item, the destructor of its socket and the RCU
  callback can then happen one after the other; each returns, and at the end the tunnel, its socket
  and all its sessions are gone.
\<close>

theorem deleted_tunnel_reclaimed:
  assumes "reachable H st" and "env_ok H E" and "kernel_tunnel st tp a" and "plain_sessions tp st" and "names_tunnel net at tp st"
    and "\<forall>skb \<in> set (k_wskbs st). skb_sk skb \<noteq> Some a"
  shows "\<exists>st'. run_events E [Tunnel_delete net at, Del_work tp, Sk_free a, Grace_period tp] st = Inr st' \<and> reachable H st' \<and>
    k_tunnels st' tp = None \<and> socks (k_world st') a = None \<and> (\<forall>p s. k_sessions st' p = Some s \<longrightarrow> s_tunnel s \<noteq> Some tp)"
proof -
  have inv: "inv E quiet st" by (rule reachable_inv [OF assms(1,2)])
  obtain r st1 st2 where d: "l2tp_tunnel_delete E tp st = Inr (r, st1)" "enabled E (Del_work tp) st1" "l2tp_tunnel_del_work E tp st1 = Inr st2"
    "inv E quiet st2" "tp \<notin> set (l2tp_wq st2)" "sess_of st2 tp = {}" "has_socket st2 a = Some (False, False)" "k_wskbs st2 = k_wskbs st" "same_tunnels st st2"
    by (rule delete_and_work [OF inv assms(3,4)])
  obtain t where t: "k_tunnels st2 tp = Some t" "t_sock t = Some a" using kernel_tunnel_same [OF assms(3) d(9,7)] by (auto simp: kernel_tunnel_def)
  have fl: "inflight st2 a = 0" using assms(6) d(8) by (simp add: inflight_def filter_empty_conv)
  obtain st3 where f: "enabled E (Sk_free a) st2" "sk_free E a st2 = Inr st3" "inv E quiet st3"
    "st3 = tunnel_put tp (t\<lparr>t_sock := None\<rparr>) (orphan tp t a st2)" "t_ref_count t = 1 + int (count_list (l2tp_wq st2) tp)"
    by (rule free_idle [OF d(4) t d(6) fl d(7)])
  have one: "t_ref_count t = 1" using f(5) d(5) by (simp add: count_list_0_iff)
  then have q: "tp \<in> set (k_rcu st3)" using f(4) by (simp add: tunnel_put_def)
  let ?st4 = "free_percpu_and_l2tp_tunnel tp st3" and ?evs = "[Tunnel_delete net at, Del_work tp, Sk_free a, Grace_period tp]"
  have r: "run_event E (Tunnel_delete net at) st = Inr st1" by (rule run_tunnel_delete [OF assms(5) d(1)])
  have "all_enabled E ?evs st" using r d(2,3) f(1,2) q by simp
  moreover have "run_events E ?evs st = Inr ?st4" using r d(3) f(2) by simp
  ultimately have "reachable H ?st4" using reachable_events [OF assms(1,2), of ?evs] by simp
  moreover have "socks (k_world ?st4) a = None" using f(4) by (simp add: free_percpu_and_l2tp_tunnel_def tunnel_put_def orphan_def)
  moreover have "k_sessions ?st4 = k_sessions st2" using f(4) by (simp add: free_percpu_and_l2tp_tunnel_def tunnel_put_def orphan_def)
  ultimately show ?thesis using \<open>run_events E ?evs st = Inr ?st4\<close> d(6)
    by (intro exI [of _ ?st4]) (auto simp: free_percpu_and_l2tp_tunnel_def sess_of_def)
qed

lemma run_state2_kernel:
  assumes "run_state2 st s t"
  shows "kernel_tunnel st 11 10" "plain_sessions 11 st" "names_tunnel 0 run_tunnel 11 st" "k_wskbs st = []"
proof -
  have only: "k_sessions st q = Some u \<longrightarrow> q = 12 \<and> u = s" for q u
    using assms by (cases "q = 12") (simp_all add: run_state2_def)
  have s: "k_tunnels st 11 = Some t" "t_sock t = Some 10" "tunnel_id t = 3" "t_fd t < 0" "12 \<in> linked (session_hlist t)" "priv s = PrivEth (Some 13)"
    "l2tp_tunnel_list (k_nets st 0) = [11]"
    using assms by (simp_all add: run_state2_def)
  have "in_tunnel st 11 12" "ppp_sock_of s = None" using s by (simp_all add: in_tunnel_def ppp_sock_of_def)
  then show "plain_sessions 11 st" unfolding plain_sessions_def using only by blast
  obtain sk where "socks (k_world st) 10 = Some sk" "\<not> sk_file sk" using assms unfolding run_state2_def by blast
  then show "kernel_tunnel st 11 10" using s unfolding kernel_tunnel_def by (intro exI [of _ t] exI [of _ "sk_socket sk"]) (simp add: has_socket_def)
  show "names_tunnel 0 run_tunnel 11 st" using s by (simp add: names_tunnel_def run_tunnel_def l2tp_tunnel_find_def)
  show "k_wskbs st = []" using assms by (simp add: run_state2_def)
qed

theorem deleted_tunnel_reclaimed_witness:
  "\<exists>st st'. reachable run_hash st \<and> k_tunnels st 11 \<noteq> None \<and> k_sessions st 12 \<noteq> None \<and>
     run_events kern_env [Tunnel_delete 0 run_tunnel, Del_work 11, Sk_free 10, Grace_period 11] st = Inr st' \<and>
     k_tunnels st' 11 = None \<and> socks (k_world st') 10 = None"
proof -
  obtain st s t where r: "reachable run_hash st" "run_state2 st s t" by (rule run_st2)
  note k = run_state2_kernel [OF r(2)]
  show ?thesis using deleted_tunnel_reclaimed [OF r(1) run_env_ok k(1-3)] k(4) r by (auto simp: run_state2_def)
qed

text \<open>
  C18: a second delete while a packet is in flight ends in a null pointer. Take a reachable state
  and a tunnel over a socket of the kernel as in the property before, but with one packet in
  flight. It can be deleted, its work item can run, and because the packet keeps the socket and
  with it the entry in the tunnel list, it can be deleted again, which queues a second work item.
  Then the packet leaves and the destructor of the socket runs. The work item that is still queued
  now takes a reference on the socket of the tunnel, which is NULL.
\<close>

theorem second_delete_null_pointer:
  assumes "reachable H st" and "env_ok H E" and "kernel_tunnel st tp a" and "plain_sessions tp st" and "names_tunnel net at tp st"
    and "k_wskbs st = [skb]" and "skb_sk skb = Some a"
  shows "\<exists>st'. run_events E [Tunnel_delete net at, Del_work tp, Tunnel_delete net at, Wfree skb, Sk_free a] st = Inr st' \<and>
    reachable H st' \<and> tp \<in> set (l2tp_wq st') \<and> l2tp_tunnel_del_work E tp st' = Inl NullDeref"
proof -
  have inv: "inv E quiet st" by (rule reachable_inv [OF assms(1,2)])
  obtain r st1 st2 where d: "l2tp_tunnel_delete E tp st = Inr (r, st1)" "enabled E (Del_work tp) st1" "l2tp_tunnel_del_work E tp st1 = Inr st2"
    "inv E quiet st2" "tp \<notin> set (l2tp_wq st2)" "sess_of st2 tp = {}" "has_socket st2 a = Some (False, False)" "k_wskbs st2 = k_wskbs st" "same_tunnels st st2"
    by (rule delete_and_work [OF inv assms(3,4)])
  obtain t where t: "k_tunnels st2 tp = Some t" "t_sock t = Some a" using kernel_tunnel_same [OF assms(3) d(9,7)] by (auto simp: kernel_tunnel_def)
  have t2: "t_sock t \<noteq> None" using t(2) by simp
  have pl: "plain_sessions tp st2" using d(6) by (auto simp: plain_sessions_def sess_of_def)
  obtain r3 st3 where e: "l2tp_tunnel_delete E tp st2 = Inr (r3, st3)" "inv E quiet st3" "tp \<in> set (l2tp_wq st3)" "sess_of st3 tp = {}"
    "same_tunnels st2 st3" "k_wskbs st3 = k_wskbs st2" "\<forall>a. has_socket st3 a = has_socket st2 a" by (rule delete_plain [OF d(4) t(1) t2 pl])
  have s3: "same_tunnels st st3" by (rule same_tunnels_trans [OF d(9) e(5)])
  have h3: "has_socket st3 a = Some (False, False)" using e(7) d(7) by simp
  have in3: "skb \<in> set (k_wskbs st3)" "remove1 skb (k_wskbs st3) = []" using e(6) d(8) assms(6) by simp_all
  obtain st4 where w: "l2tp_sock_wfree skb st3 = Inr st4" "inv E quiet st4" "k_wskbs st4 = remove1 skb (k_wskbs st3)"
    by (rule wfree_inv [OF e(2) in3(1)])
  obtain t3 where t3: "k_tunnels st3 tp = Some t3" "t_sock t3 = Some a" "t_fd t3 < 0"
    using kernel_tunnel_same [OF assms(3) s3 h3] by (auto simp: kernel_tunnel_def)
  have st4: "k_tunnels st4 = k_tunnels st3" "k_sessions st4 = k_sessions st3" "l2tp_wq st4 = l2tp_wq st3" "has_socket st4 a = has_socket st3 a"
    using w(1) assms(7) h3 by (auto simp: l2tp_sock_wfree_def on_world_def bind_res_Inr_iff sock_put_def deref_ptr_Inr_iff has_socket_def socks_upd_sock)
  have t4: "k_tunnels st4 tp = Some t3" using st4(1) t3(1) by simp
  have s4: "sess_of st4 tp = {}" "inflight st4 a = 0" "has_socket st4 a = Some (False, False)"
    using e(4) st4 w(3) in3(2) h3 by (simp_all add: sess_of_def inflight_def)
  obtain st5 where f: "enabled E (Sk_free a) st4" "sk_free E a st4 = Inr st5"
    "st5 = tunnel_put tp (t3\<lparr>t_sock := None\<rparr>) (orphan tp t3 a st4)" by (rule free_idle [OF w(2) t4 t3(2) s4])
  let ?evs = "[Tunnel_delete net at, Del_work tp, Tunnel_delete net at, Wfree skb, Sk_free a]"
  have r: "run_event E (Tunnel_delete net at) st = Inr st1" by (rule run_tunnel_delete [OF assms(5) d(1)])
  have r2: "run_event E (Tunnel_delete net at) st2 = Inr st3"
    by (rule run_tunnel_delete [OF _ e(1)]) (use assms(5) names_tunnel_same [OF d(9)] in simp)
  have "all_enabled E ?evs st" using r r2 d(2,3) w(1) in3(1) f(1,2) by simp
  moreover have run: "run_events E ?evs st = Inr st5" using r r2 d(3) w(1) f(2) by simp
  ultimately have "reachable H st5" using reachable_events [OF assms(1,2), of ?evs] by simp
  moreover have "tp \<in> set (l2tp_wq st5)" using f(3) e(3) st4(3) by (simp add: tunnel_put_def orphan_def drop_sock_def)
  moreover have "l2tp_tunnel_del_work E tp st5 = Inl NullDeref"
    using f(3) t3(3) by (simp add: l2tp_tunnel_del_work_def l2tp_tunnel_sock_lookup_def tunnel_put_def on_world_def sock_hold_def)
  ultimately show ?thesis using run by blast
qed

lemma plain_frame:
  assumes "xmit_frame st st'" and "plain_sessions tp st"
  shows "plain_sessions tp st'"
  unfolding plain_sessions_def
proof (intro allI impI)
  fix q s
  assume s: "k_sessions st' q = Some s" "s_tunnel s = Some tp"
  have "map_option (\<lambda>s. (s_tunnel s, priv s)) (k_sessions st' q) = map_option (\<lambda>s. (s_tunnel s, priv s)) (k_sessions st q)"
    using assms(1) by (simp add: xmit_frame_def)
  then obtain u where u: "k_sessions st q = Some u" "s_tunnel u = s_tunnel s" "priv u = priv s"
    using s(1) by (cases "k_sessions st q") auto
  then have "in_tunnel st tp q" "ppp_sock_of u = None" using assms(2) s(2) by (simp_all add: plain_sessions_def)
  then show "in_tunnel st' tp q \<and> ppp_sock_of s = None" using assms(1) u(3) by (simp add: xmit_frame_def ppp_sock_of_def)
qed

theorem second_delete_null_pointer_witness:
  "\<exists>st skb st'. reachable run_hash st \<and> run_events kern_env [Tunnel_delete 0 run_tunnel, Del_work 11, Tunnel_delete 0 run_tunnel, Wfree skb, Sk_free 10] st = Inr st' \<and>
     reachable run_hash st' \<and> 11 \<in> set (l2tp_wq st') \<and> l2tp_tunnel_del_work kern_env 11 st' = Inl NullDeref"
proof -
  obtain st s t where r: "reachable run_hash st" "run_state2 st s t" by (rule run_st2)
  note k = run_state2_kernel [OF r(2)]
  have d: "dev_sock st 13 10" "can_send st 13" using r(2) by (auto simp: run_state2_def dev_sock_def can_send_def)
  have c: "cow_head_ok kern_env" using run_env_ok by (simp add: env_ok_def)
  have i: "inv kern_env quiet st" by (rule reachable_inv [OF r(1) run_env_ok])
  obtain st1 where x: "l2tp_eth_dev_xmit kern_env (sample_skb [1, 2]) 13 st = Inr st1" "xmit_frame st st1"
    "\<forall>b. dev_sock st 13 b \<and> \<not> sock_owned_by_user kern_env b \<and> (\<forall>n. skb_cow_head kern_env (sample_skb [1, 2]) n \<noteq> None) \<longrightarrow> sent b st st1"
    by (rule eth_dev_xmit_inv [OF c i d(2), of "sample_skb [1, 2]"]) simp_all
  have r1: "reachable run_hash st1" by (rule reachable.step [OF r(1) run_env_ok, of "Eth_xmit (sample_skb [1, 2]) 13"]) (use x(1) d(2) in simp_all)
  have "sent 10 st st1" using x(3) d(1) by (simp add: kern_env_def sample_env_def)
  then obtain skb where skb: "skb_sk skb = Some 10" "k_wskbs st1 = [skb]" using k(4) by (auto simp: sent_def)
  have sa: "same_tunnels st st1" and h: "has_socket st1 10 = has_socket st 10" using x(2) by (simp_all add: xmit_frame_def)
  obtain b where "has_socket st1 10 = Some (b, False)" using h k(1) by (auto simp: kernel_tunnel_def)
  then have k1: "kernel_tunnel st1 11 10" by (rule kernel_tunnel_same [OF k(1) sa])
  have n1: "names_tunnel 0 run_tunnel 11 st1" using k(3) names_tunnel_same [OF sa] by simp
  show ?thesis using second_delete_null_pointer [OF r1 run_env_ok k1 plain_frame [OF x(2) k(2)] n1 skb(2,1)] r1 by blast
qed

end
