(* ===== verification/L2tp_Link.thy ===== *)
theory L2tp_Link
  imports L2tp_Inv_Xmit
begin

unbundle bit_operations_syntax

text \<open>
  The two ends of a link. What the transmit path of one session puts in front of a payload is read
  back by the UDP receive path of the peer: the demultiplexer takes the version, the flags and the
  session id from the frame, finds the session, and the session delivers the payload.
\<close>

section \<open>Definitions\<close>

text \<open>A session at \<open>p\<close>, in the tunnel at \<open>tp\<close>, that is ready for the next packet.\<close>

definition receiving :: "kenv \<Rightarrow> ptr \<Rightarrow> l2tp_tunnel \<Rightarrow> ptr \<Rightarrow> l2tp_session \<Rightarrow> kst \<Rightarrow> bool" where
  "receiving E tp t' p s' st \<longleftrightarrow> k_tunnels st tp = Some t' \<and> k_sessions st p = Some s' \<and> s_tunnel s' = Some tp \<and>
     1 \<le> s_ref_count s' \<and> recv_skb s' \<noteq> None \<and> pw_ok s' (k_world st) \<and> wf_seq s' \<and> wait_ok E s' \<and> reorder_q s' = []"

text \<open>The checksum of the packet is right, or not checked.\<close>

definition csum_accepted :: "kenv \<Rightarrow> l2tp_tunnel \<Rightarrow> sk_buff \<Rightarrow> kst \<Rightarrow> bool" where
  "csum_accepted E t' skb st \<longleftrightarrow>
     (case t_sock t' of
        None \<Rightarrow> True
      | Some a \<Rightarrow> (case l2tp_verify_udp_checksum E a skb st of Inr (bad, _) \<Rightarrow> \<not> bad | Inl _ \<Rightarrow> False))"

text \<open>A UDP packet, in one linear buffer, with the frame behind its UDP header.\<close>

definition udp_packet :: "sk_buff \<Rightarrow> u8 list \<Rightarrow> bool" where
  "udp_packet skb frame \<longleftrightarrow> UDP_HLEN \<le> skb_len skb \<and> drop UDP_HLEN (skb_data skb) = frame \<and> skb_headlen skb = skb_len skb"

text \<open>A receiving heap for the witnesses: one tunnel with one session, under id 9.\<close>

definition link_tunnel :: l2tp_tunnel where
  "link_tunnel = sample_tunnel\<lparr>session_hlist := (replicate 16 [])[9 := [1]]\<rparr>"

definition ip_tunnel :: l2tp_tunnel where
  "ip_tunnel = link_tunnel\<lparr>encap := L2TP_ENCAPTYPE_IP\<rparr>"

definition link_session :: l2tp_session where
  "link_session = sample_session\<lparr>session_id := 9\<rparr>"

definition ppp_tunnel :: l2tp_tunnel where
  "ppp_tunnel = link_tunnel\<lparr>version := 2, recv_payload_hook := Some Pppol2tp_recv_payload_hook\<rparr>"

definition ppp_session :: l2tp_session where
  "ppp_session = sample_session_v2\<lparr>session_id := 9, recv_skb := Some Pppol2tp_recv, build_header := L2tp_build_l2tpv2_header,
     priv := PrivPpp \<lparr>ps_owner = 1, ps_sock = Some 1, ps_tunnel_sock = Some 1, ps_flags = 0\<rparr>\<rparr>"

definition link_state :: "l2tp_tunnel \<Rightarrow> l2tp_session \<Rightarrow> kst" where
  "link_state t s = \<lparr>k_tunnels = (\<lambda>_. None)(1 \<mapsto> t), k_sessions = (\<lambda>_. None)(1 \<mapsto> s), k_world = sample_world,
     k_nets = (\<lambda>_. \<lparr>l2tp_tunnel_list = [1], l2tp_session_hlist = (replicate 256 [])[9 := [1]]\<rparr>),
     l2tp_tunnel_count = 1, l2tp_session_count = 1, l2tp_wq = [], k_rcu = [], k_wskbs = [], k_trace = [], k_next = 2,
     l2tp_nl_cmd_ops = (\<lambda>_. None)\<rparr>"

section \<open>The sender\<close>

lemma put_l2tp_header_data:
  assumes "put_l2tp_header t s skb k = Inr (s2, frame)"
  obtains area n b where "length area = k" and "call_build_header (build_header s) t s area = Inr (n, s2, b)"
    and "skb_data frame = b @ skb_data skb"
proof -
  let ?area = "drop (length (skb_head skb) - k) (skb_head skb)"
  have room: "k \<le> length (skb_head skb)"
    using assms by (auto simp: put_l2tp_header_def skb_push_def Let_def split: if_splits)
  then obtain n b where "call_build_header (build_header s) t s ?area = Inr (n, s2, b)" "skb_data frame = b @ skb_data skb"
    using assms by (auto simp: put_l2tp_header_def skb_push_def Let_def bind_res_Inr_iff)
  then show thesis by (rule that [rotated]) (use room in simp)
qed

lemma put_v3_header:
  assumes "header_fits t s" and "version t \<noteq> L2TP_HDR_VER_2"
    and "put_l2tp_header t s skb (unat (hdr_len s)) = Inr (s2, frame)"
  obtains area n where "length area = v3_hdr_len t s"
    and "l2tp_build_l2tpv3_header t s (area @ skb_data skb) = Inr (n, s2, skb_data frame)"
    and "\<exists>pad. skb_data frame = (l2tpv3_bytes t s @ pad) @ skb_data skb \<and> length (l2tpv3_bytes t s @ pad) = v3_hdr_len t s"
proof -
  have f: "build_header s = L2tp_build_l2tpv3_header" "v3_ok t s" "unat (hdr_len s) = v3_hdr_len t s"
    using assms(1,2) by (simp_all add: header_fits_def)
  obtain area n b where a: "length area = v3_hdr_len t s" "l2tp_build_l2tpv3_header t s area = Inr (n, s2, b)"
    "skb_data frame = b @ skb_data skb"
    by (rule put_l2tp_header_data [OF assms(3)]) (simp add: f)
  let ?pad = "drop (length (l2tpv3_bytes t s)) area"
  have "length (l2tpv3_bytes t s @ ?pad) = v3_hdr_len t s" using length_l2tpv3_bytes [OF f(2)] a(1) by simp
  moreover have "skb_data frame = (l2tpv3_bytes t s @ ?pad) @ skb_data skb"
    using build_v3_area [OF f(2) a(1), of "[]"] a(2,3) by simp
  ultimately show thesis
    using build_v3_area [OF f(2) a(1), of "[]"] build_v3_area [OF f(2) a(1), of "skb_data skb"] a
    by (intro that [of area n] exI [of _ ?pad]) simp_all
qed

lemma put_v2_header:
  assumes "header_fits t s" and "version t = L2TP_HDR_VER_2"
    and "put_l2tp_header t s skb (unat (hdr_len s)) = Inr (s2, frame)"
  obtains area n where "length area = (if send_seq s \<noteq> 0 then 10 else 6)"
    and "l2tp_build_l2tpv2_header t s (area @ skb_data skb) = Inr (n, s2, skb_data frame)"
    and "skb_data frame = l2tpv2_bytes t s @ skb_data skb"
proof -
  have f: "build_header s = L2tp_build_l2tpv2_header" "unat (hdr_len s) = (if send_seq s \<noteq> 0 then 10 else 6)"
    using assms(1,2) by (simp_all add: header_fits_def)
  obtain area n b where a: "length area = unat (hdr_len s)" "l2tp_build_l2tpv2_header t s area = Inr (n, s2, b)"
    "skb_data frame = b @ skb_data skb"
    by (rule put_l2tp_header_data [OF assms(3)]) (simp add: f(1))
  have l: "length area = (if send_seq s \<noteq> 0 then 10 else 6)" using a(1) f(2) by simp
  show thesis
    by (rule that [OF l, of n]) (use build_v2_area [OF l, of t "[]"] build_v2_area [OF l, of t "skb_data skb"] a in simp_all)
qed

section \<open>The receiver\<close>

definition same_bytes :: "sk_buff \<Rightarrow> sk_buff \<Rightarrow> bool" where
  "same_bytes skb skb' \<longleftrightarrow> skb_data skb' = skb_data skb \<and> skb_headlen skb' = skb_headlen skb"

lemma udp_csum_same: "same_bytes skb (snd (udp_csum_v4 E sk ulen check skb))" "same_bytes skb (snd (udp_csum_v6 E ulen check skb))"
  by (simp_all add: same_bytes_def udp_csum_v4_def udp_csum_v6_def Let_def)

lemma verify_udp_same:
  assumes "l2tp_verify_udp_checksum E a skb st = Inr (bad, skb1)"
  shows "same_bytes skb skb1"
proof -
  have refl: "same_bytes skb skb" by (simp add: same_bytes_def)
  have "case l2tp_verify_udp_checksum E a skb st of Inr q \<Rightarrow> same_bytes skb (snd q) | Inl _ \<Rightarrow> True"
    unfolding l2tp_verify_udp_checksum_def by (simp add: refl udp_csum_same case_prod_unfold split: bind_res_split)
  then show ?thesis using assms by simp
qed

text \<open>Up to the demultiplexer a good packet only loses its UDP header.\<close>

lemma recv_core_demux:
  assumes "k_tunnels st tp = Some t'" and "csum_accepted E t' skb st" and "udp_packet skb frame" and "10 \<le> length frame"
  obtains skb3 where "l2tp_udp_recv_core E tp skb hook st = udp_demux E tp t' skb3 hook st"
    and "skb_data skb3 = frame" and "skb_headlen skb3 = length frame"
proof -
  obtain skb1 where v: "(case t_sock t' of None \<Rightarrow> Inr (False, skb) | Some a \<Rightarrow> l2tp_verify_udp_checksum E a skb st) = Inr (False, skb1)"
    "skb_data skb1 = skb_data skb" "skb_headlen skb1 = skb_headlen skb"
    using assms(2) verify_udp_same [of E _ skb st False]
    by (auto simp: csum_accepted_def same_bytes_def split: option.splits sum.splits)
  obtain skb2 where p: "skb_pull skb1 UDP_HLEN = Inr skb2" "skb_data skb2 = frame" "skb_headlen skb2 = length frame"
    using assms(3) v by (auto simp: udp_packet_def skb_pull_def)
  have h: "pull_headers E t' skb2 = (True, skb2)" using p assms(4) by (simp add: pull_headers_def pskb_may_pull_def)
  show thesis
    by (rule that [of skb2]) (use assms(1) v p h in \<open>simp_all add: l2tp_udp_recv_core_def\<close>)
qed

text \<open>The receive path of a session on the heap, between taking and dropping a reference.\<close>

lemma recv_common_ok:
  assumes s': "k_sessions st p = Some s'" "s_tunnel s' = Some tp" "k_tunnels st tp = Some t'" "1 \<le> s_ref_count s'"
    and body: "recv_body pw E \<lparr>rx_tunnel = t', rx_session = s'\<lparr>s_ref_count := s_ref_count s' + 1\<rparr>, rx_world = k_world st,
        rx_trace = k_trace st\<rparr> skb i f len hook = Inr r'" "s_ref_count (rx_session r') = s_ref_count s' + 1"
  shows "\<exists>st'. l2tp_recv_common E p skb i f len hook st = Inr st' \<and> k_trace st' = rx_trace r' \<and>
    k_sessions st' p = Some ((rx_session r')\<lparr>s_ref_count := s_ref_count s'\<rparr>)"
  using assms
  by (simp add: l2tp_recv_common_def l2tp_session_inc_refcount_def with_rx_def l2tp_session_dec_refcount_def
      set_session_def set_tunnel_def Let_def)

text \<open>What the demultiplexer does with a frame whose session it finds.\<close>

lemma demux_delivers:
  assumes rcv: "receiving E tp t' p s' st" and find: "l2tp_session_find E (l2tp_net t') (Some tp) sid st = Inr (Some p)"
    and flags: "get_be16 (linear skb) 0 = Inr f" "int (unat (f AND L2TP_HDR_VER_MASK)) = version t'" "f AND L2TP_HDRFLAG_T = 0"
    and ids: "parse_udp_header t' skb f = Inr (i, sid)"
    and body: "\<exists>r' x. recv_body pw E \<lparr>rx_tunnel = t', rx_session = s'\<lparr>s_ref_count := s_ref_count s' + 1\<rparr>, rx_world = k_world st,
        rx_trace = k_trace st\<rparr> skb i f (int (skb_len skb)) hook = Inr r' \<and> rx_trace r' = k_trace st @ [Recv_skb x] \<and> skb_data x = d \<and>
        s_ref_count (rx_session r') = s_ref_count s' + 1 \<and> reorder_q (rx_session r') = [] \<and> nr (rx_session r') = n"
  shows "\<exists>st' s2' x. udp_demux E tp t' skb hook st = Inr (0, skb, st') \<and> k_trace st' = k_trace st @ [Recv_skb x] \<and>
    skb_data x = d \<and> k_sessions st' p = Some s2' \<and> nr s2' = n \<and> reorder_q s2' = [] \<and> s_ref_count s2' = s_ref_count s'"
proof -
  obtain r' x where r': "recv_body pw E \<lparr>rx_tunnel = t', rx_session = s'\<lparr>s_ref_count := s_ref_count s' + 1\<rparr>, rx_world = k_world st,
        rx_trace = k_trace st\<rparr> skb i f (int (skb_len skb)) hook = Inr r'" "s_ref_count (rx_session r') = s_ref_count s' + 1"
      "rx_trace r' = k_trace st @ [Recv_skb x]" "skb_data x = d" "reorder_q (rx_session r') = []" "nr (rx_session r') = n"
    using body by blast
  have s': "k_sessions st p = Some s'" "s_tunnel s' = Some tp" "k_tunnels st tp = Some t'" "1 \<le> s_ref_count s'"
    using rcv by (simp_all add: receiving_def)
  obtain h where h: "recv_skb s' = Some h" using rcv by (auto simp: receiving_def)
  obtain st' where st': "l2tp_recv_common E p skb i f (int (skb_len skb)) hook st = Inr st'" "k_trace st' = rx_trace r'"
      "k_sessions st' p = Some ((rx_session r')\<lparr>s_ref_count := s_ref_count s'\<rparr>)"
    using recv_common_ok [OF s'(1-4) r'(1,2)] by blast
  have "udp_demux E tp t' skb hook st = Inr (0, skb, st')"
    using flags ids find s'(1) h st'(1) by (simp add: udp_demux_def)
  then show ?thesis using st' r' by auto
qed


text \<open>The receive state \<^verbatim>\<open>l2tp_recv_common\<close> works on, with the reference it has taken.\<close>

abbreviation (input) held_rx :: "l2tp_tunnel \<Rightarrow> l2tp_session \<Rightarrow> kst \<Rightarrow> rx" where
  "held_rx t' s' st \<equiv> \<lparr>rx_tunnel = t', rx_session = s'\<lparr>s_ref_count := s_ref_count s' + 1\<rparr>, rx_world = k_world st,
     rx_trace = k_trace st\<rparr>"

lemma held_rx_ok: "receiving E tp t' p s' st \<Longrightarrow> wf_rx pw_ok (held_rx t' s' st)"
  by (simp add: receiving_def wf_rx_def wf_seq_def pw_ok_def ppp_sock_of_def eth_dev_of_def)

section \<open>Properties\<close>

text \<open>
  C4: what a version 3 session sends over UDP, its peer delivers. The sender puts its L2TP header
  in front of a payload with its own builder; the frame arrives behind any UDP header with an
  acceptable checksum, in a linear buffer and with at least ten bytes. The receiving tunnel is
  version 3 and has, under the id the sender has for its peer, a session that is configured for
  the sender (cookie, sublayer, offset), is connected to its pseudowire, has an empty queue and
  waits for the sender's next number, and that takes packets with or without numbers as the
  sender sends them. Then the receive handler takes the frame: it finds version 3, no control
  bit and the session id in the frame, and hands the pseudowire one packet, the payload (less a
  leading ff 03 if the tunnel has the hook of PPP, which needs two bytes of payload). The session
  has its reference back, its queue is empty and its \<open>nr\<close> is again the sender's \<open>ns\<close>.
\<close>

theorem v3_frame_delivered:
  assumes "header_fits t s" and "version t = L2TP_HDR_VER_3" and "encap t = L2TP_ENCAPTYPE_UDP"
    and "put_l2tp_header t s pl (unat (hdr_len s)) = Inr (s2, frame)"
    and "udp_packet skb (skb_data frame)" and "10 \<le> skb_len frame"
    and "receiving E tp t' p s' st" and "version t' = L2TP_HDR_VER_3" and "csum_accepted E t' skb st"
    and "l2tp_session_find E (l2tp_net t') (Some tp) (peer_session_id s) st = Inr (Some p)"
    and "v3_peer s s'" and "nr_max s' = 0xffffff" and "nr s' = ns s"
    and "takes_seq s' (send_seq s \<noteq> 0 \<and> l2specific_type s = L2TP_L2SPECTYPE_DEFAULT)"
    and "recv_payload_hook t' \<noteq> None \<longrightarrow> 2 \<le> skb_len pl"
  shows "\<exists>skb' st' s2' x. l2tp_udp_recv_core E tp skb (recv_payload_hook t') st = Inr (0, skb', st') \<and>
    k_trace st' = k_trace st @ [Recv_skb x] \<and> skb_data x = hook_payload (recv_payload_hook t') (skb_data pl) \<and>
    k_sessions st' p = Some s2' \<and> nr s2' = ns s2 \<and> reorder_q s2' = [] \<and> s_ref_count s2' = s_ref_count s'"
proof -
  have ok: "v3_ok t s" and v: "version t \<noteq> L2TP_HDR_VER_2" using assms(1,2) by (simp_all add: header_fits_def)
  obtain area n pad where a: "length area = v3_hdr_len t s"
      "l2tp_build_l2tpv3_header t s (area @ skb_data pl) = Inr (n, s2, skb_data frame)"
      "skb_data frame = (l2tpv3_bytes t s @ pad) @ skb_data pl" "length (l2tpv3_bytes t s @ pad) = v3_hdr_len t s"
    using put_v3_header [OF assms(1) v assms(4)] by metis
  have tp: "k_tunnels st tp = Some t'" using assms(7) by (simp add: receiving_def)
  obtain skb3 where d: "l2tp_udp_recv_core E tp skb (recv_payload_hook t') st = udp_demux E tp t' skb3 (recv_payload_hook t') st"
      "skb_data skb3 = skb_data frame" "skb_headlen skb3 = skb_len frame"
    by (rule recv_core_demux [OF tp assms(9,5,6)])
  obtain rest where lin: "linear skb3 = put_be16 3 @ put_be16 0 @ put_be32 (peer_session_id s) @ rest"
    using a(3) d(2,3) assms(3) by (simp add: l2tpv3_bytes_def)
  have f: "get_be16 (linear skb3) 0 = Inr 3" unfolding lin using get_be16_put [of "[]" 3] by simp
  have ids: "parse_udp_header t' skb3 3 = Inr (v3_data_off t, peer_session_id s)"
    unfolding parse_udp_header_def lin using get_be32_put [of "put_be16 3 @ put_be16 0" "peer_session_id s" rest] assms(3,8)
    by (simp add: v3_data_off_def)
  have room: "hook_room (recv_payload_hook t') (v3_hdr_len t s) skb3" "wf_skb skb3"
    using a(3,4) d(2,3) assms(15) by (auto simp: hook_room_def wf_skb_def)
  have "\<exists>r' x. recv_body pw E (held_rx t' s' st) skb3 (v3_data_off t) 3 (int (skb_len skb3)) (recv_payload_hook t') = Inr r' \<and>
      rx_trace r' = k_trace st @ [Recv_skb x] \<and> skb_data x = hook_payload (recv_payload_hook t') (skb_data pl) \<and>
      s_ref_count (rx_session r') = s_ref_count s' + 1 \<and> reorder_q (rx_session r') = [] \<and> nr (rx_session r') = ns s2"
    using pwc.v3_delivered [OF held_rx_ok [OF assms(7)] ok, of E area "skb_data pl" n s2 "skb_data frame" skb3] a(1,2) d(2) room
      assms(7,8,11-14) by (simp add: v3_peer_def wait_ok_def takes_seq_def receiving_def)
  from demux_delivers [OF assms(7,10) f _ _ ids this] assms(8) show ?thesis unfolding d(1) by simp blast
qed

theorem v3_frame_delivered_witness:
  "\<exists>skb' st' s2' x. l2tp_udp_recv_core sample_env 1 (sample_skb (replicate 8 0 @
        [0, 3, 0, 0, 0, 0, 0, 9, 1, 2, 3, 4, 0x40, 0, 0, 0, 0xaa, 0xbb])) None (link_state link_tunnel link_session) =
      Inr (0, skb', st') \<and>
    k_trace st' = [Recv_skb x] \<and> skb_data x = [0xaa, 0xbb] \<and>
    k_sessions st' 1 = Some s2' \<and> nr s2' = 1 \<and> reorder_q s2' = [] \<and> s_ref_count s2' = 1"
proof -
  let ?skb = "sample_skb (replicate 8 0 @ [0, 3, 0, 0, 0, 0, 0, 9, 1, 2, 3, 4, 0x40, 0, 0, 0, 0xaa, 0xbb])"
  let ?frame = "(sample_skb [0, 3, 0, 0, 0, 0, 0, 9, 1, 2, 3, 4, 0x40, 0, 0, 0, 0xaa, 0xbb])\<lparr>skb_head := replicate 48 0\<rparr>"
  have fits: "header_fits sample_tunnel sample_session" by (simp add: header_fits_def v3_ok_def v3_hdr_len_def)
  have bytes: "l2tpv3_bytes sample_tunnel sample_session = [0, 3, 0, 0, 0, 0, 0, 9, 1, 2, 3, 4, 0x40, 0, 0, 0]"
    by (simp add: l2tpv3_bytes_def l2specific_bytes_def put_be16_def put_be32_def)
  have put: "put_l2tp_header sample_tunnel sample_session (sample_skb [0xaa, 0xbb]) 16 = Inr (sample_session\<lparr>ns := 1\<rparr>, ?frame)"
    using build_v3_area [of sample_tunnel sample_session "replicate 16 0" "[]"] fits bytes
    by (simp add: put_l2tp_header_def skb_push_def sample_skb_def header_fits_def next_ns_v3_def next_ns_def v3_hdr_len_def)
  have rcv: "receiving sample_env 1 link_tunnel 1 link_session (link_state link_tunnel link_session)"
    by (simp add: receiving_def link_state_def link_session_def wf_seq_def seq_space_def wait_ok_def pw_ok_def sock_alive_def
        dev_alive_def ppp_sock_of_def eth_dev_of_def)
  have csum: "csum_accepted sample_env link_tunnel ?skb (link_state link_tunnel link_session)"
    by (simp add: csum_accepted_def link_tunnel_def l2tp_verify_udp_checksum_def get_be16_def sample_env_def link_state_def)
  have find: "l2tp_session_find sample_env 0 (Some 1) 9 (link_state link_tunnel link_session) = Inr (Some 1)"
    by (simp add: l2tp_session_find_def l2tp_session_id_hash_def link_state_def link_tunnel_def link_session_def)
  show ?thesis
    using v3_frame_delivered [OF fits, of "sample_skb [0xaa, 0xbb]" "sample_session\<lparr>ns := 1\<rparr>" ?frame ?skb sample_env 1 link_tunnel 1
        link_session "link_state link_tunnel link_session"] put rcv csum find
    by (simp add: udp_packet_def link_tunnel_def link_session_def v3_peer_def takes_seq_def hook_payload_def link_state_def)
qed

text \<open>
  C5: what a version 2 session sends, its peer delivers. As for version 3, with the header of
  \<^verbatim>\<open>l2tp_build_l2tpv2_header\<close>: the receive handler finds version 2, no control, length or offset bit,
  the session id, and the sequence numbers where the S bit of the frame announces them. The id the
  sender has for its peer must fit the 16 bits of the field, and the peer's session must be
  set up for version 2 (no cookie, no sublayer, 16-bit numbers). In a tunnel with the hook of
  PPP, which every connected PPP session is in, a leading ff 03 of the payload is stripped.
\<close>

theorem v2_frame_delivered:
  assumes "header_fits t s" and "version t = L2TP_HDR_VER_2"
    and "put_l2tp_header t s pl (unat (hdr_len s)) = Inr (s2, frame)"
    and "udp_packet skb (skb_data frame)" and "10 \<le> skb_len frame"
    and "receiving E tp t' p s' st" and "version t' = L2TP_HDR_VER_2" and "csum_accepted E t' skb st"
    and "peer_session_id s \<le> 0xffff"
    and "l2tp_session_find E (l2tp_net t') (Some tp) (peer_session_id s) st = Inr (Some p)"
    and "peer_cookie_len s' = 0" and "l2specific_len s' = 0" and "nr_max s' = 0xffff" and "nr s' = ns s"
    and "takes_seq s' (send_seq s \<noteq> 0)"
    and "recv_payload_hook t' \<noteq> None \<longrightarrow> 2 \<le> skb_len pl"
  shows "\<exists>skb' st' s2' x. l2tp_udp_recv_core E tp skb (recv_payload_hook t') st = Inr (0, skb', st') \<and>
    k_trace st' = k_trace st @ [Recv_skb x] \<and> skb_data x = hook_payload (recv_payload_hook t') (skb_data pl) \<and>
    k_sessions st' p = Some s2' \<and> nr s2' = ns s2 \<and> reorder_q s2' = [] \<and> s_ref_count s2' = s_ref_count s'"
proof -
  obtain area n where a: "length area = (if send_seq s \<noteq> 0 then 10 else 6)"
      "l2tp_build_l2tpv2_header t s (area @ skb_data pl) = Inr (n, s2, skb_data frame)"
      "skb_data frame = l2tpv2_bytes t s @ skb_data pl"
    by (rule put_v2_header [OF assms(1-3)])
  have tp: "k_tunnels st tp = Some t'" using assms(6) by (simp add: receiving_def)
  obtain skb3 where d: "l2tp_udp_recv_core E tp skb (recv_payload_hook t') st = udp_demux E tp t' skb3 (recv_payload_hook t') st"
      "skb_data skb3 = skb_data frame" "skb_headlen skb3 = skb_len frame"
    by (rule recv_core_demux [OF tp assms(8,4,5)])
  let ?sid = "ucast (peer_session_id s) :: u16"
  obtain rest where lin: "linear skb3 = put_be16 (v2_flags s) @ put_be16 (ucast (peer_tunnel_id t)) @ put_be16 ?sid @ rest"
    using a(3) d(2,3) by (simp add: l2tpv2_bytes_def v2_flags_def)
  have f: "get_be16 (linear skb3) 0 = Inr (v2_flags s)" unfolding lin using get_be16_put [of "[]" "v2_flags s"] by simp
  have sid: "ucast ?sid = peer_session_id s"
    using assms(9) by (simp add: word_unat_eq_iff word_le_nat_alt unsigned_ucast_eq unsigned_take_bit_eq take_bit_nat_eq_self)
  have ids: "parse_udp_header t' skb3 (v2_flags s) = Inr (6, peer_session_id s)"
    unfolding parse_udp_header_def lin
    using get_be16_put [of "put_be16 (v2_flags s)" "ucast (peer_tunnel_id t)" "put_be16 ?sid @ rest"]
      get_be16_put [of "put_be16 (v2_flags s) @ put_be16 (ucast (peer_tunnel_id t))" ?sid rest] assms(7) sid
    by (simp add: v2_flags_def)
  have room: "hook_room (recv_payload_hook t') (length area) skb3" "wf_skb skb3"
    using a(1,3) d(2,3) assms(16) length_l2tpv2_bytes [of t s] by (auto simp: hook_room_def wf_skb_def)
  have "\<exists>r' x. recv_body pw E (held_rx t' s' st) skb3 6 (v2_flags s) (int (skb_len skb3)) (recv_payload_hook t') = Inr r' \<and>
      rx_trace r' = k_trace st @ [Recv_skb x] \<and> skb_data x = hook_payload (recv_payload_hook t') (skb_data pl) \<and>
      s_ref_count (rx_session r') = s_ref_count s' + 1 \<and> reorder_q (rx_session r') = [] \<and> nr (rx_session r') = ns s2"
    using pwc.v2_delivered [OF held_rx_ok [OF assms(6)], of E s area t "skb_data pl" n s2 "skb_data frame" skb3] a(1,2) d(2) room
      assms(6,7,11-15) by (simp add: wait_ok_def takes_seq_def receiving_def)
  moreover have "int (unat (v2_flags s AND L2TP_HDR_VER_MASK)) = version t'" "v2_flags s AND L2TP_HDRFLAG_T = 0"
    using assms(7) by (simp_all add: v2_flags_def)
  ultimately show ?thesis using demux_delivers [OF assms(6,10) f _ _ ids] unfolding d(1) by blast
qed

theorem v2_frame_delivered_witness:
  "\<exists>skb' st' s2' x. l2tp_udp_recv_core sample_env 1 (sample_skb (replicate 8 0 @
        [0x08, 2, 0, 4, 0, 9, 0, 0, 0, 0, 0xff, 0x03, 0x80])) (Some Pppol2tp_recv_payload_hook) (link_state ppp_tunnel ppp_session) =
      Inr (0, skb', st') \<and>
    k_trace st' = [Recv_skb x] \<and> skb_data x = [0x80] \<and>
    k_sessions st' 1 = Some s2' \<and> nr s2' = 1 \<and> reorder_q s2' = [] \<and> s_ref_count s2' = 1"
proof -
  let ?skb = "sample_skb (replicate 8 0 @ [0x08, 2, 0, 4, 0, 9, 0, 0, 0, 0, 0xff, 0x03, 0x80])"
  let ?frame = "(sample_skb [0x08, 2, 0, 4, 0, 9, 0, 0, 0, 0, 0xff, 0x03, 0x80])\<lparr>skb_head := replicate 54 0\<rparr>"
  have fits: "header_fits ppp_tunnel ppp_session"
    by (simp add: header_fits_def ppp_tunnel_def ppp_session_def sample_session_v2_def)
  have bytes: "l2tpv2_bytes ppp_tunnel ppp_session = [0x08, 2, 0, 4, 0, 9, 0, 0, 0, 0]"
    by (simp add: l2tpv2_bytes_def put_be16_def ppp_tunnel_def link_tunnel_def ppp_session_def sample_session_v2_def)
  have ppp: "build_header ppp_session = L2tp_build_l2tpv2_header" "send_seq ppp_session = 1" "next_ns 0xffff ppp_session = ppp_session\<lparr>ns := 1\<rparr>"
    by (simp_all add: next_ns_def ppp_session_def sample_session_v2_def)
  have put: "put_l2tp_header ppp_tunnel ppp_session (sample_skb [0xff, 0x03, 0x80]) 10 = Inr (ppp_session\<lparr>ns := 1\<rparr>, ?frame)"
    using build_v2_area [of "replicate 10 0" ppp_session ppp_tunnel "[]"] bytes ppp
    by (simp add: put_l2tp_header_def skb_push_def sample_skb_def)
  have rcv: "receiving sample_env 1 ppp_tunnel 1 ppp_session (link_state ppp_tunnel ppp_session)"
    by (simp add: receiving_def link_state_def ppp_session_def sample_session_v2_def wf_seq_def seq_space_def wait_ok_def pw_ok_def
        sock_alive_def ppp_sock_of_def)
  have csum: "csum_accepted sample_env ppp_tunnel ?skb (link_state ppp_tunnel ppp_session)"
    by (simp add: csum_accepted_def ppp_tunnel_def link_tunnel_def l2tp_verify_udp_checksum_def get_be16_def sample_env_def link_state_def)
  have find: "l2tp_session_find sample_env 0 (Some 1) 9 (link_state ppp_tunnel ppp_session) = Inr (Some 1)"
    by (simp add: l2tp_session_find_def l2tp_session_id_hash_def link_state_def ppp_tunnel_def link_tunnel_def ppp_session_def)
  show ?thesis
    using v2_frame_delivered [OF fits, of "sample_skb [0xff, 0x03, 0x80]" "ppp_session\<lparr>ns := 1\<rparr>" ?frame ?skb sample_env 1 ppp_tunnel 1
        ppp_session "link_state ppp_tunnel ppp_session"] put rcv csum find
    by (simp add: udp_packet_def ppp_tunnel_def link_tunnel_def ppp_session_def sample_session_v2_def takes_seq_def hook_payload_def
        link_state_def)
qed

text \<open>
  C15: what a version 3 session sends directly over IP, its peer delivers. The frame, without
  the four bytes that only UDP has, arrives as the payload of an IP packet in a linear buffer. The
  receive handler of protocol 115 reads a session id that is not zero, so no control packet, finds the session
  by that id in its namespace, and the session, configured and ready as for UDP, hands the
  payload to its pseudowire; the hook of PPP applies as there. \<open>nr\<close>, the queue and the reference count are afterwards as for UDP.
\<close>

theorem v3_ip_frame_delivered:
  assumes "header_fits t s" and "version t = L2TP_HDR_VER_3" and "encap t \<noteq> L2TP_ENCAPTYPE_UDP"
    and "put_l2tp_header t s pl (unat (hdr_len s)) = Inr (s2, frame)"
    and "skb_data skb = skb_data frame" and "skb_headlen skb = skb_len skb" and "peer_session_id s \<noteq> 0"
    and "receiving E tp t' p s' st" and "version t' = L2TP_HDR_VER_3"
    and "l2tp_session_find E net None (peer_session_id s) st = Inr (Some p)"
    and "v3_peer s s'" and "nr_max s' = 0xffffff" and "nr s' = ns s"
    and "takes_seq s' (send_seq s \<noteq> 0 \<and> l2specific_type s = L2TP_L2SPECTYPE_DEFAULT)"
    and "recv_payload_hook t' \<noteq> None \<longrightarrow> 2 \<le> skb_len pl"
  shows "\<exists>st' s2' x. l2tp_ip_recv E net daddr skb tbs st = Inr (0, st') \<and>
    k_trace st' = k_trace st @ [Recv_skb x] \<and> skb_data x = hook_payload (recv_payload_hook t') (skb_data pl) \<and>
    k_sessions st' p = Some s2' \<and> nr s2' = ns s2 \<and> reorder_q s2' = [] \<and> s_ref_count s2' = s_ref_count s'"
proof -
  have ok: "v3_ok t s" and v: "version t \<noteq> L2TP_HDR_VER_2" using assms(1,2) by (simp_all add: header_fits_def)
  obtain area n pad where a: "length area = v3_hdr_len t s"
      "l2tp_build_l2tpv3_header t s (area @ skb_data pl) = Inr (n, s2, skb_data frame)"
      "skb_data frame = (l2tpv3_bytes t s @ pad) @ skb_data pl" "length (l2tpv3_bytes t s @ pad) = v3_hdr_len t s"
    using put_v3_header [OF assms(1) v assms(4)] by metis
  have st: "k_tunnels st tp = Some t'" "k_sessions st p = Some s'" "s_tunnel s' = Some tp" "1 \<le> s_ref_count s'"
    using assms(8) by (simp_all add: receiving_def)
  obtain rest where lin: "linear skb = put_be32 (peer_session_id s) @ rest"
    using a(3) assms(3,5,6) by (simp add: l2tpv3_bytes_def)
  then have id: "get_be32 (linear skb) 0 = Inr (peer_session_id s)" and four: "4 \<le> skb_headlen skb"
    using get_be32_put [of "[]" "peer_session_id s" rest] length_linear [of skb] assms(6) by (simp_all add: wf_skb_def)
  have off: "v3_data_off t = 4" using assms(3) by (simp add: v3_data_off_def)
  have room: "hook_room (recv_payload_hook t') (v3_hdr_len t s) skb" "wf_skb skb"
    using a(3,4) assms(5,6,15) by (auto simp: hook_room_def wf_skb_def)
  obtain r' x where r': "recv_body pw E (held_rx t' s' st) skb 4 0 (int (skb_len skb)) (recv_payload_hook t') = Inr r'"
      "s_ref_count (rx_session r') = s_ref_count s' + 1"
      "rx_trace r' = k_trace st @ [Recv_skb x]" "skb_data x = hook_payload (recv_payload_hook t') (skb_data pl)"
      "reorder_q (rx_session r') = []" "nr (rx_session r') = ns s2"
    using pwc.v3_delivered [OF held_rx_ok [OF assms(8)] ok, of E area "skb_data pl" n s2 "skb_data frame" skb
        "recv_payload_hook t'" 0 "int (skb_len skb)"] a(1,2) assms(5) room off assms(8,9,11-14)
    by (auto simp: v3_peer_def wait_ok_def takes_seq_def receiving_def)
  obtain st' where st': "l2tp_recv_common E p skb 4 0 (int (skb_len skb)) (recv_payload_hook t') st = Inr st'"
      "k_trace st' = rx_trace r'" "k_sessions st' p = Some ((rx_session r')\<lparr>s_ref_count := s_ref_count s'\<rparr>)"
    using recv_common_ok [OF st(2,3,1,4) r'(1,2)] by blast
  have "l2tp_ip_recv E net daddr skb tbs st = Inr (0, st')"
    using four id assms(6,7,10) st st'(1) by (simp add: l2tp_ip_recv_def ip_data_def pskb_may_pull_def)
  then show ?thesis using st'(2,3) r' by auto
qed

theorem v3_ip_frame_delivered_witness:
  "\<exists>st' s2' x. l2tp_ip_recv sample_env 0 0x7f000001 (sample_skb [0, 0, 0, 9, 1, 2, 3, 4, 0x40, 0, 0, 0, 0xaa, 0xbb])
        \<lparr>l2tp_ip_table = [], l2tp_ip_bind_table = []\<rparr> (link_state ip_tunnel link_session) = Inr (0, st') \<and>
    k_trace st' = [Recv_skb x] \<and> skb_data x = [0xaa, 0xbb] \<and>
    k_sessions st' 1 = Some s2' \<and> nr s2' = 1 \<and> reorder_q s2' = [] \<and> s_ref_count s2' = 1"
proof -
  let ?skb = "sample_skb [0, 0, 0, 9, 1, 2, 3, 4, 0x40, 0, 0, 0, 0xaa, 0xbb]" and ?s = "sample_session\<lparr>hdr_len := 12\<rparr>"
  have fits: "header_fits ip_tunnel ?s" by (simp add: header_fits_def v3_ok_def v3_hdr_len_def ip_tunnel_def link_tunnel_def)
  have bytes: "l2tpv3_bytes ip_tunnel ?s = [0, 0, 0, 9, 1, 2, 3, 4, 0x40, 0, 0, 0]"
    by (simp add: l2tpv3_bytes_def l2specific_bytes_def put_be32_def ip_tunnel_def)
  have put: "put_l2tp_header ip_tunnel ?s (sample_skb [0xaa, 0xbb]) 12 = Inr (?s\<lparr>ns := 1\<rparr>, ?skb\<lparr>skb_head := replicate 52 0\<rparr>)"
    using build_v3_area [of ip_tunnel ?s "replicate 12 0" "[]"] fits bytes
    by (simp add: put_l2tp_header_def skb_push_def sample_skb_def header_fits_def next_ns_v3_def next_ns_def v3_hdr_len_def ip_tunnel_def link_tunnel_def)
  have rcv: "receiving sample_env 1 ip_tunnel 1 link_session (link_state ip_tunnel link_session)"
    by (simp add: receiving_def link_state_def link_session_def wf_seq_def seq_space_def wait_ok_def pw_ok_def sock_alive_def
        dev_alive_def ppp_sock_of_def eth_dev_of_def)
  have find: "l2tp_session_find sample_env 0 None 9 (link_state ip_tunnel link_session) = Inr (Some 1)"
    by (simp add: l2tp_session_find_def l2tp_session_find_2_def l2tp_session_id_hash_2_def link_state_def link_session_def)
  show ?thesis
    using v3_ip_frame_delivered [OF fits, of "sample_skb [0xaa, 0xbb]" "?s\<lparr>ns := 1\<rparr>" "?skb\<lparr>skb_head := replicate 52 0\<rparr>" ?skb sample_env 1 ip_tunnel 1
        link_session "link_state ip_tunnel link_session" 0 "0x7f000001" "\<lparr>l2tp_ip_table = [], l2tp_ip_bind_table = []\<rparr>"] put rcv find
    by (simp add: ip_tunnel_def link_tunnel_def link_session_def v3_peer_def takes_seq_def hook_payload_def link_state_def)
qed

end
