(* ===== verification/L2tp_Sockets.thy ===== *)
theory L2tp_Sockets
  imports L2tp_Link
begin

unbundle bit_operations_syntax

text \<open>
  The control calls on sockets: the options of a PPP socket, and the bind tables of the sockets of
  protocol 115.
\<close>

section \<open>Definitions\<close>

text \<open>A connected PPP socket \<open>a\<close>, its session \<open>s\<close> at \<open>p\<close> and the session's tunnel.\<close>

definition ppp_user :: "ptr \<Rightarrow> ptr \<Rightarrow> l2tp_session \<Rightarrow> l2tp_tunnel \<Rightarrow> kst \<Rightarrow> bool" where
  "ppp_user a p s t st \<longleftrightarrow>
     (case socks (k_world st) a of None \<Rightarrow> False | Some sk \<Rightarrow> sk_user_data sk = Some p) \<and> k_tunnels st p = None \<and>
     k_sessions st p = Some s \<and> s_magic s = L2TP_SESSION_MAGIC \<and> ppp_sock_of s = Some a \<and>
     (session_id s \<noteq> 0 \<or> peer_session_id s \<noteq> 0) \<and>
     (case s_tunnel s of None \<Rightarrow> False | Some tp \<Rightarrow> k_tunnels st tp = Some t)"

text \<open>The values an option takes and can give back.\<close>

definition opt_value :: "ppp_opt \<Rightarrow> int \<Rightarrow> bool" where
  "opt_value opt v =
     (case opt of
        PPPOL2TP_SO_RECVSEQ \<Rightarrow> v = 0 \<or> v = 1
      | PPPOL2TP_SO_SENDSEQ \<Rightarrow> v = 0 \<or> v = 1
      | PPPOL2TP_SO_LNSMODE \<Rightarrow> v = 0 \<or> v = 1
      | PPPOL2TP_SO_DEBUG \<Rightarrow> - (2 ^ 31) \<le> v \<and> v < 2 ^ 31
      | _ \<Rightarrow> False)"

text \<open>A connected socket at 1 and its session at 2, for the witnesses.\<close>

definition ppp_state :: "sock \<Rightarrow> kst" where
  "ppp_state sk = (link_state ppp_tunnel ppp_session)\<lparr>k_sessions := (\<lambda>_. None)(2 \<mapsto> ppp_session),
     k_world := sample_world\<lparr>socks := (\<lambda>_. None)(1 \<mapsto> sk\<lparr>sk_user_data := Some 2\<rparr>)\<rparr>,
     k_tunnels := (\<lambda>_. None)(1 \<mapsto> ppp_tunnel)\<rparr>"

text \<open>Two unbound sockets of protocol 115, at 1 and 2.\<close>

definition unbound_sock :: sock where
  "unbound_sock = sample_sock\<lparr>sk_zapped := True, sk_state := TCP_CLOSE, inet_rcv_saddr := 0\<rparr>"

definition unbound_tables :: ip_tables where
  "unbound_tables = \<lparr>l2tp_ip_table = [1, 2], l2tp_ip_bind_table = []\<rparr>"

definition unbound_state :: kst where
  "unbound_state = (link_state link_tunnel link_session)\<lparr>k_world := sample_world\<lparr>socks :=
     (\<lambda>_. None)(1 \<mapsto> unbound_sock, 2 \<mapsto> unbound_sock)\<rparr>\<rparr>"

definition local_addr :: sockaddr_l2tpip where
  "local_addr = \<lparr>l2tp_family = AF_INET, l2tp_addr = 0x7f000001, l2tp_conn_id = 3, l2tp_len_ok = True\<rparr>"

definition local_addr6 :: sockaddr_l2tpip6 where
  "local_addr6 = \<lparr>l2tp6_family = AF_INET6, l2tp6_addr = 5, l2tp6_scope_id = 0, l2tp6_conn_id = 3, l2tp6_len_ok = True\<rparr>"

section \<open>Socket options\<close>

abbreviation (input) held :: "ptr \<Rightarrow> kst \<Rightarrow> kst" where
  "held a st \<equiv> st\<lparr>k_world := upd_sock a (\<lambda>x. x\<lparr>sk_refcnt := sk_refcnt x + 1\<rparr>) (k_world st)\<rparr>"

lemma ppp_call:
  assumes "ppp_user a p s t st" and "ppp_priv s = Inr ps"
  shows "with_ppp_session a f none st = bind_res (f p s ps (held a st)) (\<lambda>(x, st2).
    bind_res (on_world (sock_put (Some a)) st2) (\<lambda>st3. Inr (x, st3)))"
proof -
  obtain sk where "socks (k_world st) a = Some sk" "sk_user_data sk = Some p" using assms(1) by (auto simp: ppp_user_def split: option.splits)
  then show ?thesis using assms
    by (simp add: with_ppp_session_def pppol2tp_sock_to_session_def on_world_def sock_hold_def socks_upd_sock user_magic_def ppp_user_def)
qed

lemma ppp_user_priv:
  assumes "ppp_user a p s t st"
  obtains ps where "ppp_priv s = Inr ps" and "ps_sock ps = Some a"
  using assms by (auto simp: ppp_user_def ppp_sock_of_def ppp_priv_def split: session_priv.splits)

text \<open>A handler that only changes the session and the socket leaves the references as they were.\<close>

lemma put_held:
  assumes "ppp_user a p s t st"
  shows "on_world (sock_put (Some a)) (set_session p s' (held a st)) = Inr (set_session p s' st)"
    and "on_world (sock_put (Some a)) (held a st) = Inr st"
    and "on_world (sock_put (Some a)) (set_session p s' ((held a st)\<lparr>k_world := upd_sock a (\<lambda>x. x\<lparr>chan_hdrlen := n\<rparr>) (k_world (held a st))\<rparr>)) =
      Inr (set_session p s' (st\<lparr>k_world := upd_sock a (\<lambda>x. x\<lparr>chan_hdrlen := n\<rparr>) (k_world st)\<rparr>))"
proof -
  obtain sk where "socks (k_world st) a = Some sk" using assms by (auto simp: ppp_user_def split: option.splits)
  then show "on_world (sock_put (Some a)) (set_session p s' (held a st)) = Inr (set_session p s' st)"
    and "on_world (sock_put (Some a)) (held a st) = Inr st"
    and "on_world (sock_put (Some a)) (set_session p s' ((held a st)\<lparr>k_world := upd_sock a (\<lambda>x. x\<lparr>chan_hdrlen := n\<rparr>) (k_world (held a st))\<rparr>)) =
      Inr (set_session p s' (st\<lparr>k_world := upd_sock a (\<lambda>x. x\<lparr>chan_hdrlen := n\<rparr>) (k_world st)\<rparr>))"
    by (simp_all add: on_world_def sock_put_def socks_upd_sock set_session_def)
qed

text \<open>The session after an option was set.\<close>

definition opt_session :: "l2tp_tunnel \<Rightarrow> ppp_opt \<Rightarrow> int \<Rightarrow> l2tp_session \<Rightarrow> l2tp_session" where
  "opt_session t opt v s =
     (case opt of
        PPPOL2TP_SO_RECVSEQ \<Rightarrow> s\<lparr>recv_seq := (if v \<noteq> 0 then - 1 else 0)\<rparr>
      | PPPOL2TP_SO_SENDSEQ \<Rightarrow> l2tp_session_set_header_len t (s\<lparr>send_seq := (if v \<noteq> 0 then - 1 else 0)\<rparr>) (version t)
      | PPPOL2TP_SO_LNSMODE \<Rightarrow> s\<lparr>lns_mode := (if v \<noteq> 0 then - 1 else 0)\<rparr>
      | PPPOL2TP_SO_DEBUG \<Rightarrow> s\<lparr>s_debug := of_int v\<rparr>
      | _ \<Rightarrow> s)"

lemma setsockopt_returns:
  assumes u: "ppp_user a p s t st" and v: "opt_value opt v"
  obtains st' where "pppol2tp_setsockopt E a True opt (Some v) 4 st = Inr (0, st')"
    and "k_sessions st' = (k_sessions st)(p \<mapsto> opt_session t opt v s)" and "ppp_user a p (opt_session t opt v s) t st'"
proof -
  obtain ps where ps: "ppp_priv s = Inr ps" "ps_sock ps = Some a" by (rule ppp_user_priv [OF u])
  obtain sk where sk: "socks (k_world st) a = Some sk" "sk_user_data sk = Some p" using u by (auto simp: ppp_user_def split: option.splits)
  obtain tp where tp: "s_tunnel s = Some tp" "k_tunnels st tp = Some t" using u by (auto simp: ppp_user_def split: option.splits)
  have s: "k_sessions st p = Some s" "session_id s \<noteq> 0 \<or> peer_session_id s \<noteq> 0" using u by (simp_all add: ppp_user_def)
  define st0 where "st0 = (if opt = PPPOL2TP_SO_SENDSEQ then st\<lparr>k_world := upd_sock a (\<lambda>x. x\<lparr>chan_hdrlen :=
     (if v \<noteq> 0 then PPPOL2TP_L2TP_HDR_SIZE_SEQ else PPPOL2TP_L2TP_HDR_SIZE_NOSEQ)\<rparr>) (k_world st)\<rparr> else st)"
  have "pppol2tp_setsockopt E a True opt (Some v) 4 st = Inr (0, set_session p (opt_session t opt v s) st0)"
    using v sk s tp ps put_held [OF u]
    by (cases opt) (auto simp: pppol2tp_setsockopt_def ppp_call [OF u ps(1)] pppol2tp_session_setsockopt_def set_send_seq_def
        opt_session_def opt_value_def st0_def socks_upd_sock)
  moreover have "k_sessions (set_session p (opt_session t opt v s) st0) = (k_sessions st)(p \<mapsto> opt_session t opt v s)"
    by (simp add: set_session_def st0_def)
  moreover have "ppp_user a p (opt_session t opt v s) t (set_session p (opt_session t opt v s) st0)"
    using u sk tp by (cases opt) (simp_all add: ppp_user_def set_session_def st0_def opt_session_def l2tp_session_set_header_len_def
        ppp_sock_of_def socks_upd_sock)
  ultimately show thesis by (rule that)
qed

lemma getsockopt_returns:
  assumes u: "ppp_user a p s t st"
  shows "pppol2tp_getsockopt E a True opt (Some 4) True st =
    Inr ((0, case snd (pppol2tp_session_getsockopt E s opt) of Some x \<Rightarrow> Out_int x | None \<Rightarrow> Uninit 4), st)"
proof -
  obtain ps where ps: "ppp_priv s = Inr ps" by (rule ppp_user_priv [OF u])
  obtain sk where sk: "socks (k_world st) a = Some sk" "sk_user_data sk = Some p" using u by (auto simp: ppp_user_def split: option.splits)
  have s: "session_id s \<noteq> 0 \<or> peer_session_id s \<noteq> 0" using u by (simp add: ppp_user_def)
  show ?thesis using sk s put_held(2) [OF u] by (auto simp: pppol2tp_getsockopt_def opt_len_def ppp_call [OF u ps] Let_def split: option.splits)
qed

text \<open>Setting one option leaves the others, and the header length goes with the numbering.\<close>

lemma opt_session_get:
  "opt_value opt v \<Longrightarrow> pppol2tp_session_getsockopt E (opt_session t opt v s) opt = (0, Some v)"
  "opt' \<noteq> opt \<Longrightarrow> pppol2tp_session_getsockopt E (opt_session t opt v s) opt' = pppol2tp_session_getsockopt E s opt'"
proof -
  have dbg: "sint (word_of_int v :: u32) = v" if "- (2 ^ 31) \<le> v" "v < 2 ^ 31"
    using that by (simp add: signed_of_int signed_take_bit_int_eq_self)
  show "opt_value opt v \<Longrightarrow> pppol2tp_session_getsockopt E (opt_session t opt v s) opt = (0, Some v)"
    using dbg by (cases opt) (auto simp: pppol2tp_session_getsockopt_def opt_session_def opt_value_def l2tp_session_set_header_len_def
        unsigned_minus_1_eq_mask mask_eq_exp_minus_1)
  show "opt' \<noteq> opt \<Longrightarrow> pppol2tp_session_getsockopt E (opt_session t opt v s) opt' = pppol2tp_session_getsockopt E s opt'"
    by (cases opt; cases opt') (simp_all add: pppol2tp_session_getsockopt_def opt_session_def l2tp_session_set_header_len_def)
qed

lemma opt_session_fits: "header_fits t s \<Longrightarrow> header_fits t (opt_session t opt v s)"
proof (cases "opt = PPPOL2TP_SO_SENDSEQ")
  case True
  let ?s = "s\<lparr>send_seq := (if v \<noteq> 0 then - 1 else 0)\<rparr>"
  assume fits: "header_fits t s"
  have len: "v3_hdr_len t ?s = v3_hdr_len t s" by (simp add: v3_hdr_len_def)
  show ?thesis
  proof (cases "version t = L2TP_HDR_VER_2")
    case v2: True
    then show ?thesis using True fits by (simp add: header_fits_def opt_session_def l2tp_session_set_header_len_def)
  next
    case v3: False
    have "unat (hdr_len (opt_session t opt v s)) = v3_hdr_len t s"
      using set_header_len_v3 [OF v3, of t ?s] fits v3 len True by (simp add: header_fits_def v3_ok_def opt_session_def)
    then show ?thesis using v3 True fits
      by (simp add: header_fits_def v3_ok_def v3_hdr_len_def opt_session_def l2tp_session_set_header_len_def)
  qed
next
  case False
  assume "header_fits t s"
  then show ?thesis using False
    by (cases opt; cases "version t = L2TP_HDR_VER_2") (simp_all add: header_fits_def opt_session_def v3_ok_def v3_hdr_len_def)
qed

section \<open>Bind tables\<close>

lemma chain_find_matches: "chain_find h P ps = Inr (Some p) \<Longrightarrow> \<exists>x. h p = Some x \<and> P x"
  by (induction ps) (auto simp: bind_res_Inr_iff deref_ptr_Inr_iff split: if_splits)

text \<open>The socket and the head of the table after a successful bind.\<close>

lemma del_node_frame:
  assumes "sk_del_node_init a (tbs, st) = Inr (tbs', st')" and "socks (k_world st) a = Some sk"
  shows "l2tp_ip_bind_table tbs' = l2tp_ip_bind_table tbs \<and>
    (\<exists>n. socks (k_world st') a = Some (sk\<lparr>sk_refcnt := n\<rparr>)) \<and> (\<forall>b. b \<noteq> a \<longrightarrow> socks (k_world st') b = socks (k_world st) b)"
  using assms by (auto simp: sk_del_node_init_def on_world_def sock_put_def bind_res_Inr_iff deref_ptr_Inr_iff socks_upd_sock
      split: if_splits intro: exI [of _ "sk_refcnt sk"])

lemma ip_bind_done:
  assumes b: "l2tp_ip_bind E a addr tbs st = Inr (0, tbs', st')" and sk: "socks (k_world st) a = Some sk"
  obtains sk' where "l2tp_ip_bind_table tbs' = a # l2tp_ip_bind_table tbs" and "socks (k_world st') a = Some sk'"
    and "conn_id sk' = l2tp_conn_id addr" and "sk_net sk' = sk_net sk" and "sk_bound_dev_if sk' = sk_bound_dev_if sk"
    and "inet_rcv_saddr sk' = (if l2tp_addr addr \<noteq> 0 then l2tp_addr addr else inet_rcv_saddr sk)"
proof -
  define ty where "ty = inet_addr_type E (sk_net sk) (l2tp_addr addr)"
  define sk1 where "sk1 = (if l2tp_addr addr \<noteq> 0 then sk\<lparr>inet_rcv_saddr := l2tp_addr addr, inet_saddr := l2tp_addr addr\<rparr> else sk)"
  define sk2 where "sk2 = (if ty = RTN_MULTICAST \<or> ty = RTN_BROADCAST then sk1\<lparr>inet_saddr := 0\<rparr> else sk1)"
  define st1 where "st1 = st\<lparr>k_world := upd_sock a (\<lambda>_. sk2\<lparr>conn_id := l2tp_conn_id addr\<rparr>) (k_world st)\<rparr>"
  obtain st2 where d: "sk_del_node_init a (sk_add_bind_node a tbs, st1) = Inr (tbs', st2)"
    and st': "st' = st2\<lparr>k_world := upd_sock a (\<lambda>x. x\<lparr>sk_zapped := False\<rparr>) (k_world st2)\<rparr>"
    using b sk unfolding l2tp_ip_bind_def sk1_def sk2_def st1_def ty_def
    by (auto simp: Let_def bind_res_Inr_iff split: if_splits)
  have "socks (k_world st1) a = Some (sk2\<lparr>conn_id := l2tp_conn_id addr\<rparr>)" using sk by (simp add: st1_def socks_upd_sock)
  then obtain n where n: "socks (k_world st2) a = Some (sk2\<lparr>conn_id := l2tp_conn_id addr, sk_refcnt := n\<rparr>)"
    and tb: "l2tp_ip_bind_table tbs' = l2tp_ip_bind_table (sk_add_bind_node a tbs)" using del_node_frame [OF d] by blast
  show thesis
    by (rule that [of "sk2\<lparr>conn_id := l2tp_conn_id addr, sk_refcnt := n, sk_zapped := False\<rparr>"])
       (use n tb st' in \<open>simp_all add: sk_add_bind_node_def socks_upd_sock sk2_def sk1_def\<close>)
qed

lemma ip6_bind_done:
  assumes b: "l2tp_ip6_bind E dx a addr tbs st = Inr (0, tbs', st')" and sk: "socks (k_world st) a = Some sk"
    and ok: "\<And>e sk1. ip6_host_check E (sk_net sk) addr (ipv6_addr_type E (l2tp6_addr addr)) dx sk = (Inl e, sk1) \<Longrightarrow> e \<noteq> 0"
  obtains sk' where "l2tp_ip_bind_table tbs' = a # l2tp_ip_bind_table tbs" and "socks (k_world st') a = Some sk'"
    and "conn_id sk' = l2tp6_conn_id addr" and "sk_v6_rcv_saddr sk' = l2tp6_addr addr"
proof -
  obtain v4 sk1 where h: "ip6_host_check E (sk_net sk) addr (ipv6_addr_type E (l2tp6_addr addr)) dx sk = (Inr v4, sk1)"
    using b sk ok unfolding l2tp_ip6_bind_def
    by (auto simp: Let_def bind_res_Inr_iff split: if_splits prod.splits sum.splits)
  define sk2 where "sk2 = sk1\<lparr>inet_rcv_saddr := v4, inet_saddr := v4, sk_v6_rcv_saddr := l2tp6_addr addr,
     np_saddr := l2tp6_addr addr, conn_id := l2tp6_conn_id addr\<rparr>"
  define st1 where "st1 = st\<lparr>k_world := upd_sock a (\<lambda>_. sk2) (k_world st)\<rparr>"
  obtain st2 where d: "sk_del_node_init a (sk_add_bind_node a tbs, st1) = Inr (tbs', st2)"
    and st': "st' = st2\<lparr>k_world := upd_sock a (\<lambda>x. x\<lparr>sk_zapped := False\<rparr>) (k_world st2)\<rparr>"
    using b sk h unfolding l2tp_ip6_bind_def sk2_def st1_def
    by (auto simp: Let_def bind_res_Inr_iff split: if_splits)
  have "socks (k_world st1) a = Some sk2" using sk by (simp add: st1_def socks_upd_sock)
  then obtain n where n: "socks (k_world st2) a = Some (sk2\<lparr>sk_refcnt := n\<rparr>)"
    and tb: "l2tp_ip_bind_table tbs' = l2tp_ip_bind_table (sk_add_bind_node a tbs)" using del_node_frame [OF d] by blast
  show thesis
    by (rule that [of "sk2\<lparr>sk_refcnt := n, sk_zapped := False\<rparr>"])
       (use n tb st' in \<open>simp_all add: sk_add_bind_node_def socks_upd_sock sk2_def\<close>)
qed

section \<open>Properties\<close>

text \<open>
  C16: what is set with \<^verbatim>\<open>setsockopt\<close> is read back with \<^verbatim>\<open>getsockopt\<close>. On a connected PPP socket of a session, set one of the
  options for received or sent sequence numbers or the LNS mode to 0 or 1, or the debug mask to any
  32-bit value (the reorder timeout is left out: it is converted to ticks and back). The call returns
  0, a following \<^verbatim>\<open>getsockopt\<close> returns 0 and that value and leaves the state, with the
  references on the socket, as it found it. No other session and no other option of this one
  changes, and a session whose header length fitted its headers still has a fitting one,
  although switching the sequence numbers changes the header.
\<close>

theorem sockopt_roundtrip:
  assumes "ppp_user a p s t st" and "opt_value opt v"
  shows "\<exists>st' s'. pppol2tp_setsockopt E a True opt (Some v) 4 st = Inr (0, st') \<and>
    pppol2tp_getsockopt E a True opt (Some 4) True st' = Inr ((0, Out_int v), st') \<and>
    k_sessions st' = (k_sessions st)(p \<mapsto> s') \<and>
    (\<forall>opt'. opt' \<noteq> opt \<longrightarrow> pppol2tp_session_getsockopt E s' opt' = pppol2tp_session_getsockopt E s opt') \<and>
    (header_fits t s \<longrightarrow> header_fits t s')"
proof -
  obtain st' where st': "pppol2tp_setsockopt E a True opt (Some v) 4 st = Inr (0, st')"
    "k_sessions st' = (k_sessions st)(p \<mapsto> opt_session t opt v s)" "ppp_user a p (opt_session t opt v s) t st'"
    by (rule setsockopt_returns [OF assms])
  show ?thesis using st' getsockopt_returns [OF st'(3), of E opt] opt_session_get(1) [of opt v E t s] assms(2) opt_session_fits
    by (intro exI [of _ st'] exI [of _ "opt_session t opt v s"]) (simp add: opt_session_get(2))
qed

theorem sockopt_roundtrip_witness:
  "\<exists>st'. pppol2tp_setsockopt sample_env 1 True PPPOL2TP_SO_SENDSEQ (Some 0) 4 (ppp_state sample_sock) = Inr (0, st') \<and>
    pppol2tp_getsockopt sample_env 1 True PPPOL2TP_SO_SENDSEQ (Some 4) True st' = Inr ((0, Out_int 0), st')"
proof -
  have "ppp_user 1 2 ppp_session ppp_tunnel (ppp_state sample_sock)"
    by (simp add: ppp_user_def ppp_state_def ppp_session_def sample_session_v2_def ppp_sock_of_def)
  from sockopt_roundtrip [OF this, of PPPOL2TP_SO_SENDSEQ 0 sample_env] show ?thesis by (auto simp: opt_value_def)
qed

text \<open>
  C20: a rejected option is reported as set. On such a socket a value other than 0 and 1 for one of the
  three flags, or an unknown option, is rejected by the session's handler and changes nothing; the
  call itself nevertheless returns 0, because the handler's result is overwritten.
\<close>

theorem setsockopt_error_lost:
  assumes "ppp_user a p s t st"
    and "opt = Other_opt \<or> opt \<in> {PPPOL2TP_SO_RECVSEQ, PPPOL2TP_SO_SENDSEQ, PPPOL2TP_SO_LNSMODE} \<and> v \<noteq> 0 \<and> v \<noteq> 1"
  shows "(\<exists>e. e < 0 \<and> pppol2tp_session_setsockopt E p opt v st = Inr (e, st)) \<and>
    pppol2tp_setsockopt E a True opt (Some v) 4 st = Inr (0, st)"
proof -
  obtain ps where ps: "ppp_priv s = Inr ps" by (rule ppp_user_priv [OF assms(1)])
  obtain sk where sk: "socks (k_world st) a = Some sk" "sk_user_data sk = Some p" using assms(1) by (auto simp: ppp_user_def split: option.splits)
  have s: "k_sessions st p = Some s" "session_id s \<noteq> 0 \<or> peer_session_id s \<noteq> 0" using assms(1) by (simp_all add: ppp_user_def)
  show ?thesis using assms(2) sk s put_held(2) [OF assms(1)]
    by (auto simp: pppol2tp_setsockopt_def ppp_call [OF assms(1) ps] pppol2tp_session_setsockopt_def)
qed

theorem setsockopt_error_lost_witness:
  "\<exists>e. e < 0 \<and> pppol2tp_session_setsockopt sample_env 2 PPPOL2TP_SO_RECVSEQ 7 (ppp_state sample_sock) = Inr (e, ppp_state sample_sock) \<and>
    pppol2tp_setsockopt sample_env 1 True PPPOL2TP_SO_RECVSEQ (Some 7) 4 (ppp_state sample_sock) = Inr (0, ppp_state sample_sock)"
proof -
  have "ppp_user 1 2 ppp_session ppp_tunnel (ppp_state sample_sock)"
    by (simp add: ppp_user_def ppp_state_def ppp_session_def sample_session_v2_def ppp_sock_of_def)
  from setsockopt_error_lost [OF this, of PPPOL2TP_SO_RECVSEQ 7 sample_env] show ?thesis by auto
qed

text \<open>
  C17: an address of an IPv4 socket of protocol 115 is bound once. After a successful bind of socket
  \<open>a\<close> to an address and a connection id, given that it was not bound to another address before when the new address is the wildcard, the
  lookup of that id finds \<open>a\<close>, for the bound address (for every address if bound to the wildcard) and
  on the device \<open>a\<close> is bound to (on every device if it is bound to none). And another
  socket of the same namespace and device that asks for the same address and id is refused with
  \<open>EADDRINUSE\<close> and changes nothing.
\<close>

theorem ip_bind_claims_address:
  assumes "l2tp_ip_bind E a addr tbs st = Inr (0, tbs', st')" and "socks (k_world st) a = Some sk"
    and "l2tp_addr addr \<noteq> 0 \<or> inet_rcv_saddr sk = 0"
    and "l2tp_addr addr = 0 \<or> laddr = l2tp_addr addr" and "sk_bound_dev_if sk = 0 \<or> dif = sk_bound_dev_if sk"
    and "b \<noteq> a" and "socks (k_world st') b = Some sb" and "sk_zapped sb" and "sk_net sb = sk_net sk" and "sk_bound_dev_if sb = dif"
    and "l2tp_family addr' = AF_INET" and "l2tp_len_ok addr'" and "l2tp_addr addr' = laddr" and "l2tp_conn_id addr' = l2tp_conn_id addr"
  shows "l2tp_ip_bind_lookup_raw (sk_net sk) laddr dif (l2tp_conn_id addr) tbs' st' = Inr (Some a) \<and>
    l2tp_ip_bind E' b addr' tbs' st' = Inr (- EADDRINUSE, tbs', st')"
proof -
  obtain sk' where k: "l2tp_ip_bind_table tbs' = a # l2tp_ip_bind_table tbs" "socks (k_world st') a = Some sk'"
    "conn_id sk' = l2tp_conn_id addr" "sk_net sk' = sk_net sk" "sk_bound_dev_if sk' = sk_bound_dev_if sk"
    "inet_rcv_saddr sk' = (if l2tp_addr addr \<noteq> 0 then l2tp_addr addr else inet_rcv_saddr sk)"
    by (rule ip_bind_done [OF assms(1,2)])
  have "ip_bind_match (sk_net sk) laddr dif (l2tp_conn_id addr) sk'"
    using k(3-6) assms(3-5) by (auto simp: ip_bind_match_def)
  then have look: "l2tp_ip_bind_lookup_raw (sk_net sk) laddr dif (l2tp_conn_id addr) tbs' st' = Inr (Some a)"
    using k(2) by (simp add: l2tp_ip_bind_lookup_raw_def k(1))
  then show ?thesis using assms(7-14) by (simp add: l2tp_ip_bind_def)
qed

theorem ip_bind_claims_address_witness:
  "\<exists>tbs' st'. l2tp_ip_bind sample_env 1 local_addr unbound_tables unbound_state = Inr (0, tbs', st') \<and>
    l2tp_ip_bind_lookup_raw 0 0x7f000001 0 3 tbs' st' = Inr (Some 1) \<and>
    l2tp_ip_bind sample_env 2 local_addr tbs' st' = Inr (- EADDRINUSE, tbs', st')"
proof -
  have s: "socks (k_world unbound_state) 1 = Some unbound_sock" by (simp add: unbound_state_def)
  obtain tbs' st' where b: "l2tp_ip_bind sample_env 1 local_addr unbound_tables unbound_state = Inr (0, tbs', st')"
    "socks (k_world st') 2 = Some unbound_sock"
    by (simp add: l2tp_ip_bind_def l2tp_ip_bind_lookup_raw_def unbound_state_def unbound_tables_def unbound_sock_def sample_sock_def
        sample_env_def local_addr_def sk_del_node_init_def sk_add_bind_node_def on_world_def sock_put_def socks_upd_sock Let_def)
  then show ?thesis using ip_bind_claims_address [OF b(1) s, of "0x7f000001" 0 2 unbound_sock local_addr sample_env]
    by (simp add: local_addr_def unbound_sock_def sample_sock_def)
qed

text \<open>
  C21: an IPv6 socket is not found under its own address. After a successful bind of an IPv6 socket of
  protocol 115, no lookup for the address it is bound to returns it, whatever the namespace, the device
  and the id: control packets to that address never reach it through the bind table, and
  it does not keep another socket from binding the same address and id.
\<close>

theorem ip6_bound_address_not_found:
  assumes "l2tp_ip6_bind E dx a addr tbs st = Inr (0, tbs', st')" and "socks (k_world st) a = Some sk"
  shows "a \<in> set (l2tp_ip_bind_table tbs') \<and> l2tp_ip6_bind_lookup_raw net (l2tp6_addr addr) dif tid tbs' st' \<noteq> Inr (Some a)"
proof -
  have e: "e \<noteq> 0" if "ip6_host_check E (sk_net sk) addr (ipv6_addr_type E (l2tp6_addr addr)) dx sk = (Inl e, sk1)" for e sk1
    using that by (auto simp: ip6_host_check_def Let_def split: if_splits)
  obtain sk' where k: "l2tp_ip_bind_table tbs' = a # l2tp_ip_bind_table tbs" "socks (k_world st') a = Some sk'"
    "sk_v6_rcv_saddr sk' = l2tp6_addr addr" by (rule ip6_bind_done [OF assms e])
  have "l2tp_ip6_bind_lookup_raw net (l2tp6_addr addr) dif tid tbs' st' \<noteq> Inr (Some a)"
    unfolding l2tp_ip6_bind_lookup_raw_def
    using chain_find_matches [of "socks (k_world st')" "ip6_bind_match net (l2tp6_addr addr) dif tid" _ a] k(2,3)
    by (auto simp: ip6_bind_match_def)
  then show ?thesis using k(1) by simp
qed

theorem ip6_bound_address_not_found_witness:
  "\<exists>tbs' st'. l2tp_ip6_bind sample_env (\<lambda>_. True) 1 local_addr6 unbound_tables unbound_state = Inr (0, tbs', st') \<and>
    1 \<in> set (l2tp_ip_bind_table tbs') \<and> l2tp_ip6_bind_lookup_raw 0 5 0 3 tbs' st' \<noteq> Inr (Some 1)"
proof -
  have s: "socks (k_world unbound_state) 1 = Some unbound_sock" by (simp add: unbound_state_def)
  obtain tbs' st' where b: "l2tp_ip6_bind sample_env (\<lambda>_. True) 1 local_addr6 unbound_tables unbound_state = Inr (0, tbs', st')"
    by (simp add: l2tp_ip6_bind_def l2tp_ip6_bind_lookup_raw_def ip6_host_check_def unbound_state_def unbound_tables_def unbound_sock_def
        sample_sock_def sample_env_def local_addr6_def sk_del_node_init_def sk_add_bind_node_def on_world_def sock_put_def socks_upd_sock Let_def)
  then show ?thesis using ip6_bound_address_not_found [OF b s, of 0 0 3] by (auto simp: local_addr6_def)
qed

end
