(* ===== verification/Spec2Isabelle.thy ===== *)
theory Spec2Isabelle
  imports L2tp_Store L2tp_Dump L2tp_Reclaim L2tp_Sockets
begin

text \<open>
  A verification development for the L2TP modules of this repository, the files of
  \<^verbatim>\<open>src/work_module/network_module/l2tp\<close>: \<^verbatim>\<open>l2tp_core.c\<close> and \<^verbatim>\<open>l2tp_core.h\<close> (tunnels, sessions, the
  receive and transmit paths), the pseudowires \<^verbatim>\<open>l2tp_eth.c\<close> and \<^verbatim>\<open>l2tp_ppp.c\<close>, the configuration
  interface \<^verbatim>\<open>l2tp_netlink.c\<close>, and the sockets of protocol 115, \<^verbatim>\<open>l2tp_ip.c\<close> and \<^verbatim>\<open>l2tp_ip6.c\<close>.

  \<^bold>\<open>How the parts interact.\<close> A netlink request (or the connect of a PPP socket) creates a tunnel over
  a UDP or IP socket, which it finds by descriptor or makes itself, and sessions in the tunnel. A
  session belongs to a pseudowire, an Ethernet device or a PPP socket. Packets from the socket go through the encapsulation handler and
  the demultiplexer to the session's receive path, which checks cookie and sequence number, queues
  the packet and hands what is in order to the pseudowire. Packets from a pseudowire get an
  L2TP and a UDP header and go to IP, and keep a reference to the tunnel's socket until they are
  freed. Deletion ends the sessions and leaves the rest to a work item, the socket's
  destructor and an RCU callback.

  \<^bold>\<open>Conventions.\<close> Structures are records, callbacks are datatypes of the functions the modules store,
  w-bit integers are words, plain counters are integers. Memory is a map from pointers (natural numbers)
  to structures, so a freed structure is not in the map. Results are \<open>'a kres\<close>: a null or freed pointer, a failed
  \<^verbatim>\<open>BUG_ON\<close> or an access outside a buffer is an \<open>Inl\<close>; an error number is part of a normal result. What happens to
  packets is recorded in a trace. Code outside these files (allocation, checksums, routing, the
  socket, device and PPP layers, time, the hash function) is the record \<open>kenv\<close>, an argument of
  every definition that uses it; what is assumed of it is named: \<open>wf_env\<close> (the hash stays below its
  bound, the current CPU is a possible one), \<open>socket_layer\<close> (a new kernel socket is unused and stays so
  through bind and connect), \<open>cow_head_ok\<close> (\<^verbatim>\<open>skb_cow_head\<close> keeps the data and makes the room), and in the
  system \<open>fd_ok\<close> for a descriptor given by user space.

  \<^bold>\<open>Theories.\<close>
  \<^item> \<^verbatim>\<open>Prelude\<close>: the result type and generic lemmas. \<^verbatim>\<open>L2tp_Types\<close>: the structures of \<^verbatim>\<open>l2tp_core.h\<close>
    and of the pseudowires. \<^verbatim>\<open>Kernel\<close>: the environment, socket buffers, socket references.
    \<^verbatim>\<open>Sample_State\<close>: concrete values for witnesses.
  \<^item> \<^verbatim>\<open>L2tp_Seq\<close>: \<^verbatim>\<open>l2tp_recv_queue_skb\<close>, \<^verbatim>\<open>l2tp_seq_check_rx_window\<close>, \<^verbatim>\<open>l2tp_recv_data_seq\<close>,
    \<^verbatim>\<open>l2tp_recv_dequeue\<close>, \<^verbatim>\<open>l2tp_session_queue_purge\<close>. The locale \<open>seq_mask\<close> has the two sequence
    spaces, \<open>pw_contract\<close> what the receive path needs of a pseudowire; \<^verbatim>\<open>L2tp_Pw\<close> has the two receive handlers
    and interprets it. Shown: the window check is arithmetic modulo the sequence space; the dequeue loop terminates and takes a prefix of the queue.
  \<^item> \<^verbatim>\<open>L2tp_Header\<close>, \<^verbatim>\<open>L2tp_Wire\<close>: the header builders and \<^verbatim>\<open>l2tp_session_set_header_len\<close>. Shown: the
    bytes of both headers, and that the parsing steps of the receive path read them back.
  \<^item> \<^verbatim>\<open>L2tp_Recv\<close>, \<^verbatim>\<open>L2tp_Reorder\<close>: the body of \<^verbatim>\<open>l2tp_recv_common\<close>. Shown: no packet is lost or freed
    twice on any branch; packets of a window leave in order, and how the order fails at the wrap-around.
  \<^item> \<^verbatim>\<open>L2tp_Heap\<close>, \<^verbatim>\<open>L2tp_Life\<close>, \<^verbatim>\<open>L2tp_Tunnel\<close>: lookups, hash chains, reference counts, creation and
    deletion of sessions and tunnels, destructors, the delete work, namespaces.
  \<^item> \<^verbatim>\<open>L2tp_Path\<close>: the UDP receive handler and \<^verbatim>\<open>l2tp_xmit_skb\<close>. \<^verbatim>\<open>L2tp_Eth\<close>, \<^verbatim>\<open>L2tp_Ppp\<close>,
    \<^verbatim>\<open>L2tp_Ppp_Ctl\<close>, \<^verbatim>\<open>L2tp_Netlink\<close>, \<^verbatim>\<open>L2tp_Ip\<close>: the operations of the other files, every branch.
  \<^item> \<^verbatim>\<open>L2tp_Effect\<close>, \<^verbatim>\<open>L2tp_Inv\<close> and the theories \<^verbatim>\<open>L2tp_Inv_*\<close>: the invariant of the heap and its
    preservation by each operation. \<^verbatim>\<open>L2tp_System\<close>: the events, when they are enabled, the
    reachable states. \<^verbatim>\<open>Sample_Run\<close>: a run of the system for witnesses.
  \<^item> \<^verbatim>\<open>L2tp_Props\<close>: no enabled event faults in a reachable state; reference counts and counters are
    exact. \<^verbatim>\<open>L2tp_Store\<close>: creation, deletion and lookup of sessions refine an abstract table (locale
    \<open>session_store\<close>, over the hash tables of \<open>session_hash\<close>). \<^verbatim>\<open>L2tp_Reclaim\<close>: a deleted tunnel is given
    back, and the null pointer after a second delete. \<^verbatim>\<open>L2tp_Dump\<close>: the dump reports every session once.
  \<^item> \<^verbatim>\<open>L2tp_Link\<close>: from the transmit path of one end through the receive handler of the other, over
    UDP for both versions and over IP. \<^verbatim>\<open>L2tp_Sockets\<close>: socket options and bind tables.

  \<^bold>\<open>The system.\<close> The events are the netlink commands that create, delete and modify tunnels and sessions, the delete
  work, the release of a tunnel socket, the destructor of a socket whose count is zero, the RCU callback, a
  packet sent through an Ethernet device, the freeing of a packet in flight, and a new user socket.
  They interleave freely. \<open>sock_put\<close> does not run the destructor itself: a socket whose count is zero waits for its own
  event, so the destructor may run at any later time. Runs the code mishandles are not enabled: the delete
  work after the socket is gone or while its descriptor is open, and sending when the configured header does not fit. Receiving, the
  PPP sockets and the sockets of protocol 115 are not events; their properties are stated for a given state.

  \<^bold>\<open>Bounds.\<close> No fuel is used: the dequeue loop, the walks over chains and the dumps have termination proofs. The
  tables have the 16 and 256 buckets of the source. A netlink reply has the room of one page. Reference counts
  and tunnel and session counters are unbounded integers; sequence numbers, ids, lengths and flags have the widths of the source.

  \<^bold>\<open>Not modelled.\<close> Locks and concurrent execution inside one operation, log messages, \<^verbatim>\<open>l2tp_debugfs.c\<close>,
  text formatting of the proc file, module init and exit beyond the registration of pseudowires, sendmsg and recvmsg of
  \<^verbatim>\<open>l2tp_ip6.c\<close> and the flow label in its getname. The netlink policy of an IPv6 address is a binary attribute of up to 16 bytes; the
  model takes attributes with exactly 16. The reallocation behind \<^verbatim>\<open>pskb_may_pull\<close> does not invalidate pointers in the model, so the stale
  pointers of the IP receive handlers read the same bytes. A device whose registration fails is dropped as a whole.
  The variant \<^verbatim>\<open>l2tp-3.10.59\<close> and the example modules of the repository are outside the development.
\<close>

end
